(* ===== verification/Prelude.thy ===== *)
theory Prelude imports Main "HOL-Library.Word" "HOL-Library.Sublist" begin

text \<open>
  The prelude of the development: the type synonyms of the model, the collections of simplification
  rules the component theories fill, and generic lemmas on lists, options and maps.

  A Go string or byte slice is a \<^typ>\<open>string\<close> (a list of bytes), an error is a value
  (\<open>string option\<close> or the left side of a sum), a Go \<open>int\<close> used as a status code or a length is an
  \<^typ>\<open>int\<close> or \<^typ>\<open>nat\<close>, and the 64-bit counters and durations are machine words.
\<close>

type_synonym uint64 = "64 word"

text \<open>\<open>time.Duration\<close> is an int64 count of nanoseconds: a word read with \<^const>\<open>sint\<close>.\<close>

type_synonym duration = "64 word"

named_theorems meter_simps \<open>evaluation of the request meters\<close>

lemma rev_find_first:
  assumes "\<not> P x" "list_all P ys"
  shows "find (\<lambda>y. \<not> P y) (rev (xs @ x # ys)) = Some x"
proof -
  have "find (\<lambda>y. \<not> P y) (rev ys @ x # rev xs) = Some x"
    using assms by (induction ys rule: rev_induct) auto
  then show ?thesis by simp
qed

lemma find_None_list_all: "find (\<lambda>y. \<not> P y) xs = None \<longleftrightarrow> list_all P xs"
  by (induction xs) auto

lemma find_SomeD: "find P xs = Some x \<Longrightarrow> P x \<and> x \<in> set xs"
  by (induction xs) (auto split: if_splits)

lemma case_option_eq_Some_iff:
  "(case x of None \<Rightarrow> None | Some y \<Rightarrow> f y) = Some z \<longleftrightarrow> (\<exists>y. x = Some y \<and> f y = Some z)"
  by (cases x) auto

end
