(* ===== verification/GoStrings.thy ===== *)
theory GoStrings imports Prelude begin

text \<open>
  The string operations of Go's standard library that the module calls (packages \<open>strings\<close>,
  \<open>strconv\<close>, \<open>encoding/hex\<close>), on byte strings.  \<open>TrimSpace\<close> knows the UTF-8 encodings of every
  Unicode space; \<open>ToLower\<close>, \<open>ToUpper\<close> and \<open>EqualFold\<close> map the ASCII letters and leave every byte
  above 127 alone (hosts, media types and file names are ASCII).  Nothing here is code of the
  repository: these are the building blocks the component theories use.
\<close>

subsection \<open>Characters\<close>

definition char_code :: "char \<Rightarrow> nat" where
  "char_code c = of_char c"

definition is_digit :: "char \<Rightarrow> bool" where
  "is_digit c \<longleftrightarrow> 48 \<le> char_code c \<and> char_code c \<le> 57"

definition is_upper :: "char \<Rightarrow> bool" where
  "is_upper c \<longleftrightarrow> 65 \<le> char_code c \<and> char_code c \<le> 90"

definition is_lower :: "char \<Rightarrow> bool" where
  "is_lower c \<longleftrightarrow> 97 \<le> char_code c \<and> char_code c \<le> 122"

definition lower_char :: "char \<Rightarrow> char" where
  "lower_char c = (if is_upper c then char_of (char_code c + 32) else c)"

definition upper_char :: "char \<Rightarrow> char" where
  "upper_char c = (if is_lower c then char_of (char_code c - 32) else c)"

definition to_lower :: "string \<Rightarrow> string" where
  "to_lower = map lower_char"

definition to_upper :: "string \<Rightarrow> string" where
  "to_upper = map upper_char"

definition equal_fold :: "string \<Rightarrow> string \<Rightarrow> bool" where
  "equal_fold a b \<longleftrightarrow> to_lower a = to_lower b"

lemma equal_fold_refl [simp]: "equal_fold a a"
  by (simp add: equal_fold_def)

lemma equal_fold_sym: "equal_fold a b \<longleftrightarrow> equal_fold b a"
  by (auto simp: equal_fold_def)

lemma equal_fold_trans: "equal_fold a b \<Longrightarrow> equal_fold b c \<Longrightarrow> equal_fold a c"
  by (simp add: equal_fold_def)

lemma equal_fold_length: "equal_fold a b \<Longrightarrow> length a = length b"
  unfolding equal_fold_def to_lower_def by (metis length_map)

lemma char_code_lt: "char_code c < 256"
  by (simp add: char_code_def)

lemma char_code_of: "n < 256 \<Longrightarrow> char_code (char_of n) = n"
  by (simp add: char_code_def)

lemma lower_char_idem: "lower_char (lower_char c) = lower_char c"
  by (auto simp: lower_char_def is_upper_def char_code_of)

lemma to_lower_idem: "to_lower (to_lower s) = to_lower s"
  by (simp add: to_lower_def lower_char_idem)

lemma to_lower_append: "to_lower (a @ b) = to_lower a @ to_lower b"
  by (simp add: to_lower_def)

subsection \<open>Searching and splitting\<close>

fun index_byte :: "char \<Rightarrow> string \<Rightarrow> nat option" where
  "index_byte c [] = None"
| "index_byte c (x # xs) = (if x = c then Some 0 else map_option Suc (index_byte c xs))"

definition last_index_byte :: "char \<Rightarrow> string \<Rightarrow> nat option" where
  "last_index_byte c s = map_option (\<lambda>i. length s - 1 - i) (index_byte c (rev s))"

fun contains :: "string \<Rightarrow> string \<Rightarrow> bool" where
  "contains [] sub = (sub = [])"
| "contains (x # xs) sub = (prefix sub (x # xs) \<or> contains xs sub)"

fun split_byte :: "char \<Rightarrow> string \<Rightarrow> string list" where
  "split_byte c [] = [[]]"
| "split_byte c (x # xs) =
     (if x = c then [] # split_byte c xs
      else case split_byte c xs of [] \<Rightarrow> [[x]] | p # ps \<Rightarrow> (x # p) # ps)"

text \<open>\<open>strings.Cut\<close> at a one-byte separator: \<open>None\<close> is \<open>found = false\<close>.\<close>

fun cut_byte :: "char \<Rightarrow> string \<Rightarrow> (string \<times> string) option" where
  "cut_byte c [] = None"
| "cut_byte c (x # xs) =
     (if x = c then Some ([], xs)
      else map_option (\<lambda>(a, b). (x # a, b)) (cut_byte c xs))"

fun join :: "string \<Rightarrow> string list \<Rightarrow> string" where
  "join sep [] = []"
| "join sep [s] = s"
| "join sep (s # t # ts) = s @ sep @ join sep (t # ts)"

definition replace_byte :: "char \<Rightarrow> char \<Rightarrow> string \<Rightarrow> string" where
  "replace_byte a b = map (\<lambda>c. if c = a then b else c)"

definition has_prefix :: "string \<Rightarrow> string \<Rightarrow> bool" where
  "has_prefix s p \<longleftrightarrow> prefix p s"

definition has_suffix :: "string \<Rightarrow> string \<Rightarrow> bool" where
  "has_suffix s p \<longleftrightarrow> suffix p s"

definition trim_suffix :: "string \<Rightarrow> string \<Rightarrow> string" where
  "trim_suffix s p = (if suffix p s then take (length s - length p) s else s)"

lemma contains_sublist: "contains s sub \<longleftrightarrow> sublist sub s"
proof (induction s)
  case Nil
  then show ?case by (cases sub) auto
next
  case (Cons x xs)
  then show ?case by (auto simp: sublist_Cons_right)
qed

lemma index_byte_None [simp]: "index_byte c s = None \<longleftrightarrow> c \<notin> set s"
  by (induction s) auto

lemma index_byte_append: "c \<notin> set a \<Longrightarrow> index_byte c (a @ c # b) = Some (length a)"
  by (induction a) auto

lemma index_byte_Some:
  "index_byte c s = Some i \<longleftrightarrow> (\<exists>a b. s = a @ c # b \<and> c \<notin> set a \<and> length a = i)"
proof (induction s arbitrary: i)
  case Nil
  then show ?case by simp
next
  case (Cons x xs)
  show ?case
  proof
    assume h: "index_byte c (x # xs) = Some i"
    show "\<exists>a b. x # xs = a @ c # b \<and> c \<notin> set a \<and> length a = i"
    proof (cases "x = c")
      case True
      with h show ?thesis by (intro exI [of _ "[]"] exI [of _ xs]) auto
    next
      case False
      with h obtain j where "index_byte c xs = Some j" "i = Suc j" by auto
      with Cons.IH obtain a b where "xs = a @ c # b" "c \<notin> set a" "length a = j" by blast
      with False \<open>i = Suc j\<close> show ?thesis by (intro exI [of _ "x # a"] exI [of _ b]) auto
    qed
  next
    assume "\<exists>a b. x # xs = a @ c # b \<and> c \<notin> set a \<and> length a = i"
    then show "index_byte c (x # xs) = Some i" by (metis index_byte_append)
  qed
qed

lemma last_index_byte_None [simp]: "last_index_byte c s = None \<longleftrightarrow> c \<notin> set s"
  by (simp add: last_index_byte_def)

lemma last_index_byte_append:
  assumes "c \<notin> set b"
  shows "last_index_byte c (a @ c # b) = Some (length a)"
proof -
  have "index_byte c (rev b @ c # rev a) = Some (length b)"
    using assms index_byte_append [of c "rev b" "rev a"] by simp
  then show ?thesis by (simp add: last_index_byte_def)
qed

lemma last_index_byte_SomeD:
  assumes "last_index_byte c s = Some i"
  obtains a b where "s = a @ c # b" "c \<notin> set b" "length a = i"
proof -
  from assms obtain k where k: "index_byte c (rev s) = Some k" "i = length s - 1 - k"
    by (auto simp: last_index_byte_def)
  then obtain u v where uv: "rev s = u @ c # v" "c \<notin> set u" "length u = k"
    by (auto simp: index_byte_Some)
  have "rev (rev s) = rev v @ c # rev u" by (simp add: uv(1))
  then have s: "s = rev v @ c # rev u" by simp
  then have "length (rev v) = i" using k(2) uv(3) by simp
  with s uv(2) show thesis by (intro that [of "rev v" "rev u"]) auto
qed

lemma split_byte_not_Nil [simp]: "split_byte c s \<noteq> []"
  by (induction s) (auto split: list.splits)

lemma split_byte_no_sep: "c \<notin> set s \<Longrightarrow> split_byte c s = [s]"
  by (induction s) auto

lemma split_byte_append: "c \<notin> set a \<Longrightarrow> split_byte c (a @ c # b) = a # split_byte c b"
  by (induction a) auto

lemma split_byte_parts: "p \<in> set (split_byte c s) \<Longrightarrow> c \<notin> set p"
  by (induction s arbitrary: p) (fastforce split: list.splits if_splits)+

lemma cut_byte_append: "c \<notin> set a \<Longrightarrow> cut_byte c (a @ c # b) = Some (a, b)"
  by (induction a) auto

lemma cut_byte_None [simp]: "cut_byte c s = None \<longleftrightarrow> c \<notin> set s"
  by (induction s) auto

lemma join_split_byte: "join [c] (split_byte c s) = s"
proof (induction s)
  case Nil
  then show ?case by simp
next
  case (Cons x xs)
  obtain p ps where ps: "split_byte c xs = p # ps" by (cases "split_byte c xs") auto
  with Cons show ?case by (cases ps) auto
qed

subsection \<open>TrimSpace\<close>

definition ascii_space :: "char \<Rightarrow> bool" where
  "ascii_space c \<longleftrightarrow> char_code c \<in> {9, 10, 11, 12, 13, 32}"

text \<open>The UTF-8 encodings of the white space runes above ASCII, by their two or three byte codes.\<close>

definition wide_space2 :: "nat \<Rightarrow> nat \<Rightarrow> bool" where
  "wide_space2 x y \<longleftrightarrow> x = 194 \<and> (y = 133 \<or> y = 160)"

definition wide_space3 :: "nat \<Rightarrow> nat \<Rightarrow> nat \<Rightarrow> bool" where
  "wide_space3 x y z \<longleftrightarrow>
     (x = 225 \<and> y = 154 \<and> z = 128)
     \<or> (x = 226 \<and> y = 128 \<and> ((128 \<le> z \<and> z \<le> 138) \<or> z = 168 \<or> z = 169 \<or> z = 175))
     \<or> (x = 226 \<and> y = 129 \<and> z = 159) \<or> (x = 227 \<and> y = 128 \<and> z = 128)"

text \<open>
  The length of the space at the head of a string, \<open>0\<close> when there is none; with \<open>bwd\<close> the string is
  read backwards, as the trimming from the right does.
\<close>

fun space_len :: "bool \<Rightarrow> string \<Rightarrow> nat" where
  "space_len bwd [] = 0"
| "space_len bwd (a # s) =
     (if ascii_space a then 1
      else if char_code a < 128 then 0
      else case s of
          [] \<Rightarrow> 0
        | b # t \<Rightarrow>
            if (if bwd then wide_space2 (char_code b) (char_code a)
                else wide_space2 (char_code a) (char_code b)) then 2
            else case t of
                [] \<Rightarrow> 0
              | c # _ \<Rightarrow>
                  if (if bwd then wide_space3 (char_code c) (char_code b) (char_code a)
                      else wide_space3 (char_code a) (char_code b) (char_code c)) then 3 else 0)"

function trim_head :: "bool \<Rightarrow> string \<Rightarrow> string" where
  "trim_head ws s = (if space_len ws s = 0 then s else trim_head ws (drop (space_len ws s) s))"
  by pat_completeness auto
termination
proof (relation "measure (\<lambda>(ws, s). length s)")
  fix ws s
  assume h: "space_len ws s \<noteq> 0"
  then have "s \<noteq> []" by (cases s) auto
  with h show "((ws, drop (space_len ws s) s), (ws, s)) \<in> measure (\<lambda>(ws, s). length s)"
    by simp
qed simp

declare trim_head.simps [simp del]

definition trim_space :: "string \<Rightarrow> string" where
  "trim_space s = rev (trim_head True (rev (trim_head False s)))"

definition no_space :: "string \<Rightarrow> bool" where
  "no_space s \<longleftrightarrow> list_all (\<lambda>c. char_code c < 128 \<and> \<not> ascii_space c) s"

lemma trim_head_no_space: "no_space s \<Longrightarrow> trim_head ws s = s"
  by (subst trim_head.simps) (cases s; auto simp: no_space_def)

lemma no_space_rev: "no_space (rev s) = no_space s"
  by (simp add: no_space_def list_all_iff)

lemma trim_space_no_space: "no_space s \<Longrightarrow> trim_space s = s"
  by (simp add: trim_space_def trim_head_no_space no_space_rev)

lemma trim_space_Nil [simp]: "trim_space [] = []"
  by (rule trim_space_no_space) (simp add: no_space_def)

subsection \<open>Numbers and hexadecimal\<close>

definition digit_char :: "nat \<Rightarrow> char" where
  "digit_char d = char_of (d + 48)"

fun nat_digits :: "nat \<Rightarrow> string" where
  "nat_digits n = (if n < 10 then [digit_char n] else nat_digits (n div 10) @ [digit_char (n mod 10)])"

declare nat_digits.simps [simp del]

text \<open>\<open>strconv.Itoa\<close>.\<close>

definition itoa :: "int \<Rightarrow> string" where
  "itoa i = (if i < 0 then ''-'' @ nat_digits (nat (- i)) else nat_digits (nat i))"

definition hex_char :: "nat \<Rightarrow> char" where
  "hex_char d = (if d < 10 then char_of (d + 48) else char_of (d + 87))"

text \<open>\<open>hex.EncodeToString\<close>.\<close>

fun hex_encode :: "string \<Rightarrow> string" where
  "hex_encode [] = []"
| "hex_encode (b # bs) = hex_char (char_code b div 16) # hex_char (char_code b mod 16) # hex_encode bs"

definition is_hex_char :: "char \<Rightarrow> bool" where
  "is_hex_char c \<longleftrightarrow> is_digit c \<or> (97 \<le> char_code c \<and> char_code c \<le> 102)"

lemma hex_char_is_hex: "d < 16 \<Longrightarrow> is_hex_char (hex_char d)"
  by (auto simp: hex_char_def is_hex_char_def is_digit_def char_code_of)

lemma hex_encode_length: "length (hex_encode bs) = 2 * length bs"
  by (induction bs) auto

lemma hex_encode_chars: "list_all is_hex_char (hex_encode bs)"
proof (induction bs)
  case Nil
  then show ?case by simp
next
  case (Cons b bs)
  have "char_code b div 16 < 16" using char_code_lt [of b] by simp
  with Cons show ?case by (simp add: hex_char_is_hex)
qed

lemma hex_char_inj:
  assumes "d < 16" "e < 16" "hex_char d = hex_char e"
  shows "d = e"
proof -
  have "char_code (hex_char d) = char_code (hex_char e)" using assms(3) by simp
  with assms(1,2) show ?thesis
    by (auto simp: hex_char_def char_code_of split: if_splits)
qed

lemma hex_encode_inj: "hex_encode a = hex_encode b \<Longrightarrow> a = b"
proof (induction a arbitrary: b)
  case Nil
  then show ?case by (cases b) auto
next
  case (Cons x xs)
  then obtain y ys where b: "b = y # ys" by (cases b) auto
  have lt: "char_code x div 16 < 16" "char_code y div 16 < 16"
    using char_code_lt [of x] char_code_lt [of y] by simp_all
  from Cons.prems b have "char_code x div 16 = char_code y div 16" "char_code x mod 16 = char_code y mod 16"
    using hex_char_inj [OF lt] hex_char_inj [of "char_code x mod 16" "char_code y mod 16"] by simp_all
  then have "char_code x = char_code y" by (metis div_mod_decomp)
  then have "x = y" by (simp add: char_code_def)
  moreover have "xs = ys" using Cons b by simp
  ultimately show ?case by (simp add: b)
qed

end
