(* ===== verification/GoNet.thy ===== *)
theory GoNet imports GoStrings begin

text \<open>
  The parts of Go's \<open>net\<close> and \<open>net/netip\<close> packages the module calls: \<open>SplitHostPort\<close> and
  \<open>JoinHostPort\<close> with every error case, \<open>ParseIP\<close> for both address families (leading zeros, the
  \<open>::\<close> ellipsis, embedded IPv4 and zones as the library treats them), and the address classes
  \<open>IsLoopback\<close>, \<open>IsPrivate\<close> and \<open>IsLinkLocalUnicast\<close>.  An address is the list of its bytes, 16 for
  the form \<open>ParseIP\<close> returns and 4 after \<open>To4\<close>.
\<close>

subsection \<open>host:port\<close>

datatype addr_error =
    MissingPort | TooManyColons | MissingBracket | UnexpectedOpen | UnexpectedClose

definition split_host_port :: "string \<Rightarrow> addr_error + (string \<times> string)" where
  "split_host_port hp =
     (case last_index_byte CHR '':'' hp of
        None \<Rightarrow> Inl MissingPort
      | Some i \<Rightarrow>
          let finish = (\<lambda>host j k.
                 if CHR ''['' \<in> set (drop j hp) then Inl UnexpectedOpen
                 else if CHR '']'' \<in> set (drop k hp) then Inl UnexpectedClose
                 else Inr (host, drop (i + 1) hp))
          in if take 1 hp = ''['' then
               (case index_byte CHR '']'' hp of
                  None \<Rightarrow> Inl MissingBracket
                | Some e \<Rightarrow>
                    if e + 1 = length hp then Inl MissingPort
                    else if e + 1 = i then finish (take (e - 1) (drop 1 hp)) 1 (e + 1)
                    else if hp ! (e + 1) = CHR '':'' then Inl TooManyColons
                    else Inl MissingPort)
             else if CHR '':'' \<in> set (take i hp) then Inl TooManyColons
             else finish (take i hp) 0 0)"

definition join_host_port :: "string \<Rightarrow> string \<Rightarrow> string" where
  "join_host_port host port =
     (if CHR '':'' \<in> set host then ''['' @ host @ '']:'' @ port else host @ '':'' @ port)"

definition plain_part :: "string \<Rightarrow> bool" where
  "plain_part s \<longleftrightarrow> CHR ''['' \<notin> set s \<and> CHR '']'' \<notin> set s"

lemma in_set_take_drop: "x \<in> set (take n (drop m s)) \<Longrightarrow> x \<in> set s"
  by (meson in_set_dropD in_set_takeD)

text \<open>Whatever is split off holds no bracket, and the port holds no colon.\<close>

lemma split_host_port_parts:
  assumes "split_host_port hp = Inr (host, port)"
  shows "plain_part host \<and> plain_part port \<and> CHR '':'' \<notin> set port"
proof -
  from assms obtain i where i: "last_index_byte CHR '':'' hp = Some i"
    by (auto simp: split_host_port_def split: option.splits)
  then obtain a b where ab: "hp = a @ CHR '':'' # b" "CHR '':'' \<notin> set b" "length a = i"
    by (rule last_index_byte_SomeD)
  have port: "drop (i + 1) hp = b" using ab by simp
  show ?thesis
  proof (cases "take 1 hp = ''[''")
    case False
    with assms i have "host = take i hp" "port = drop (i + 1) hp"
        "CHR ''['' \<notin> set hp" "CHR '']'' \<notin> set hp"
      by (auto simp: split_host_port_def Let_def split: if_splits)
    with ab port show ?thesis
      by (auto simp: plain_part_def)
  next
    case True
    with assms i obtain e where e: "index_byte CHR '']'' hp = Some e" "e + 1 = i"
        "host = take (e - 1) (drop 1 hp)" "port = drop (i + 1) hp"
        "CHR ''['' \<notin> set (drop 1 hp)" "CHR '']'' \<notin> set (drop (e + 1) hp)"
      by (auto simp: split_host_port_def Let_def split: if_splits option.splits)
    then obtain u v where uv: "hp = u @ CHR '']'' # v" "CHR '']'' \<notin> set u" "length u = e"
      by (auto simp: index_byte_Some)
    have host: "host = drop 1 u" using e(3) uv by (cases u) auto
    have "set (drop (e + 1) hp) \<subseteq> set (drop 1 hp)" by (rule set_drop_subset_set_drop) simp
    moreover have "set b \<subseteq> set (drop (e + 1) hp)"
      unfolding port [symmetric] e(2) [symmetric] by (rule set_drop_subset_set_drop) simp
    moreover have "CHR ''['' \<notin> set host" using e(3,5) by (auto dest: in_set_takeD)
    moreover have "CHR '']'' \<notin> set host" using host uv(2) by (auto dest: in_set_dropD)
    moreover have "port = b" using e(4) port by simp
    ultimately show ?thesis using e(5,6) ab(2) by (auto simp: plain_part_def)
  qed
qed

text \<open>Joining such a pair and splitting again gives the pair back.\<close>

lemma split_join_host_port:
  assumes "plain_part host" "plain_part port" "CHR '':'' \<notin> set port"
  shows "split_host_port (join_host_port host port) = Inr (host, port)"
proof (cases "CHR '':'' \<in> set host")
  case False
  have li: "last_index_byte CHR '':'' (host @ CHR '':'' # port) = Some (length host)"
    using assms(3) by (rule last_index_byte_append)
  have "take 1 (host @ CHR '':'' # port) \<noteq> ''[''"
    using assms(1) by (cases host) (auto simp: plain_part_def)
  with False li assms show ?thesis
    by (auto simp: split_host_port_def join_host_port_def plain_part_def Let_def)
next
  case True
  let ?h = "''['' @ host @ '']''"
  let ?s = "?h @ CHR '':'' # port"
  have li: "last_index_byte CHR '':'' ?s = Some (length ?h)"
    using assms(3) by (rule last_index_byte_append)
  have ib: "index_byte CHR '']'' (CHR ''['' # host @ CHR '']'' # CHR '':'' # port) = Some (Suc (length host))"
    using assms(1) index_byte_append [of "CHR '']''" "CHR ''['' # host" "CHR '':'' # port"]
    by (simp add: plain_part_def)
  show ?thesis
    using True li ib assms
    by (auto simp: split_host_port_def join_host_port_def plain_part_def Let_def)
qed

subsection \<open>ParseIP\<close>

type_synonym ip = "nat list"

fun octet_val :: "nat \<Rightarrow> string \<Rightarrow> nat option" where
  "octet_val v [] = Some v"
| "octet_val v (c # cs) =
     (if is_digit c \<and> v * 10 + (char_code c - 48) \<le> 255
      then octet_val (v * 10 + (char_code c - 48)) cs else None)"

text \<open>One decimal field: digits only, at most 255, no leading zero.\<close>

definition octet :: "string \<Rightarrow> nat option" where
  "octet s = (if s = [] \<or> (length s > 1 \<and> hd s = CHR ''0'') then None else octet_val 0 s)"

definition ipv4_fields :: "string \<Rightarrow> ip option" where
  "ipv4_fields s =
     (case split_byte CHR ''.'' s of
        [a, b, c, d] \<Rightarrow>
          (case (octet a, octet b, octet c, octet d) of
             (Some w, Some x, Some y, Some z) \<Rightarrow> Some [w, x, y, z]
           | _ \<Rightarrow> None)
      | _ \<Rightarrow> None)"

definition hex_val :: "char \<Rightarrow> nat option" where
  "hex_val c = (let n = char_code c in
     if 48 \<le> n \<and> n \<le> 57 then Some (n - 48)
     else if 97 \<le> n \<and> n \<le> 102 then Some (n - 87)
     else if 65 \<le> n \<and> n \<le> 70 then Some (n - 55) else None)"

definition is_hex_digit :: "char \<Rightarrow> bool" where
  "is_hex_digit c \<longleftrightarrow> hex_val c \<noteq> None"

fun hex_num :: "nat \<Rightarrow> string \<Rightarrow> nat" where
  "hex_num acc [] = acc"
| "hex_num acc (c # cs) = hex_num (acc * 16 + (case hex_val c of Some d \<Rightarrow> d | None \<Rightarrow> 0)) cs"

text \<open>
  The group loop of \<open>parseIPv6\<close>: the bytes so far, the position of the ellipsis, and what is left
  of the input.  \<open>None\<close> is an error; the third component of the result is the unread rest, which
  the caller refuses unless it is empty.
\<close>

function v6_groups :: "ip \<Rightarrow> nat option \<Rightarrow> string \<Rightarrow> (ip \<times> nat option \<times> string) option" where
  "v6_groups acc ell s =
     (if length acc \<ge> 16 then Some (acc, ell, s)
      else
        let ds = takeWhile is_hex_digit s; rest = dropWhile is_hex_digit s in
        if ds = [] \<or> length ds > 4 then None
        else if take 1 rest = ''.'' then
          (if (ell = None \<and> length acc \<noteq> 12) \<or> length acc + 4 > 16 then None
           else case ipv4_fields s of None \<Rightarrow> None | Some q \<Rightarrow> Some (acc @ q, ell, []))
        else
          let v = hex_num 0 ds; acc' = acc @ [v div 256, v mod 256] in
          (case rest of
             [] \<Rightarrow> Some (acc', ell, [])
           | c # more \<Rightarrow>
               if c \<noteq> CHR '':'' \<or> more = [] then None
               else if hd more = CHR '':'' then
                 (if ell \<noteq> None then None
                  else if tl more = [] then Some (acc', Some (length acc'), [])
                  else v6_groups acc' (Some (length acc')) (tl more))
               else v6_groups acc' ell more))"
  by pat_completeness auto
termination
proof (relation "measure (\<lambda>(acc, ell, s). length s)", goal_cases)
  case 1
  then show ?case by simp
next
  case (2 acc ell s ds rest v acc' c more)
  have "length rest \<le> length s" by (simp add: 2(3) length_dropWhile_le)
  moreover have "rest = c # more" using 2 by simp
  then have "length (tl more) < length rest" by simp
  ultimately show ?case by simp
next
  case (3 acc ell s ds rest v acc' c more)
  have "length rest \<le> length s" by (simp add: 3(3) length_dropWhile_le)
  moreover have "rest = c # more" using 3 by simp
  then have "length more < length rest" by simp
  ultimately show ?case by simp
qed

declare v6_groups.simps [simp del]

definition v6_finish :: "(ip \<times> nat option \<times> string) option \<Rightarrow> ip option" where
  "v6_finish r =
     (case r of None \<Rightarrow> None
      | Some (acc, ell, rest) \<Rightarrow>
          if rest \<noteq> [] then None
          else if length acc < 16 then
            (case ell of None \<Rightarrow> None
             | Some e \<Rightarrow> Some (take e acc @ replicate (16 - length acc) 0 @ drop e acc))
          else if ell \<noteq> None then None else Some acc)"

definition parse_ipv6 :: "string \<Rightarrow> ip option" where
  "parse_ipv6 s =
     (if take 2 s = ''::'' then
        (if drop 2 s = [] then Some (replicate 16 0)
         else v6_finish (v6_groups [] (Some 0) (drop 2 s)))
      else v6_finish (v6_groups [] None s))"

definition v4_mapped :: "ip \<Rightarrow> ip" where
  "v4_mapped q = replicate 10 0 @ [255, 255] @ q"

text \<open>
  \<open>net.ParseIP\<close>: the first of \<open>.\<close>, \<open>:\<close>, \<open>%\<close> in the string picks the family; a zone makes the
  result nil; an IPv4 address comes back in its 16-byte form.
\<close>

definition parse_ip :: "string \<Rightarrow> ip option" where
  "parse_ip s =
     (case find (\<lambda>c. c \<in> {CHR ''.'', CHR '':'', CHR ''%''}) s of
        None \<Rightarrow> None
      | Some c \<Rightarrow>
          if c = CHR ''.'' then map_option v4_mapped (ipv4_fields s)
          else if c = CHR '':'' then (if CHR ''%'' \<in> set s then None else parse_ipv6 s)
          else None)"

subsection \<open>Address classes\<close>

definition to4 :: "ip \<Rightarrow> ip option" where
  "to4 ip = (if length ip = 4 then Some ip
     else if length ip = 16 \<and> take 12 ip = replicate 10 0 @ [255, 255] then Some (drop 12 ip)
     else None)"

definition ip_equal :: "ip \<Rightarrow> ip \<Rightarrow> bool" where
  "ip_equal a b \<longleftrightarrow>
     (if length a = length b then a = b
      else if length a = 4 \<and> length b = 16 then b = v4_mapped a
      else if length a = 16 \<and> length b = 4 then a = v4_mapped b else False)"

definition is_loopback :: "ip \<Rightarrow> bool" where
  "is_loopback ip = (case to4 ip of
     Some q \<Rightarrow> q ! 0 = 127
   | None \<Rightarrow> ip_equal ip (replicate 15 0 @ [1]))"

definition is_private :: "ip \<Rightarrow> bool" where
  "is_private ip = (case to4 ip of
     Some q \<Rightarrow> q ! 0 = 10 \<or> (q ! 0 = 172 \<and> q ! 1 div 16 = 1) \<or> (q ! 0 = 192 \<and> q ! 1 = 168)
   | None \<Rightarrow> length ip = 16 \<and> ip ! 0 div 2 = 126)"

definition is_link_local_unicast :: "ip \<Rightarrow> bool" where
  "is_link_local_unicast ip = (case to4 ip of
     Some q \<Rightarrow> q ! 0 = 169 \<and> q ! 1 = 254
   | None \<Rightarrow> length ip = 16 \<and> ip ! 0 = 254 \<and> ip ! 1 div 64 = 2)"

lemma parse_ip_Nil [simp]: "parse_ip [] = None"
  by (simp add: parse_ip_def)

lemma to4_v4_mapped: "length q = 4 \<Longrightarrow> to4 (v4_mapped q) = Some q"
  by (simp add: to4_def v4_mapped_def)

end
