(* ===== verification/Request.thy ===== *)
theory Request imports GoNet begin

text \<open>
  The incoming request and the header maps of \<open>net/http\<close>, as far as the module reads them.

  A header map is a finite map from canonical keys to value lists; \<open>Get\<close>, \<open>Values\<close>, \<open>Set\<close>, \<open>Add\<close>
  and \<open>Del\<close> canonicalise the key they are given, as the library does.  A request record holds the
  fields the module touches.  The request context is a map from the module's three private key types
  to strings.
\<close>

subsection \<open>Canonical header keys\<close>

definition token_byte :: "char \<Rightarrow> bool" where
  "token_byte c \<longleftrightarrow> is_digit c \<or> is_upper c \<or> is_lower c
     \<or> c \<in> set ''!#$%&*+-.^_|~'' \<or> char_code c = 39 \<or> char_code c = 96"

fun canon :: "bool \<Rightarrow> string \<Rightarrow> string" where
  "canon up [] = []"
| "canon up (c # cs) =
     (if up then upper_char c else lower_char c) # canon (c = CHR ''-'') cs"

definition canonical :: "string \<Rightarrow> string" where
  "canonical s = (if list_all token_byte s then canon True s else s)"

lemma canonical_names [simp]:
  "canonical ''Origin'' = ''Origin''"
  "canonical ''Referer'' = ''Referer''"
  "canonical ''Vary'' = ''Vary''"
  "canonical ''Connection'' = ''Connection''"
  "canonical ''Upgrade'' = ''Upgrade''"
  "canonical ''User-Agent'' = ''User-Agent''"
  "canonical ''Content-Type'' = ''Content-Type''"
  "canonical ''Content-Length'' = ''Content-Length''"
  "canonical ''Content-Encoding'' = ''Content-Encoding''"
  "canonical ''Accept-Encoding'' = ''Accept-Encoding''"
  "canonical ''X-Forwarded-For'' = ''X-Forwarded-For''"
  "canonical ''X-Envoy-External-Address'' = ''X-Envoy-External-Address''"
  "canonical ''X-Request-ID'' = ''X-Request-Id''"
  "canonical ''X-Content-Type-Options'' = ''X-Content-Type-Options''"
  "canonical ''Strict-Transport-Security'' = ''Strict-Transport-Security''"
  "canonical ''Access-Control-Allow-Origin'' = ''Access-Control-Allow-Origin''"
  "canonical ''Access-Control-Allow-Credentials'' = ''Access-Control-Allow-Credentials''"
  "canonical ''Access-Control-Expose-Headers'' = ''Access-Control-Expose-Headers''"
  "canonical ''Access-Control-Allow-Methods'' = ''Access-Control-Allow-Methods''"
  "canonical ''Access-Control-Allow-Headers'' = ''Access-Control-Allow-Headers''"
  "canonical ''Access-Control-Max-Age'' = ''Access-Control-Max-Age''"
  "canonical ''Set-Cookie'' = ''Set-Cookie''"
  "canonical ''Cookie'' = ''Cookie''"
  by (simp_all add: canonical_def token_byte_def is_digit_def is_upper_def is_lower_def upper_char_def
      lower_char_def char_code_def char_of_def bit_0)

subsection \<open>Header maps\<close>

type_synonym header = "string \<rightharpoonup> string list"

definition hvalues :: "header \<Rightarrow> string \<Rightarrow> string list" where
  "hvalues h k = (case h (canonical k) of None \<Rightarrow> [] | Some vs \<Rightarrow> vs)"

definition hget :: "header \<Rightarrow> string \<Rightarrow> string" where
  "hget h k = (case hvalues h k of [] \<Rightarrow> [] | v # _ \<Rightarrow> v)"

definition hset :: "header \<Rightarrow> string \<Rightarrow> string \<Rightarrow> header" where
  "hset h k v = h(canonical k \<mapsto> [v])"

definition hadd :: "header \<Rightarrow> string \<Rightarrow> string \<Rightarrow> header" where
  "hadd h k v = h(canonical k \<mapsto> hvalues h k @ [v])"

definition hdel :: "header \<Rightarrow> string \<Rightarrow> header" where
  "hdel h k = h(canonical k := None)"

lemma hvalues_hset: "hvalues (hset h k v) j = (if canonical j = canonical k then [v] else hvalues h j)"
  by (simp add: hvalues_def hset_def)

lemma hvalues_hadd:
  "hvalues (hadd h k v) j = (if canonical j = canonical k then hvalues h k @ [v] else hvalues h j)"
  by (simp add: hvalues_def hadd_def)

lemma hvalues_hdel: "hvalues (hdel h k) j = (if canonical j = canonical k then [] else hvalues h j)"
  by (simp add: hvalues_def hdel_def)

lemma hget_hset: "hget (hset h k v) j = (if canonical j = canonical k then v else hget h j)"
  by (simp add: hget_def hvalues_hset)

lemma hget_hadd:
  "hget (hadd h k v) j =
     (if canonical j = canonical k then (if hvalues h k = [] then v else hget h k) else hget h j)"
  by (simp add: hget_def hvalues_hadd split: list.split)

lemma hget_hdel: "hget (hdel h k) j = (if canonical j = canonical k then [] else hget h j)"
  by (simp add: hget_def hvalues_hdel)

lemma hset_apply: "hset h k v j = (if j = canonical k then Some [v] else h j)"
  by (simp add: hset_def)

lemma hadd_apply: "hadd h k v j = (if j = canonical k then Some (hvalues h k @ [v]) else h j)"
  by (simp add: hadd_def)

lemma hdel_apply: "hdel h k j = (if j = canonical k then None else h j)"
  by (simp add: hdel_def)

lemmas header_simps = hvalues_hset hvalues_hadd hvalues_hdel hget_hset hget_hadd hget_hdel

lemma hget_empty [simp]: "hget Map.empty k = []"
  by (simp add: hget_def hvalues_def)

lemma hvalues_empty [simp]: "hvalues Map.empty k = []"
  by (simp add: hvalues_def)

subsection \<open>Requests\<close>

datatype ctx_key = RequestIDKey | CSRFTokenKey | OperationNameKey

type_synonym context_map = "ctx_key \<rightharpoonup> string"

record request =
  rq_method :: string
  rq_host :: string
  rq_remote_addr :: string
  rq_header :: header
  rq_content_length :: int
  rq_pattern :: string
  rq_path :: string
  rq_raw_query :: string
  rq_body_nil :: bool
  rq_post_form :: "(string \<times> string list) list option"   \<comment> \<open>\<open>None\<close> is a nil \<open>PostForm\<close>\<close>
  rq_ctx :: context_map

text \<open>A bare request, the starting point of the concrete examples.\<close>

definition blank_request :: request where
  "blank_request =
     \<lparr>rq_method = ''GET'', rq_host = ''example.com'', rq_remote_addr = ''192.0.2.1:1234'',
      rq_header = Map.empty, rq_content_length = 0, rq_pattern = [], rq_path = ''/'',
      rq_raw_query = [], rq_body_nil = False, rq_post_form = None, rq_ctx = Map.empty\<rparr>"

end
