(* ===== verification/ClientIP.thy ===== *)
theory ClientIP imports Request begin

text \<open>
  \<^verbatim>\<open>clientip.go\<close>: the address of the client behind the ingress.  \<open>clientTrustedProxy\<close> decides which
  peers may speak for others, \<open>clientFromForwarded\<close> walks \<open>X-Forwarded-For\<close> from the right, and
  \<open>SetForwardedClientIP\<close> writes the headers an in-cluster caller forwards.  The lemmas show that an
  untrusted peer cannot choose the answer, that nothing left of the last untrusted hop matters, that
  every answer taken from a header parses, and that a forwarded address is read back unchanged.
\<close>

subsection \<open>The code\<close>

definition client_host :: "string \<Rightarrow> string" where
  "client_host addr0 =
     (let addr = trim_space addr0 in
      if addr = [] then []
      else case split_host_port addr of Inr (h, _) \<Rightarrow> h | Inl _ \<Rightarrow> addr)"

definition client_trusted_proxy :: "string \<Rightarrow> bool" where
  "client_trusted_proxy addr =
     (case parse_ip addr of
        None \<Rightarrow> False
      | Some ip0 \<Rightarrow>
          let ip = (case to4 ip0 of Some v4 \<Rightarrow> v4 | None \<Rightarrow> ip0)
          in is_loopback ip \<or> is_private ip \<or> is_link_local_unicast ip)"

definition client_envoy_external :: "request \<Rightarrow> string" where
  "client_envoy_external r =
     (let ip = client_host (hget (rq_header r) ''X-Envoy-External-Address'')
      in if parse_ip ip = None then [] else ip)"

text \<open>The hops of one header value, then of all values: the inner and the outer loop.\<close>

fun collect_parts :: "string list \<Rightarrow> string list \<Rightarrow> string list" where
  "collect_parts hops [] = hops"
| "collect_parts hops (part # parts) =
     (let ip = client_host part
      in if parse_ip ip = None then collect_parts hops parts
         else collect_parts (hops @ [ip]) parts)"

fun collect_hops :: "string list \<Rightarrow> string list \<Rightarrow> string list" where
  "collect_hops hops [] = hops"
| "collect_hops hops (v # vs) = collect_hops (collect_parts hops (split_byte CHR '','' v)) vs"

text \<open>\<open>for i := len(hops) - 1; i >= 0; i--\<close>, called with \<open>i + 1\<close>.\<close>

fun walk_right :: "string list \<Rightarrow> nat \<Rightarrow> string option" where
  "walk_right hops 0 = None"
| "walk_right hops (Suc i) =
     (if \<not> client_trusted_proxy (hops ! i) then Some (hops ! i) else walk_right hops i)"

definition client_from_forwarded :: "string list \<Rightarrow> string" where
  "client_from_forwarded values =
     (let hops = collect_hops [] values
      in if hops = [] then []
         else case walk_right hops (length hops) of Some h \<Rightarrow> h | None \<Rightarrow> hops ! 0)"

definition trusted_ingress_client_ip :: "request option \<Rightarrow> string" where
  "trusted_ingress_client_ip ro =
     (case ro of
        None \<Rightarrow> []
      | Some r \<Rightarrow>
          let remote = client_host (rq_remote_addr r)
          in if client_trusted_proxy remote then
               (let ip = client_envoy_external r
                in if ip \<noteq> [] then ip
                   else let ip = client_from_forwarded (hvalues (rq_header r) ''X-Forwarded-For'')
                        in if ip \<noteq> [] then ip else remote)
             else remote)"

definition forwarded_client_ip :: "request option \<Rightarrow> string" where
  "forwarded_client_ip ro =
     (case ro of
        None \<Rightarrow> []
      | Some r \<Rightarrow>
          let ip = trusted_ingress_client_ip (Some r)
          in if ip = [] \<or> ip = client_host (rq_remote_addr r) then [] else ip)"

definition set_forwarded_client_ip :: "request option \<Rightarrow> string \<Rightarrow> request option" where
  "set_forwarded_client_ip ro ip0 =
     (case ro of
        None \<Rightarrow> None
      | Some r \<Rightarrow>
          let ip = client_host ip0
          in if parse_ip ip = None then Some r
             else Some (r\<lparr>rq_header :=
                    hset (hset (rq_header r) ''X-Envoy-External-Address'' ip) ''X-Forwarded-For'' ip\<rparr>))"

subsection \<open>The walk, as a search from the right\<close>

definition parts_hops :: "string list \<Rightarrow> string list" where
  "parts_hops ps = filter (\<lambda>ip. parse_ip ip \<noteq> None) (map client_host ps)"

definition value_hops :: "string list \<Rightarrow> string list" where
  "value_hops vs = concat (map (\<lambda>v. parts_hops (split_byte CHR '','' v)) vs)"

lemma collect_parts_eq: "collect_parts hops ps = hops @ parts_hops ps"
  by (induction hops ps rule: collect_parts.induct) (auto simp: parts_hops_def Let_def)

lemma collect_hops_eq: "collect_hops hops vs = hops @ value_hops vs"
  by (induction hops vs rule: collect_hops.induct) (auto simp: collect_parts_eq value_hops_def)

lemma walk_right_eq:
  "n \<le> length hops \<Longrightarrow> walk_right hops n = find (\<lambda>h. \<not> client_trusted_proxy h) (rev (take n hops))"
  by (induction hops n rule: walk_right.induct) (auto simp: take_Suc_conv_app_nth)

lemma client_from_forwarded_eq:
  "client_from_forwarded vs =
     (case value_hops vs of
        [] \<Rightarrow> []
      | h # hs \<Rightarrow> case find (\<lambda>h. \<not> client_trusted_proxy h) (rev (value_hops vs)) of
                   Some x \<Rightarrow> x | None \<Rightarrow> h)"
  by (auto simp: client_from_forwarded_def collect_hops_eq walk_right_eq Let_def
      split: list.split option.split)

lemma value_hops_parse: "h \<in> set (value_hops vs) \<Longrightarrow> parse_ip h \<noteq> None"
  by (auto simp: value_hops_def parts_hops_def)

lemma client_from_forwarded_parses:
  "client_from_forwarded vs \<noteq> [] \<Longrightarrow> parse_ip (client_from_forwarded vs) \<noteq> None"
proof -
  assume ne: "client_from_forwarded vs \<noteq> []"
  then have "client_from_forwarded vs \<in> set (value_hops vs)"
    by (auto simp: client_from_forwarded_eq split: list.splits option.splits dest: find_SomeD)
  then show ?thesis by (rule value_hops_parse)
qed

lemma value_hops_append: "value_hops (a @ b) = value_hops a @ value_hops b"
  by (simp add: value_hops_def)

lemma split_byte_split: "split_byte c (a @ c # b) = split_byte c a @ split_byte c b"
  by (induction a) (auto split: list.split)

lemma value_hops_comma: "value_hops [a @ CHR '','' # b] = value_hops [a] @ value_hops [b]"
  by (simp add: value_hops_def parts_hops_def split_byte_split)

lemma find_rev_append:
  "\<exists>x \<in> set b. P x \<Longrightarrow> find P (rev (a @ b)) = find P (rev b)"
proof -
  assume "\<exists>x \<in> set b. P x"
  then have "find P (rev b) \<noteq> None" by (auto simp: find_None_iff)
  moreover have "find P (xs @ ys) = (case find P xs of None \<Rightarrow> find P ys | Some x \<Rightarrow> Some x)" for xs ys
    by (induction xs) auto
  ultimately show ?thesis by auto
qed

lemma client_from_forwarded_suffix:
  assumes "value_hops vs = pre @ value_hops seen" "\<exists>h \<in> set (value_hops seen). \<not> client_trusted_proxy h"
  shows "client_from_forwarded vs = client_from_forwarded seen"
proof -
  let ?f = "find (\<lambda>h. \<not> client_trusted_proxy h)"
  have f: "?f (rev (value_hops vs)) = ?f (rev (value_hops seen))"
    unfolding assms(1) by (rule find_rev_append) (use assms(2) in auto)
  have "?f (rev (value_hops seen)) \<noteq> None" using assms(2) by (auto simp: find_None_iff)
  then obtain x where x: "?f (rev (value_hops seen)) = Some x" by auto
  have "value_hops vs \<noteq> []" "value_hops seen \<noteq> []" using assms by auto
  then show ?thesis using f x by (auto simp: client_from_forwarded_eq split: list.split)
qed

lemma client_from_forwarded_untrusted:
  assumes "\<exists>h \<in> set (value_hops vs). \<not> client_trusted_proxy h"
  shows "\<not> client_trusted_proxy (client_from_forwarded vs)"
proof -
  let ?f = "find (\<lambda>h. \<not> client_trusted_proxy h) (rev (value_hops vs))"
  have "?f \<noteq> None" using assms by (auto simp: find_None_iff)
  then obtain x where x: "?f = Some x" by auto
  then have "\<not> client_trusted_proxy x" by (auto dest: find_SomeD)
  moreover have "value_hops vs \<noteq> []" using assms by auto
  ultimately show ?thesis using x by (auto simp: client_from_forwarded_eq split: list.split)
qed

lemma client_from_forwarded_nonempty:
  assumes "\<exists>h \<in> set (value_hops vs). \<not> client_trusted_proxy h"
  shows "client_from_forwarded vs \<noteq> []"
proof -
  have ne: "value_hops vs \<noteq> []" using assms by auto
  then have "client_from_forwarded vs \<in> set (value_hops vs)"
    by (auto simp: client_from_forwarded_eq split: list.splits option.splits dest: find_SomeD)
  then show ?thesis using value_hops_parse by fastforce
qed

subsection \<open>A parseable address has no port to split off\<close>

lemma octet_val_digits: "octet_val v s = Some n \<Longrightarrow> list_all is_digit s"
  by (induction v s rule: octet_val.induct) (auto split: if_splits)

lemma octet_digits: "octet s = Some n \<Longrightarrow> list_all is_digit s"
  by (auto simp: octet_def split: if_splits dest: octet_val_digits)

lemma ipv4_fields_chars:
  assumes "ipv4_fields s = Some q"
  shows "list_all (\<lambda>c. is_digit c \<or> c = CHR ''.'') s \<and> length q = 4"
proof -
  from assms obtain a b c d w x y z where p: "split_byte CHR ''.'' s = [a, b, c, d]"
      "octet a = Some w" "octet b = Some x" "octet c = Some y" "octet d = Some z" "q = [w, x, y, z]"
    by (auto simp: ipv4_fields_def split: list.splits option.splits)
  have "s = join ''.'' [a, b, c, d]" using join_split_byte [of "CHR ''.''" s] p(1) by simp
  with p(2-6) show ?thesis by (auto simp: list_all_iff dest!: octet_digits)
qed

definition addr_char :: "char \<Rightarrow> bool" where
  "addr_char c \<longleftrightarrow> is_hex_digit c \<or> c = CHR ''.'' \<or> c = CHR '':''"

lemma addr_char_sep [simp]: "addr_char CHR '':''" "addr_char CHR ''.''"
  by (simp_all add: addr_char_def)

lemma is_digit_hex: "is_digit c \<Longrightarrow> is_hex_digit c"
  by (simp add: is_digit_def is_hex_digit_def hex_val_def Let_def)

definition hex_group :: "string \<Rightarrow> bool" where
  "hex_group ds \<longleftrightarrow> ds \<noteq> [] \<and> list_all is_hex_digit ds"

abbreviation with_group :: "ip \<Rightarrow> string \<Rightarrow> ip" where
  "with_group acc ds \<equiv> acc @ [hex_num 0 ds div 256, hex_num 0 ds mod 256]"

text \<open>The successful runs of the group loop, as an induction rule over the shape of the input.\<close>

lemma v6_groups_induct [consumes 1, case_names full embedded last ellipsis_end ellipsis colon]:
  assumes "v6_groups acc ell s = Some (acc', ell', [])"
    and "\<And>acc ell. 16 \<le> length acc \<Longrightarrow> P acc ell [] acc ell"
    and "\<And>acc ell s q. \<lbrakk>ipv4_fields s = Some q; ell = None \<Longrightarrow> length acc = 12\<rbrakk> \<Longrightarrow> P acc ell s (acc @ q) ell"
    and "\<And>acc ell ds. \<lbrakk>hex_group ds; length acc < 16\<rbrakk> \<Longrightarrow> P acc ell ds (with_group acc ds) ell"
    and "\<And>acc ds. hex_group ds \<Longrightarrow>
           P acc None (ds @ ''::'') (with_group acc ds) (Some (length (with_group acc ds)))"
    and "\<And>acc ds t acc' ell'. \<lbrakk>hex_group ds; P (with_group acc ds) (Some (length (with_group acc ds))) t acc' ell'\<rbrakk>
           \<Longrightarrow> P acc None (ds @ ''::'' @ t) acc' ell'"
    and "\<And>acc ell ds t acc' ell'. \<lbrakk>hex_group ds; length acc < 16; P (with_group acc ds) ell t acc' ell'\<rbrakk>
           \<Longrightarrow> P acc ell (ds @ '':'' @ t) acc' ell'"
  shows "P acc ell s acc' ell'"
  using assms(1)
proof (induction acc ell s rule: v6_groups.induct)
  case (1 acc ell s)
  let ?ds = "takeWhile is_hex_digit s" and ?rest = "dropWhile is_hex_digit s"
  have s: "s = ?ds @ ?rest" by simp
  show ?case
  proof (cases "length acc \<ge> 16")
    case True
    with 1(3) assms(2) show ?thesis by (subst (asm) v6_groups.simps) simp
  next
    case False
    with 1(3) have ok: "?ds \<noteq> []" "length ?ds \<le> 4"
      by (subst (asm) v6_groups.simps; auto simp: Let_def split: if_splits)+
    have hg: "hex_group ?ds"
      using ok by (auto simp: hex_group_def list_all_iff dest: set_takeWhileD)
    show ?thesis
    proof (cases "take 1 ?rest = ''.''")
      case True
      with False ok 1(3) obtain q where "ipv4_fields s = Some q" "acc' = acc @ q" "ell' = ell"
          "ell = None \<Longrightarrow> length acc = 12"
        by (subst (asm) v6_groups.simps) (auto simp: Let_def split: if_splits option.splits)
      then show ?thesis using assms(3) by blast
    next
      case dot: False
      show ?thesis
      proof (cases ?rest)
        case Nil
        with s have "?ds = s" by simp
        with False ok dot Nil 1(3) have "acc' = with_group acc s" "ell' = ell"
          by (subst (asm) v6_groups.simps; auto simp: Let_def)+
        with assms(4) hg False \<open>?ds = s\<close> show ?thesis by simp
      next
        case (Cons c more)
        note step = 1(3) [unfolded v6_groups.simps [of acc ell s] Let_def Cons list.case]
        have more: "c = CHR '':''" "more \<noteq> []"
          using step False ok dot Cons by (auto split: if_splits)
        show ?thesis
        proof (cases "hd more = CHR '':''")
          case colon: True
          with more have sm: "s = ?ds @ ''::'' @ tl more"
            using s Cons by (cases more) auto
          have el: "ell = None" using step False ok dot Cons more colon by (auto split: if_splits)
          show ?thesis
          proof (cases "tl more = []")
            case True
            have "acc' = with_group acc ?ds" "ell' = Some (length (with_group acc ?ds))"
              using step False ok dot Cons more colon True el by (auto split: if_splits)
            with assms(5) [OF hg] el True sm show ?thesis by (metis append_Nil2)
          next
            case tl: False
            have "v6_groups (with_group acc ?ds) (Some (length (with_group acc ?ds))) (tl more) = Some (acc', ell', [])"
              using step False ok dot Cons more colon tl el by (auto split: if_splits)
            with 1(1) [OF False refl refl _ _ refl refl Cons] ok dot more colon tl el
            have "P (with_group acc ?ds) (Some (length (with_group acc ?ds))) (tl more) acc' ell'" by auto
            with assms(6) [OF hg] el sm show ?thesis by metis
          qed
        next
          case colon: False
          have "v6_groups (with_group acc ?ds) ell more = Some (acc', ell', [])"
            using step False ok dot Cons more colon by (auto split: if_splits)
          with 1(2) [OF False refl refl _ _ refl refl Cons] ok dot more colon
          have "P (with_group acc ?ds) ell more acc' ell'" by auto
          moreover have "s = ?ds @ '':'' @ more" using s Cons more by simp
          ultimately show ?thesis using assms(7) [OF hg] False by (metis not_le)
        qed
      qed
    qed
  qed
qed

lemma hex_group_addr: "hex_group ds \<Longrightarrow> list_all addr_char ds \<and> CHR '':'' \<notin> set ds"
  by (fastforce simp: hex_group_def list_all_iff addr_char_def is_hex_digit_def hex_val_def Let_def
      char_code_def split: if_splits)

lemma ipv4_addr: "ipv4_fields s = Some q \<Longrightarrow> list_all addr_char s \<and> CHR '':'' \<notin> set s \<and> length q = 4"
  using ipv4_fields_chars [of s q]
  by (auto simp: list_all_iff addr_char_def is_digit_hex) (force simp: is_digit_def char_code_def)

lemma v6_groups_chars:
  "v6_groups acc ell s = Some (acc', ell', []) \<Longrightarrow> list_all addr_char s"
proof (induction rule: v6_groups_induct)
  case (ellipsis acc ds t acc' ell')
  then show ?case using hex_group_addr [of ds] by simp
next
  case (ellipsis_end acc ds)
  then show ?case using hex_group_addr [of ds] by simp
next
  case (colon acc ell ds t acc' ell')
  then show ?case using hex_group_addr [of ds] by simp
qed (simp_all add: hex_group_addr ipv4_addr)

text \<open>An address with no ellipsis has a colon per two bytes, and an ellipsis is two colons.\<close>

lemma v6_groups_colons:
  "v6_groups acc ell s = Some (acc', ell', []) \<Longrightarrow>
   (ell \<noteq> None \<longrightarrow> ell' \<noteq> None) \<and>
   (ell = None \<longrightarrow> (if ell' = None then length acc' \<le> length acc + 2 * count_list s CHR '':'' + 4
    else 2 \<le> count_list s CHR '':''))"
proof (induction rule: v6_groups_induct)
  case (embedded acc ell s q)
  then show ?case by (simp add: ipv4_addr)
next
  case (colon acc ell ds t acc' ell')
  then show ?case by (cases ell'; cases ell) simp_all
qed auto

lemma parse_ip_colons:
  assumes "parse_ip s = Some ip"
  shows "list_all addr_char s \<and> count_list s CHR '':'' \<noteq> 1"
proof -
  consider q where "ipv4_fields s = Some q" | "parse_ipv6 s = Some ip"
    using assms by (auto simp: parse_ip_def split: option.splits if_splits)
  then show ?thesis
  proof cases
    case 1
    then show ?thesis using ipv4_addr [OF 1] by simp
  next
    case 2
    show ?thesis
    proof (cases "take 2 s = ''::''")
      case True
      then obtain t where t: "s = ''::'' @ t" by (metis append_take_drop_id)
      from 2 True t have "t = [] \<or> (\<exists>a e. v6_groups [] (Some 0) t = Some (a, e, []))"
        by (auto simp: parse_ipv6_def v6_finish_def split: if_splits option.splits)
      then have "list_all addr_char t" by (auto dest: v6_groups_chars)
      with t show ?thesis by simp
    next
      case False
      with 2 obtain a e where v: "v6_groups [] None s = Some (a, e, [])"
          "length a < 16 \<Longrightarrow> e \<noteq> None"
        by (auto simp: parse_ipv6_def v6_finish_def split: if_splits option.splits)
      from v(2) have "e = None \<Longrightarrow> 16 \<le> length a" by (metis not_le)
      with v6_groups_colons [OF v(1)] have "2 \<le> count_list s CHR '':''"
        by (cases e) simp_all
      with v6_groups_chars [OF v(1)] show ?thesis by simp
    qed
  qed
qed

lemma addr_char_no_space: "list_all addr_char s \<Longrightarrow> no_space s"
  by (fastforce simp: no_space_def list_all_iff addr_char_def is_hex_digit_def hex_val_def
      ascii_space_def char_code_def Let_def split: if_splits)

lemma client_host_parsed:
  assumes "parse_ip s = Some ip"
  shows "client_host s = s"
proof -
  have sp: "trim_space s = s"
    using parse_ip_colons [OF assms] by (simp add: addr_char_no_space trim_space_no_space)
  have br: "take 1 s \<noteq> ''[''"
    using parse_ip_colons [OF assms]
    by (cases s) (auto simp: addr_char_def is_hex_digit_def hex_val_def Let_def char_code_def split: if_splits)
  have "split_host_port s = Inl MissingPort \<or> split_host_port s = Inl TooManyColons"
  proof (cases "CHR '':'' \<in> set s")
    case False
    then have "last_index_byte CHR '':'' s = None" by simp
    then show ?thesis by (simp add: split_host_port_def del: last_index_byte_None)
  next
    case True
    then obtain i where i: "last_index_byte CHR '':'' s = Some i" by fastforce
    then obtain a b where ab: "s = a @ CHR '':'' # b" "CHR '':'' \<notin> set b" "length a = i"
      by (rule last_index_byte_SomeD)
    have "count_list s CHR '':'' = Suc (count_list a CHR '':'')" using ab by simp
    then have "count_list a CHR '':'' \<noteq> 0" using parse_ip_colons [OF assms] by simp
    then have "CHR '':'' \<in> set (take i s)" using ab by (metis append_eq_conv_conj count_notin)
    with i br show ?thesis by (simp add: split_host_port_def Let_def)
  qed
  then show ?thesis by (auto simp: client_host_def sp Let_def)
qed

subsection \<open>Properties\<close>

text \<open>
  C1.  A peer that is not a trusted proxy cannot influence the client address: whatever headers it
  sends, \<^const>\<open>trusted_ingress_client_ip\<close> is the host part of the address it connected from, and
  nothing is forwarded on its behalf.
\<close>

theorem untrusted_peer_ignored:
  assumes "\<not> client_trusted_proxy (client_host (rq_remote_addr r))"
  shows "trusted_ingress_client_ip (Some (r\<lparr>rq_header := h\<rparr>)) = client_host (rq_remote_addr r)
    \<and> forwarded_client_ip (Some (r\<lparr>rq_header := h\<rparr>)) = []"
  using assms by (simp add: trusted_ingress_client_ip_def forwarded_client_ip_def Let_def)

theorem untrusted_peer_ignored_witness:
  "trusted_ingress_client_ip (Some (blank_request\<lparr>rq_remote_addr := ''8.8.8.8:99'',
       rq_header := hset Map.empty ''X-Forwarded-For'' ''10.0.0.1''\<rparr>)) = ''8.8.8.8''"
proof -
  let ?r = "blank_request\<lparr>rq_remote_addr := ''8.8.8.8:99''\<rparr>"
  have h: "client_host ''8.8.8.8:99'' = ''8.8.8.8''" and u: "\<not> client_trusted_proxy ''8.8.8.8''"
    by code_simp+
  then have "\<not> client_trusted_proxy (client_host (rq_remote_addr ?r))" by simp
  from untrusted_peer_ignored [OF this] h show ?thesis by simp
qed

text \<open>
  C2.  Behind a trusted peer, what a caller puts on the left of \<open>X-Forwarded-For\<close> does not matter: when
  some hop right of the caller's part is not a trusted proxy, the answer is computed from the hops
  right of it alone, and it is not a trusted proxy address.  The caller's part is any earlier header
  lines \<open>pre\<close> and any text \<open>evil\<close> before a comma of the line the proxies appended to.
\<close>

theorem forged_hops_ignored:
  assumes "client_trusted_proxy (client_host (rq_remote_addr r))"
    and "client_envoy_external r = []"
    and "hvalues (rq_header r) ''X-Forwarded-For'' = pre @ (evil @ CHR '','' # seen) # post"
    and "\<exists>h \<in> set (value_hops (seen # post)). \<not> client_trusted_proxy h"
  shows "trusted_ingress_client_ip (Some r) = client_from_forwarded (seen # post)
    \<and> \<not> client_trusted_proxy (trusted_ingress_client_ip (Some r))"
proof -
  have "value_hops (pre @ (evil @ CHR '','' # seen) # post)
      = (value_hops pre @ value_hops [evil]) @ value_hops (seen # post)"
    using value_hops_append [of pre "(evil @ CHR '','' # seen) # post"]
      value_hops_append [of "[evil @ CHR '','' # seen]" post] value_hops_append [of "[seen]" post]
    by (simp only: value_hops_comma append_Cons append_Nil append_assoc)
  then have eq: "client_from_forwarded (hvalues (rq_header r) ''X-Forwarded-For'') = client_from_forwarded (seen # post)"
    unfolding assms(3) using assms(4) by (rule client_from_forwarded_suffix)
  have un: "\<not> client_trusted_proxy (client_from_forwarded (seen # post))"
    using assms(4) by (rule client_from_forwarded_untrusted)
  have "client_from_forwarded (seen # post) \<noteq> []"
    using assms(4) by (rule client_from_forwarded_nonempty)
  then show ?thesis using assms(1,2) eq un by (simp add: trusted_ingress_client_ip_def Let_def)
qed

theorem forged_hops_ignored_witness:
  "trusted_ingress_client_ip (Some (blank_request\<lparr>rq_remote_addr := ''10.1.1.1:99'',
       rq_header := [''X-Forwarded-For'' \<mapsto> [''6.6.6.6, 8.8.8.8 ,10.0.0.7'']]\<rparr>)) = ''8.8.8.8''"
proof -
  let ?h = "[''X-Forwarded-For'' \<mapsto> [''6.6.6.6, 8.8.8.8 ,10.0.0.7'']]"
  let ?r = "blank_request\<lparr>rq_remote_addr := ''10.1.1.1:99'', rq_header := ?h\<rparr>"
  have 1: "client_trusted_proxy (client_host (rq_remote_addr ?r))" by code_simp
  have 2: "client_envoy_external ?r = []" by code_simp
  have 3: "hvalues (rq_header ?r) ''X-Forwarded-For'' = [] @ (''6.6.6.6'' @ CHR '','' # '' 8.8.8.8 ,10.0.0.7'') # []"
    by (simp add: hvalues_def)
  have hops: "value_hops ['' 8.8.8.8 ,10.0.0.7''] = [''8.8.8.8'', ''10.0.0.7'']" by code_simp
  have "\<not> client_trusted_proxy ''8.8.8.8''" by code_simp
  then have 4: "\<exists>h \<in> set (value_hops ['' 8.8.8.8 ,10.0.0.7'']). \<not> client_trusted_proxy h"
    by (simp add: hops)
  have "client_from_forwarded ['' 8.8.8.8 ,10.0.0.7''] = ''8.8.8.8''" by code_simp
  with forged_hops_ignored [OF 1 2 3 4] show ?thesis by simp
qed

text \<open>
  C3.  An address written with \<^const>\<open>set_forwarded_client_ip\<close> is the address the next service reads:
  whatever the two headers held before, if the address parses and the receiving process sees a trusted
  peer, \<^const>\<open>trusted_ingress_client_ip\<close> returns exactly the address without its port.
\<close>

theorem set_forwarded_roundtrip:
  assumes "parse_ip (client_host ip) \<noteq> None"
    and "set_forwarded_client_ip (Some r) ip = Some r'"
    and "client_trusted_proxy (client_host (rq_remote_addr r'))"
  shows "trusted_ingress_client_ip (Some r') = client_host ip"
proof -
  let ?ip = "client_host ip"
  have ne: "?ip \<noteq> []" using assms(1) by auto
  have idem: "client_host ?ip = ?ip" using assms(1) client_host_parsed by blast
  have "hget (rq_header r') ''X-Envoy-External-Address'' = ?ip"
    using assms(1,2) by (auto simp: set_forwarded_client_ip_def Let_def header_simps)
  then have "client_envoy_external r' = ?ip"
    using assms(1) by (auto simp: client_envoy_external_def idem Let_def)
  then show ?thesis using assms(3) ne by (simp add: trusted_ingress_client_ip_def Let_def)
qed

theorem set_forwarded_roundtrip_witness:
  "trusted_ingress_client_ip (set_forwarded_client_ip
      (Some (blank_request\<lparr>rq_remote_addr := ''127.0.0.1:1''\<rparr>)) ''203.0.113.9:443'') = ''203.0.113.9''"
proof -
  let ?r = "blank_request\<lparr>rq_remote_addr := ''127.0.0.1:1''\<rparr>"
  have "set_forwarded_client_ip (Some ?r) ''203.0.113.9:443'' \<noteq> None"
    by (simp add: set_forwarded_client_ip_def Let_def)
  then obtain r' where r': "set_forwarded_client_ip (Some ?r) ''203.0.113.9:443'' = Some r'"
    by blast
  have h: "client_host ''203.0.113.9:443'' = ''203.0.113.9''" by code_simp
  have "parse_ip ''203.0.113.9'' \<noteq> None" by code_simp
  then have 1: "parse_ip (client_host ''203.0.113.9:443'') \<noteq> None" by (simp add: h)
  from r' have "rq_remote_addr r' = rq_remote_addr ?r"
    by (auto simp: set_forwarded_client_ip_def Let_def split: if_splits)
  moreover have "client_trusted_proxy (client_host ''127.0.0.1:1'')" by code_simp
  ultimately have "client_trusted_proxy (client_host (rq_remote_addr r'))" by simp
  from set_forwarded_roundtrip [OF 1 r' this] r' h show ?thesis by simp
qed

text \<open>
  What an in-cluster caller copies onto its own request is empty or a parseable address other than
  its peer: no forged header text passes through.
\<close>

theorem forwarded_ip_parses:
  "forwarded_client_ip ro = [] \<or>
   (parse_ip (forwarded_client_ip ro) \<noteq> None \<and>
    (\<exists>r. ro = Some r \<and> forwarded_client_ip ro \<noteq> client_host (rq_remote_addr r)))"
proof (cases ro)
  case None
  then show ?thesis by (simp add: forwarded_client_ip_def)
next
  case (Some r)
  let ?vs = "hvalues (rq_header r) ''X-Forwarded-For''"
  have "trusted_ingress_client_ip (Some r) \<noteq> client_host (rq_remote_addr r) \<Longrightarrow>
      trusted_ingress_client_ip (Some r) \<noteq> [] \<Longrightarrow> parse_ip (trusted_ingress_client_ip (Some r)) \<noteq> None"
    using client_from_forwarded_parses [of ?vs]
    by (auto simp: trusted_ingress_client_ip_def client_envoy_external_def Let_def split: if_splits)
  then show ?thesis using Some by (auto simp: forwarded_client_ip_def Let_def)
qed

end
