(* ===== verification/Bind.thy ===== *)
theory Bind imports GoNet begin

text \<open>
  \<^verbatim>\<open>bind.go\<close>: the list of listen addresses, how it is parsed into a canonical form, how the listeners
  are opened, and which address is reported.  The operating system's sockets are the state \<open>netst\<close>:
  the open listeners, and an oracle that says for the n-th \<open>Listen\<close> call whether the address can be
  bound and which address the kernel then reports.
\<close>

subsection \<open>Parsing\<close>

datatype bind_error =
    EmptyArray
  | EmptyEntry
  | BadHostPort string addr_error
  | PortRequired string
  | DuplicateBind string

type_synonym bind = "string list"

text \<open>The loop of \<open>parseBindList\<close>: \<open>seen\<close> is the set of canonical addresses, \<open>out\<close> the result so far.\<close>

fun parse_bind_loop :: "string list \<Rightarrow> bind \<Rightarrow> string list \<Rightarrow> bind_error + bind" where
  "parse_bind_loop seen out [] = Inr out"
| "parse_bind_loop seen out (raw # rest) =
     (let s = trim_space raw in
      if s = [] then Inl EmptyEntry
      else case split_host_port s of
          Inl e \<Rightarrow> Inl (BadHostPort s e)
        | Inr (host, port) \<Rightarrow>
            if port = [] then Inl (PortRequired s)
            else let cn = join_host_port host port in
              if cn \<in> set seen then Inl (DuplicateBind cn)
              else parse_bind_loop (cn # seen) (out @ [cn]) rest)"

definition parse_bind_list :: "string list \<Rightarrow> bind_error + bind" where
  "parse_bind_list ss = (if ss = [] then Inl EmptyArray else parse_bind_loop [] [] ss)"

text \<open>\<open>(*Bind).set\<close>: the receiver is replaced only when the list parses.\<close>

definition bind_set :: "bind \<Rightarrow> string list \<Rightarrow> bind_error option \<times> bind" where
  "bind_set b ss = (case parse_bind_list ss of Inl e \<Rightarrow> (Some e, b) | Inr out \<Rightarrow> (None, out))"

fun binds_equal_from :: "nat \<Rightarrow> bind \<Rightarrow> bind \<Rightarrow> bool" where
  "binds_equal_from i [] b = True"
| "binds_equal_from i (x # xs) b = (if x \<noteq> b ! i then False else binds_equal_from (Suc i) xs b)"

definition binds_equal :: "bind \<Rightarrow> bind \<Rightarrow> bool" where
  "binds_equal a b = (if length a \<noteq> length b then False else binds_equal_from 0 a b)"

subsection \<open>Listening\<close>

record listener =
  ln_id :: nat
  ln_addr :: string

record netst =
  nt_open :: "listener list"
  nt_calls :: nat
  nt_oracle :: "nat \<Rightarrow> string \<Rightarrow> string + string"

definition net_listen :: "string \<Rightarrow> netst \<Rightarrow> (string + listener) \<times> netst" where
  "net_listen a st =
     (let n = nt_calls st; st' = st\<lparr>nt_calls := Suc n\<rparr> in
      case nt_oracle st n a of
        Inl e \<Rightarrow> (Inl e, st')
      | Inr bound \<Rightarrow>
          let ln = \<lparr>ln_id = n, ln_addr = bound\<rparr>
          in (Inr ln, st'\<lparr>nt_open := nt_open st' @ [ln]\<rparr>))"

definition net_close :: "listener \<Rightarrow> netst \<Rightarrow> netst" where
  "net_close ln st = st\<lparr>nt_open := filter (\<lambda>x. ln_id x \<noteq> ln_id ln) (nt_open st)\<rparr>"

fun close_all :: "listener list \<Rightarrow> netst \<Rightarrow> netst" where
  "close_all [] st = st"
| "close_all (x # xs) st = close_all xs (net_close x st)"

fun listen_loop :: "listener list \<Rightarrow> string list \<Rightarrow> netst \<Rightarrow> ((string \<times> string) + listener list) \<times> netst" where
  "listen_loop lns [] st = (Inr lns, st)"
| "listen_loop lns (a # as) st =
     (case net_listen a st of
        (Inl e, st') \<Rightarrow> (Inl (a, e), close_all lns st')
      | (Inr ln, st') \<Rightarrow> listen_loop (lns @ [ln]) as st')"

definition listen_all :: "string list \<Rightarrow> netst \<Rightarrow> ((string \<times> string) + listener list) \<times> netst" where
  "listen_all addrs st = listen_loop [] addrs st"

fun pick_bound_loop :: "string \<Rightarrow> listener list \<Rightarrow> string" where
  "pick_bound_loop fst_addr [] = fst_addr"
| "pick_bound_loop fst_addr (ln # lns) =
     (let s = ln_addr ln; first = (if fst_addr = [] then s else fst_addr) in
      case split_host_port s of
        Inl _ \<Rightarrow> pick_bound_loop first lns
      | Inr (host, _) \<Rightarrow>
          (case parse_ip host of
             None \<Rightarrow> pick_bound_loop first lns
           | Some ip \<Rightarrow> if is_loopback ip then s else pick_bound_loop first lns))"

definition pick_bound_addr :: "listener list \<Rightarrow> string" where
  "pick_bound_addr lns = pick_bound_loop [] lns"

subsection \<open>Lemmas\<close>

lemma binds_equal_from_eq: "length xs + i = length b \<Longrightarrow> binds_equal_from i xs b \<longleftrightarrow> xs = drop i b"
proof (induction i xs b rule: binds_equal_from.induct)
  case (1 i b)
  then show ?case by simp
next
  case (2 i x xs b)
  then have "drop i b = b ! i # drop (Suc i) b" by (intro Cons_nth_drop_Suc [symmetric]) simp
  with 2 show ?case by simp
qed

lemma binds_equal_iff [simp]: "binds_equal a b \<longleftrightarrow> a = b"
  by (auto simp: binds_equal_def binds_equal_from_eq)

text \<open>An address in canonical form: it splits, its port is not empty, and joining gives it back.\<close>

definition canonical_bind :: "string \<Rightarrow> bool" where
  "canonical_bind a \<longleftrightarrow>
     (case split_host_port a of Inr (h, p) \<Rightarrow> p \<noteq> [] \<and> join_host_port h p = a | Inl _ \<Rightarrow> False)"

lemma join_canonical:
  assumes "split_host_port s = Inr (h, p)" "p \<noteq> []"
  shows "canonical_bind (join_host_port h p)"
  using split_join_host_port [of h p] split_host_port_parts [OF assms(1)] assms(2)
  by (simp add: canonical_bind_def)

lemma parse_bind_loop_ok:
  assumes "parse_bind_loop seen out ss = Inr r"
    and "set seen = set out" "distinct out" "list_all canonical_bind out"
  shows "distinct r \<and> list_all canonical_bind r \<and> length r = length out + length ss \<and> prefix out r"
  using assms
proof (induction seen out ss rule: parse_bind_loop.induct)
  case (1 seen out)
  then show ?case by simp
next
  case (2 seen out raw rest)
  then obtain host port where hp: "trim_space raw \<noteq> []" "split_host_port (trim_space raw) = Inr (host, port)"
      "port \<noteq> []" "join_host_port host port \<notin> set seen"
    by (auto simp: Let_def split: if_splits sum.splits)
  let ?cn = "join_host_port host port"
  from 2(2) hp have r: "parse_bind_loop (?cn # seen) (out @ [?cn]) rest = Inr r" by (simp add: Let_def)
  have "distinct r \<and> list_all canonical_bind r \<and> length r = length (out @ [?cn]) + length rest
      \<and> prefix (out @ [?cn]) r"
    using r hp 2(3-5) by (intro 2(1)) (auto simp: join_canonical)
  then show ?case by (auto dest: append_prefixD)
qed

lemma parse_bind_loop_canonical:
  assumes "list_all canonical_bind ss" "\<forall>s \<in> set ss. trim_space s = s"
    and "distinct ss" "set seen \<inter> set ss = {}"
  shows "parse_bind_loop seen out ss = Inr (out @ ss)"
  using assms
proof (induction ss arbitrary: seen out)
  case Nil
  then show ?case by simp
next
  case (Cons raw rest)
  from Cons.prems(1) obtain h p where hp: "split_host_port raw = Inr (h, p)" "p \<noteq> []" "join_host_port h p = raw"
    by (auto simp: canonical_bind_def split: sum.splits)
  have ne: "raw \<noteq> []" using hp(1) by (auto simp: split_host_port_def last_index_byte_def)
  have tr: "trim_space raw = raw" and new: "raw \<notin> set seen" using Cons.prems(2,4) by auto
  have "parse_bind_loop (raw # seen) (out @ [raw]) rest = Inr ((out @ [raw]) @ rest)"
    using Cons.prems by (intro Cons.IH) auto
  then show ?case by (simp add: tr ne hp new Let_def)
qed

lemma net_listen_fail: "net_listen a st = (Inl e, st') \<Longrightarrow> nt_open st' = nt_open st \<and> nt_calls st' = Suc (nt_calls st)"
  by (auto simp: net_listen_def Let_def split: sum.splits)

lemma net_listen_ok:
  "net_listen a st = (Inr ln, st') \<Longrightarrow>
   nt_open st' = nt_open st @ [ln] \<and> ln_id ln = nt_calls st \<and> nt_calls st' = Suc (nt_calls st)"
  by (auto simp: net_listen_def Let_def split: sum.splits)

lemma close_all_open:
  "nt_open (close_all xs st) = filter (\<lambda>x. ln_id x \<notin> ln_id ` set xs) (nt_open st)"
  by (induction xs st rule: close_all.induct) (auto simp: net_close_def intro!: filter_cong)

text \<open>Every open listener carries the number of an earlier \<open>Listen\<close> call, so a new one is fresh.\<close>

definition net_inv :: "netst \<Rightarrow> bool" where
  "net_inv st \<longleftrightarrow> (\<forall>x \<in> set (nt_open st). ln_id x < nt_calls st)"

lemma listen_loop_open:
  assumes "listen_loop lns as st = (res, st')" "nt_open st = old @ lns"
    and "\<forall>x \<in> set old. \<forall>y \<in> set lns. ln_id x \<noteq> ln_id y" "net_inv st"
  shows "net_inv st' \<and> (case res of
      Inl _ \<Rightarrow> nt_open st' = old
    | Inr ls \<Rightarrow> nt_open st' = old @ ls \<and> length ls = length lns + length as)"
  using assms
proof (induction lns as st rule: listen_loop.induct)
  case (1 lns st)
  then show ?case by auto
next
  case (2 lns a as st)
  obtain r1 st1 where l: "net_listen a st = (r1, st1)" by fastforce
  show ?case
  proof (cases r1)
    case (Inl e)
    with 2(2) l have res: "res = Inl (a, e)" "st' = close_all lns st1" by auto
    note f = net_listen_fail [OF l [unfolded Inl]]
    have "nt_open st' = filter (\<lambda>x. ln_id x \<notin> ln_id ` set lns) (old @ lns)"
      using f 2(3) res by (simp add: close_all_open)
    also have "\<dots> = old" using 2(4) by (auto simp: filter_id_conv filter_empty_conv)
    finally have "nt_open st' = old" .
    moreover have "nt_calls (close_all xs s) = nt_calls s" for xs s
      by (induction xs s rule: close_all.induct) (auto simp: net_close_def)
    moreover have "\<forall>x \<in> set old. ln_id x < nt_calls st1" using 2(3,5) f by (auto simp: net_inv_def less_Suc_eq)
    ultimately show ?thesis using res by (simp add: net_inv_def)
  next
    case (Inr ln)
    note ok = net_listen_ok [OF l [unfolded Inr]]
    have "\<forall>x \<in> set old. ln_id x < nt_calls st" using 2(3,5) by (auto simp: net_inv_def)
    then have "\<forall>x \<in> set old. \<forall>y \<in> set (lns @ [ln]). ln_id x \<noteq> ln_id y" using 2(4) ok by auto
    moreover have "net_inv st1" using 2(5) ok by (auto simp: net_inv_def)
    moreover have "nt_open st1 = old @ lns @ [ln]" using ok 2(3) by simp
    moreover have "listen_loop (lns @ [ln]) as st1 = (res, st')" using 2(2) l Inr by simp
    ultimately show ?thesis using 2(1) [OF l [symmetric] Inr] by (auto split: sum.splits)
  qed
qed

text \<open>What the list parser accepts, entry by entry, and what it makes of an entry.\<close>

definition bind_entry_ok :: "string \<Rightarrow> bool" where
  "bind_entry_ok raw \<longleftrightarrow>
     (case split_host_port (trim_space raw) of Inr (h, p) \<Rightarrow> p \<noteq> [] | Inl _ \<Rightarrow> False)"

definition canon_bind :: "string \<Rightarrow> string" where
  "canon_bind raw =
     (case split_host_port (trim_space raw) of Inr (h, p) \<Rightarrow> join_host_port h p | Inl _ \<Rightarrow> [])"

lemma bind_entry_ok_nonempty: "bind_entry_ok raw \<Longrightarrow> trim_space raw \<noteq> []"
  by (auto simp: bind_entry_ok_def split_host_port_def last_index_byte_def)

lemma parse_bind_loop_spec:
  "parse_bind_loop seen out ss = Inr r \<longleftrightarrow>
     list_all bind_entry_ok ss \<and> distinct (map canon_bind ss) \<and>
     set seen \<inter> canon_bind ` set ss = {} \<and> r = out @ map canon_bind ss"
proof (induction ss arbitrary: seen out)
  case Nil
  then show ?case by auto
next
  case (Cons raw rest)
  show ?case
  proof (cases "bind_entry_ok raw")
    case False
    then show ?thesis by (auto simp: bind_entry_ok_def Let_def split: sum.splits)
  next
    case True
    then obtain h p where hp: "split_host_port (trim_space raw) = Inr (h, p)" "p \<noteq> []"
      by (auto simp: bind_entry_ok_def split: sum.splits)
    have cn: "canon_bind raw = join_host_port h p" by (simp add: canon_bind_def hp)
    show ?thesis
      using True hp bind_entry_ok_nonempty [OF True] Cons.IH
      by (auto simp: Let_def cn)
  qed
qed

lemma canon_bind_canonical: "bind_entry_ok raw \<Longrightarrow> canonical_bind (canon_bind raw)"
  by (auto simp: bind_entry_ok_def canon_bind_def join_canonical split: sum.splits)

text \<open>A listener whose address is a loopback address, as \<open>pickBoundAddr\<close> tests it.\<close>

definition loopback_listener :: "listener \<Rightarrow> bool" where
  "loopback_listener ln \<longleftrightarrow>
     (case split_host_port (ln_addr ln) of
        Inr (h, _) \<Rightarrow> (case parse_ip h of Some ip \<Rightarrow> is_loopback ip | None \<Rightarrow> False)
      | Inl _ \<Rightarrow> False)"

lemma pick_bound_loop_eq:
  "list_all (\<lambda>l. ln_addr l \<noteq> []) lns \<Longrightarrow>
   pick_bound_loop f lns =
     (case find loopback_listener lns of
        Some l \<Rightarrow> ln_addr l
      | None \<Rightarrow> if f \<noteq> [] \<or> lns = [] then f else ln_addr (hd lns))"
  by (induction f lns rule: pick_bound_loop.induct)
    (auto simp: loopback_listener_def Let_def split: sum.splits option.splits prod.splits)

subsection \<open>Properties\<close>

text \<open>
  C4.  \<open>parseBindList\<close> succeeds exactly when the list is not empty, every trimmed entry is host:port with
  a non-empty port, and no two entries have the same canonical form; the result is then the list of
  canonical forms in order.
\<close>

theorem parse_bind_list_spec:
  "parse_bind_list ss = Inr out \<longleftrightarrow>
     ss \<noteq> [] \<and> list_all bind_entry_ok ss \<and> distinct (map canon_bind ss) \<and> out = map canon_bind ss"
  by (auto simp: parse_bind_list_def parse_bind_loop_spec)

text \<open>
  The canonical form is stable: parsing the result again gives it back unchanged, so a configuration
  that is written out and read again keeps its listeners (for addresses with no space around them).
\<close>

lemma parse_bind_list_stable:
  assumes "parse_bind_list ss = Inr out" "\<forall>a \<in> set out. trim_space a = a"
  shows "parse_bind_list out = Inr out"
proof -
  from assms(1) have ok: "ss \<noteq> []" "list_all bind_entry_ok ss" "distinct out" "out = map canon_bind ss"
    by (auto simp: parse_bind_list_def parse_bind_loop_spec split: if_splits)
  have "list_all canonical_bind out" using ok(2,4) by (auto simp: list_all_iff canon_bind_canonical)
  then have "parse_bind_loop [] [] out = Inr ([] @ out)"
    using assms(2) ok(3) by (intro parse_bind_loop_canonical) auto
  then show ?thesis using ok by (simp add: parse_bind_list_def)
qed

text \<open>
  C6.  \<open>listenAll\<close> leaks no listener: when one address cannot be bound the open listeners are those there
  were before the call, and when all can be bound exactly one new listener per address is open.
\<close>

theorem listen_all_no_leak:
  assumes "net_inv st" "listen_all addrs st = (res, st')"
  shows "net_inv st' \<and> (case res of
      Inl _ \<Rightarrow> nt_open st' = nt_open st
    | Inr lns \<Rightarrow> nt_open st' = nt_open st @ lns \<and> length lns = length addrs)"
  using listen_loop_open [of "[]" addrs st res st' "nt_open st"] assms
  by (auto simp: listen_all_def split: sum.splits)

text \<open>A network on which port 80 cannot be bound.\<close>

definition example_net :: netst where
  "example_net = \<lparr>nt_open = [], nt_calls = 0,
     nt_oracle = (\<lambda>n a. if a = '':80'' then Inl ''permission denied'' else Inr a)\<rparr>"

theorem listen_all_no_leak_witness:
  "fst (listen_all ['':90'', '':80''] example_net) = Inl ('':80'', ''permission denied'')
    \<and> nt_open (snd (listen_all ['':90'', '':80''] example_net)) = []"
proof -
  have r: "fst (listen_all ['':90'', '':80''] example_net) = Inl ('':80'', ''permission denied'')"
    by (simp add: listen_all_def net_listen_def example_net_def Let_def)
  have "net_inv example_net" by (simp add: net_inv_def example_net_def)
  from listen_all_no_leak [OF this, of "['':90'', '':80'']"] r show ?thesis
    by (cases "listen_all ['':90'', '':80''] example_net") (auto simp: example_net_def)
qed

end
