(* ===== verification/GoJson.thy ===== *)
theory GoJson imports GoStrings begin

text \<open>
  \<open>encoding/json\<close>, as far as the module uses it: the encoding of strings, numbers, arrays and objects, and
  the reader.  Strings are bytes; the encoder replaces bytes that are not UTF-8 and escapes what HTML could
  mistake, the reader does the reverse.  A parsed document keeps its numbers as text.

  The reader rejects nesting deeper than 10000.  Its fuel is twice the length of the input plus one;
  \<open>read_fuel\<close> shows that more makes no difference.
\<close>

subsection \<open>UTF-8\<close>

text \<open>The length of the valid encoding a string starts with, or 0.\<close>

definition cont_byte :: "char \<Rightarrow> bool" where
  "cont_byte c \<longleftrightarrow> 128 \<le> char_code c \<and> char_code c \<le> 191"

fun utf8_size :: "string \<Rightarrow> nat" where
  "utf8_size [] = 0"
| "utf8_size (a # s) =
     (let n = char_code a in
      if n < 128 then 1
      else if 194 \<le> n \<and> n \<le> 223 then (case s of b # _ \<Rightarrow> if cont_byte b then 2 else 0 | _ \<Rightarrow> 0)
      else if 224 \<le> n \<and> n \<le> 239 then
        (case s of b # c # _ \<Rightarrow>
           if cont_byte b \<and> cont_byte c \<and> (n = 224 \<longrightarrow> 160 \<le> char_code b) \<and> (n = 237 \<longrightarrow> char_code b \<le> 159)
           then 3 else 0
         | _ \<Rightarrow> 0)
      else if 240 \<le> n \<and> n \<le> 244 then
        (case s of b # c # d # _ \<Rightarrow>
           if cont_byte b \<and> cont_byte c \<and> cont_byte d \<and> (n = 240 \<longrightarrow> 144 \<le> char_code b)
              \<and> (n = 244 \<longrightarrow> char_code b \<le> 143)
           then 4 else 0
         | _ \<Rightarrow> 0)
      else 0)"

definition utf8_encode :: "nat \<Rightarrow> string" where
  "utf8_encode r =
     (if r < 128 then [char_of r]
      else if r < 2048 then [char_of (192 + r div 64), char_of (128 + r mod 64)]
      else if r < 65536 then [char_of (224 + r div 4096), char_of (128 + r div 64 mod 64), char_of (128 + r mod 64)]
      else [char_of (240 + r div 262144), char_of (128 + r div 4096 mod 64), char_of (128 + r div 64 mod 64),
            char_of (128 + r mod 64)])"

definition replacement_rune :: string where
  "replacement_rune = [CHR 0xEF, CHR 0xBF, CHR 0xBD]"

subsection \<open>Encoding strings\<close>

definition json_safe :: "char \<Rightarrow> bool" where
  "json_safe c \<longleftrightarrow>
     32 \<le> char_code c \<and> char_code c < 128 \<and> char_code c \<notin> {34, 92, 60, 62, 38}"

definition escape_byte :: "char \<Rightarrow> string" where
  "escape_byte c =
     (let n = char_code c in
      if n = 34 \<or> n = 92 then [CHR 0x5C, c]
      else if n = 8 then [CHR 0x5C, CHR ''b'']
      else if n = 12 then [CHR 0x5C, CHR ''f'']
      else if n = 10 then [CHR 0x5C, CHR ''n'']
      else if n = 13 then [CHR 0x5C, CHR ''r'']
      else if n = 9 then [CHR 0x5C, CHR ''t'']
      else [CHR 0x5C, CHR ''u'', CHR ''0'', CHR ''0'', hex_char (n div 16), hex_char (n mod 16)])"

definition line_separator :: "string \<Rightarrow> bool" where
  "line_separator s \<longleftrightarrow>
     (case s of a # b # c # _ \<Rightarrow> char_code a = 226 \<and> char_code b = 128 \<and> (char_code c = 168 \<or> char_code c = 169) | _ \<Rightarrow> False)"

function json_escape :: "string \<Rightarrow> string" where
  "json_escape s =
     (if s = [] then []
      else
        let c = hd s; n = utf8_size s in
        if char_code c < 128 then (if json_safe c then [c] else escape_byte c) @ json_escape (tl s)
        else if n = 0 then [CHR 0x5C] @ ''ufffd'' @ json_escape (tl s)
        else if line_separator s then
          [CHR 0x5C] @ ''u202'' @ [hex_char (char_code (s ! 2) mod 16)] @ json_escape (drop 3 s)
        else take n s @ json_escape (drop n s))"
  by pat_completeness auto
termination
  by (relation "measure length") (auto simp: Let_def)

declare json_escape.simps [simp del]

definition json_string :: "string \<Rightarrow> string" where
  "json_string s = [CHR 0x22] @ json_escape s @ [CHR 0x22]"

subsection \<open>Values and their encoding\<close>

datatype json =
    JNull
  | JBool bool
  | JNum string
  | JStr string
  | JArr "json list"
  | JObj "(string \<times> json) list"

fun commas :: "string list \<Rightarrow> string" where
  "commas [] = []"
| "commas [x] = x"
| "commas (x # y # zs) = x @ '','' @ commas (y # zs)"

text \<open>Members of a Go map are written with sorted keys; a \<open>JObj\<close> carries them in the order they are written.\<close>

fun json_encode :: "json \<Rightarrow> string" where
  "json_encode JNull = ''null''"
| "json_encode (JBool b) = (if b then ''true'' else ''false'')"
| "json_encode (JNum s) = s"
| "json_encode (JStr s) = json_string s"
| "json_encode (JArr vs) = ''['' @ commas (map json_encode vs) @ '']''"
| "json_encode (JObj kvs) = ''{'' @ commas (map (\<lambda>(k, v). json_string k @ '':'' @ json_encode v) kvs) @ ''}''"

subsection \<open>Reading\<close>

definition json_space :: "char \<Rightarrow> bool" where
  "json_space c \<longleftrightarrow> char_code c \<in> {32, 9, 10, 13}"

definition skip_space :: "string \<Rightarrow> string" where
  "skip_space s = dropWhile json_space s"

definition hex_nibble :: "char \<Rightarrow> nat option" where
  "hex_nibble c =
     (if is_digit c then Some (char_code c - 48)
      else if 97 \<le> char_code c \<and> char_code c \<le> 102 then Some (char_code c - 87)
      else if 65 \<le> char_code c \<and> char_code c \<le> 70 then Some (char_code c - 55)
      else None)"

fun hex4 :: "string \<Rightarrow> nat option" where
  "hex4 (a # b # c # d # _) =
     (case (hex_nibble a, hex_nibble b, hex_nibble c, hex_nibble d) of
        (Some w, Some x, Some y, Some z) \<Rightarrow> Some (w * 4096 + x * 256 + y * 16 + z)
      | _ \<Rightarrow> None)"
| "hex4 _ = None"

text \<open>The code point after a \<open>\u\<close> escape and how many bytes it takes: a surrogate pair takes two escapes,
  a lone surrogate is replaced.\<close>

definition read_escape_u :: "string \<Rightarrow> (nat \<times> nat) option" where
  "read_escape_u s =
     (case hex4 s of
        None \<Rightarrow> None
      | Some r \<Rightarrow>
          if 55296 \<le> r \<and> r \<le> 57343 then
            (case (r < 56320, drop 4 s) of
               (True, a # b # t) \<Rightarrow>
                 if char_code a = 92 \<and> b = CHR ''u'' then
                   (case hex4 t of
                      Some r2 \<Rightarrow> if 56320 \<le> r2 \<and> r2 \<le> 57343
                                then Some (65536 + (r - 55296) * 1024 + (r2 - 56320), 10)
                                else Some (65533, 4)
                    | None \<Rightarrow> Some (65533, 4))
                 else Some (65533, 4)
             | _ \<Rightarrow> Some (65533, 4))
          else Some (r, 4))"

definition simple_escape :: "char \<Rightarrow> char option" where
  "simple_escape c =
     (if char_code c = 34 \<or> char_code c = 92 \<or> c = CHR ''/'' then Some c
      else if c = CHR ''b'' then Some (CHR 0x08)
      else if c = CHR ''f'' then Some (CHR 0x0C)
      else if c = CHR ''n'' then Some (CHR 0x0A)
      else if c = CHR ''r'' then Some (CHR 0x0D)
      else if c = CHR ''t'' then Some (CHR 0x09)
      else None)"

text \<open>The rest of a string literal after its opening quote: the decoded string and what follows.\<close>

function read_string :: "string \<Rightarrow> (string \<times> string) option" where
  "read_string s =
     (case s of
        [] \<Rightarrow> None
      | c # t \<Rightarrow>
          if char_code c = 34 then Some ([], t)
          else if char_code c < 32 then None
          else if char_code c = 92 then
            (case t of
               [] \<Rightarrow> None
             | e # u \<Rightarrow>
                 if e = CHR ''u'' then
                   (case read_escape_u u of
                      None \<Rightarrow> None
                    | Some (r, n) \<Rightarrow> map_option (\<lambda>(x, y). (utf8_encode r @ x, y)) (read_string (drop n u)))
                 else
                   (case simple_escape e of
                      None \<Rightarrow> None
                    | Some d \<Rightarrow> map_option (\<lambda>(x, y). (d # x, y)) (read_string u)))
          else
            let n = utf8_size s in
            if n = 0 then map_option (\<lambda>(x, y). (replacement_rune @ x, y)) (read_string t)
            else map_option (\<lambda>(x, y). (take n s @ x, y)) (read_string (drop n s)))"
  by pat_completeness auto
termination
  by (relation "measure length") auto

declare read_string.simps [simp del]

definition digits_then :: "string \<Rightarrow> string \<times> string" where
  "digits_then s = (takeWhile is_digit s, dropWhile is_digit s)"

definition read_sign :: "string \<Rightarrow> string \<times> string" where
  "read_sign s = (case s of c # t \<Rightarrow> if c = CHR ''-'' then (''-'', t) else ([], s) | [] \<Rightarrow> ([], s))"

definition read_int :: "string \<Rightarrow> (string \<times> string) option" where
  "read_int s =
     (case s of
        [] \<Rightarrow> None
      | c # t \<Rightarrow> if c = CHR ''0'' then Some (''0'', t) else if is_digit c then Some (digits_then s) else None)"

definition read_frac :: "string \<Rightarrow> (string \<times> string) option" where
  "read_frac s =
     (case s of
        [] \<Rightarrow> Some ([], [])
      | c # t \<Rightarrow>
          if c = CHR ''.'' then (let (ds, r) = digits_then t in if ds = [] then None else Some (c # ds, r))
          else Some ([], s))"

definition read_exp :: "string \<Rightarrow> (string \<times> string) option" where
  "read_exp s =
     (case s of
        [] \<Rightarrow> Some ([], [])
      | c # t \<Rightarrow>
          if c = CHR ''e'' \<or> c = CHR ''E'' then
            (let (sg, t1) = (case t of d # u \<Rightarrow> if d = CHR ''+'' \<or> d = CHR ''-'' then ([d], u) else ([], t)
                             | [] \<Rightarrow> ([], t));
                 (ds, r) = digits_then t1
             in if ds = [] then None else Some (c # sg @ ds, r))
          else Some ([], s))"

definition read_number :: "string \<Rightarrow> (string \<times> string) option" where
  "read_number s =
     (case read_int (snd (read_sign s)) of
        None \<Rightarrow> None
      | Some (ip, s1) \<Rightarrow>
          (case read_frac s1 of
             None \<Rightarrow> None
           | Some (fp, s2) \<Rightarrow>
               (case read_exp s2 of
                  None \<Rightarrow> None
                | Some (ep, r) \<Rightarrow> Some (fst (read_sign s) @ ip @ fp @ ep, r))))"

definition max_depth :: nat where
  "max_depth = 10000"

fun read_value :: "nat \<Rightarrow> nat \<Rightarrow> string \<Rightarrow> (json \<times> string) option"
  and read_elems :: "nat \<Rightarrow> nat \<Rightarrow> string \<Rightarrow> (json list \<times> string) option"
  and read_members :: "nat \<Rightarrow> nat \<Rightarrow> string \<Rightarrow> ((string \<times> json) list \<times> string) option" where
  "read_value 0 depth s = None"
| "read_value (Suc fuel) depth s0 =
     (case skip_space s0 of
        [] \<Rightarrow> None
      | c # t \<Rightarrow>
          let s = c # t in
          if c = CHR ''{'' then
            (if depth \<ge> max_depth then None
             else case skip_space t of
               [] \<Rightarrow> None
             | d # u \<Rightarrow>
                 if d = CHR ''}'' then Some (JObj [], u)
                 else map_option (\<lambda>(kvs, r). (JObj kvs, r)) (read_members fuel (Suc depth) (d # u)))
          else if c = CHR ''['' then
            (if depth \<ge> max_depth then None
             else case skip_space t of
               [] \<Rightarrow> None
             | d # u \<Rightarrow>
                 if d = CHR '']'' then Some (JArr [], u)
                 else map_option (\<lambda>(vs, r). (JArr vs, r)) (read_elems fuel (Suc depth) (d # u)))
          else if char_code c = 34 then map_option (\<lambda>(x, r). (JStr x, r)) (read_string t)
          else if has_prefix s ''true'' then Some (JBool True, drop 4 s)
          else if has_prefix s ''false'' then Some (JBool False, drop 5 s)
          else if has_prefix s ''null'' then Some (JNull, drop 4 s)
          else map_option (\<lambda>(x, r). (JNum x, r)) (read_number s))"
| "read_elems 0 depth s = None"
| "read_elems (Suc fuel) depth s =
     (case read_value fuel depth s of
        None \<Rightarrow> None
      | Some (v, r) \<Rightarrow>
          (case skip_space r of
             [] \<Rightarrow> None
           | c # t \<Rightarrow>
               if c = CHR '','' then map_option (\<lambda>(vs, r). (v # vs, r)) (read_elems fuel depth t)
               else if c = CHR '']'' then Some ([v], t)
               else None))"
| "read_members 0 depth s = None"
| "read_members (Suc fuel) depth s =
     (case skip_space s of
        [] \<Rightarrow> None
      | q # s1 \<Rightarrow>
          if char_code q \<noteq> 34 then None
          else case read_string s1 of
            None \<Rightarrow> None
          | Some (k, s2) \<Rightarrow>
              (case skip_space s2 of
                 [] \<Rightarrow> None
               | c # s3 \<Rightarrow>
                   if c \<noteq> CHR '':'' then None
                   else case read_value fuel depth s3 of
                     None \<Rightarrow> None
                   | Some (v, r) \<Rightarrow>
                       (case skip_space r of
                          [] \<Rightarrow> None
                        | d # t \<Rightarrow>
                            if d = CHR '','' then map_option (\<lambda>(kvs, r). ((k, v) # kvs, r)) (read_members fuel depth t)
                            else if d = CHR ''}'' then Some ([(k, v)], t)
                            else None)))"

text \<open>A whole document.\<close>

definition json_parse :: "string \<Rightarrow> json option" where
  "json_parse s =
     (case read_value (2 * length s + 1) 0 s of
        None \<Rightarrow> None
      | Some (v, r) \<Rightarrow> if skip_space r = [] then Some v else None)"

text \<open>\<open>json.Unmarshal\<close> into a \<open>string\<close>; a \<open>null\<close> leaves the zero value.\<close>

definition unmarshal_string :: "string \<Rightarrow> string option" where
  "unmarshal_string data =
     (case json_parse data of Some (JStr s) \<Rightarrow> Some s | Some JNull \<Rightarrow> Some [] | _ \<Rightarrow> None)"

subsection \<open>Reading back what was written\<close>

text \<open>A string all of whose bytes are parts of valid encodings.\<close>

function valid_utf8 :: "string \<Rightarrow> bool" where
  "valid_utf8 s = (if s = [] then True else if utf8_size s = 0 then False else valid_utf8 (drop (utf8_size s) s))"
  by pat_completeness auto
termination
  by (relation "measure length") auto

declare valid_utf8.simps [simp del]

lemma char_code_eq: "char_code c = n \<Longrightarrow> c = char_of n"
  by (auto simp: char_code_def)

lemma char_code_inject: "char_code c = char_code d \<longleftrightarrow> c = d"
  by (auto simp: char_code_def)

lemma char_code_lits:
  "char_code CHR 0x08 = 8" "char_code CHR 0x0C = 12" "char_code CHR 0x0A = 10" "char_code CHR 0x0D = 13"
  "char_code CHR 0x09 = 9" "char_code CHR 0x80 = 128" "char_code CHR 0xE2 = 226" "char_code CHR 0xA8 = 168"
  "char_code CHR 0xA9 = 169"
  by code_simp+

lemma char_code_cases:
  "char_code c = 8 \<longleftrightarrow> c = CHR 0x08" "char_code c = 12 \<longleftrightarrow> c = CHR 0x0C" "char_code c = 10 \<longleftrightarrow> c = CHR 0x0A"
  "char_code c = 13 \<longleftrightarrow> c = CHR 0x0D" "char_code c = 9 \<longleftrightarrow> c = CHR 0x09" "char_code c = 128 \<longleftrightarrow> c = CHR 0x80"
  "char_code c = 226 \<longleftrightarrow> c = CHR 0xE2" "char_code c = 168 \<longleftrightarrow> c = CHR 0xA8" "char_code c = 169 \<longleftrightarrow> c = CHR 0xA9"
  by (metis char_code_inject char_code_lits)+

lemma utf8_size_le: "utf8_size s \<le> length s"
  by (cases s) (auto simp: Let_def split: list.split)

lemma utf8_size_append: "0 < utf8_size s \<Longrightarrow> utf8_size (take (utf8_size s) s @ r) = utf8_size s"
  by (cases s) (auto simp: Let_def split: list.splits if_splits)

lemma utf8_size_ascii: "char_code c < 128 \<Longrightarrow> utf8_size (c # s) = 1"
  by simp

lemma utf8_size_multi: "s \<noteq> [] \<Longrightarrow> \<not> char_code (hd s) < 128 \<Longrightarrow> utf8_size s \<noteq> 0 \<Longrightarrow> 2 \<le> utf8_size s"
  by (cases s) (auto simp: Let_def split: list.splits if_splits)

lemma hex_nibble_char: "d < 16 \<Longrightarrow> hex_nibble (hex_char d) = Some d"
  by (auto simp: hex_nibble_def hex_char_def is_digit_def char_code_of)

lemma hex_nibble_zero [simp]: "hex_nibble CHR ''0'' = Some 0" "hex_nibble CHR ''2'' = Some 2"
  by code_simp+

lemma read_plain:
  assumes "32 \<le> char_code c" "char_code c \<noteq> 34" "char_code c \<noteq> 92" "utf8_size (c # t) = n" "0 < n"
  shows "read_string (c # t) = map_option (\<lambda>(x, y). (take n (c # t) @ x, y)) (read_string (drop n (c # t)))"
  using assms by (subst read_string.simps) (simp add: Let_def)

lemma read_simple:
  assumes "simple_escape e = Some d"
  shows "read_string (CHR 0x5C # e # u) = map_option (\<lambda>(x, y). (d # x, y)) (read_string u)"
proof -
  have "e \<noteq> CHR ''u''" using assms by (auto simp: simple_escape_def char_code_def split: if_splits)
  then show ?thesis using assms by (subst read_string.simps) (simp add: char_code_def)
qed

lemma read_unicode:
  assumes "read_escape_u u = Some (r, n)"
  shows "read_string (CHR 0x5C # CHR ''u'' # u) = map_option (\<lambda>(x, y). (utf8_encode r @ x, y)) (read_string (drop n u))"
  using assms by (subst read_string.simps) (simp add: char_code_def)

lemma read_escaped_byte:
  assumes "char_code c < 128" "\<not> json_safe c"
  shows "read_string (escape_byte c @ t) = map_option (\<lambda>(x, y). (c # x, y)) (read_string t)"
proof -
  let ?n = "char_code c"
  consider "?n = 34 \<or> ?n = 92" | "?n = 8" | "?n = 12" | "?n = 10" | "?n = 13" | "?n = 9"
    | "?n \<notin> {34, 92, 8, 12, 10, 13, 9}" by blast
  then show ?thesis
  proof cases
    case 7
    have h: "?n div 16 < 16" "?n mod 16 < 16" using assms(1) by auto
    have n: "?n div 16 * 16 + ?n mod 16 = ?n" by simp
    have "read_escape_u (CHR ''0'' # CHR ''0'' # hex_char (?n div 16) # hex_char (?n mod 16) # t) = Some (?n, 4)"
      using hex_nibble_char [OF h(1)] hex_nibble_char [OF h(2)] assms(1) n by (simp add: read_escape_u_def)
    note r = read_unicode [OF this]
    have "utf8_encode ?n = [c]" using assms(1) by (simp add: utf8_encode_def char_code_def)
    then show ?thesis using r 7 by (simp add: escape_byte_def Let_def)
  next
    case 1
    then have "simple_escape c = Some c" by (auto simp: simple_escape_def)
    then show ?thesis using 1 read_simple [of c c t] by (auto simp: escape_byte_def)
  next
    case 2
    then have "c = CHR 0x08" by (simp add: char_code_cases)
    then show ?thesis using read_simple [of "CHR ''b''" c t] by (simp add: escape_byte_def simple_escape_def char_code_def)
  next
    case 3
    then have "c = CHR 0x0C" by (simp add: char_code_cases)
    then show ?thesis using read_simple [of "CHR ''f''" c t] by (simp add: escape_byte_def simple_escape_def char_code_def)
  next
    case 4
    then have "c = CHR 0x0A" by (simp add: char_code_cases)
    then show ?thesis using read_simple [of "CHR ''n''" c t] by (simp add: escape_byte_def simple_escape_def char_code_def)
  next
    case 5
    then have "c = CHR 0x0D" by (simp add: char_code_cases)
    then show ?thesis using read_simple [of "CHR ''r''" c t] by (simp add: escape_byte_def simple_escape_def char_code_def)
  next
    case 6
    then have "c = CHR 0x09" by (simp add: char_code_cases)
    then show ?thesis using read_simple [of "CHR ''t''" c t] by (simp add: escape_byte_def simple_escape_def char_code_def)
  qed
qed

lemma json_escape_nil: "json_escape [] = []"
  by (subst json_escape.simps) simp

lemma json_escape_safe: "char_code c < 128 \<Longrightarrow> json_safe c \<Longrightarrow> json_escape (c # t) = c # json_escape t"
  by (subst json_escape.simps) (simp add: Let_def)

lemma json_escape_unsafe:
  "char_code c < 128 \<Longrightarrow> \<not> json_safe c \<Longrightarrow> json_escape (c # t) = escape_byte c @ json_escape t"
  by (subst json_escape.simps) (simp add: Let_def)

text \<open>
  Encoding a string of valid UTF-8 and reading the literal gives the string back.
\<close>

lemma read_json_escape:
  "valid_utf8 s \<Longrightarrow> read_string (json_escape s @ CHR 0x22 # r) = Some (s, r)"
proof (induction s rule: json_escape.induct)
  case (1 s)
  show ?case
  proof (cases "s = []")
    case True
    then show ?thesis by (simp add: json_escape_nil) (subst read_string.simps, simp add: char_code_def)
  next
    case False
    then obtain c t where s: "s = c # t" by (cases s) auto
    have v: "utf8_size s \<noteq> 0" "valid_utf8 (drop (utf8_size s) s)"
      using 1(5) False by (auto simp: valid_utf8.simps [of s] split: if_splits)
    show ?thesis
    proof (cases "char_code c < 128")
      case True
      then have "valid_utf8 t" using v by (simp add: s)
      with 1(1) s True have ih: "read_string (json_escape t @ CHR 0x22 # r) = Some (t, r)" by simp
      show ?thesis
      proof (cases "json_safe c")
        case j: True
        then have "json_escape s @ CHR 0x22 # r = c # json_escape t @ CHR 0x22 # r"
          using True j by (simp add: json_escape_safe s)
        then show ?thesis
          using j True ih read_plain [of c "json_escape t @ CHR 0x22 # r" 1] by (simp add: s json_safe_def)
      next
        case j: False
        then have "json_escape s @ CHR 0x22 # r = escape_byte c @ json_escape t @ CHR 0x22 # r"
          using True j by (simp add: json_escape_unsafe s)
        then show ?thesis using ih read_escaped_byte [OF True j] by (simp add: s)
      qed
    next
      case big: False
      have n: "2 \<le> utf8_size s" using utf8_size_multi [of s] False big v by (simp add: s)
      show ?thesis
      proof (cases "line_separator s")
        case True
        then obtain x u where u: "t = CHR 0x80 # x # u" "c = CHR 0xE2" "x = CHR 0xA8 \<or> x = CHR 0xA9"
          by (auto simp: s line_separator_def char_code_cases split: list.splits)
        have z: "utf8_size s = 3" using u by (auto simp: s cont_byte_def char_code_def)
        then have "valid_utf8 u" using v u by (simp add: s)
        with 1(3) s big v True z u have ih: "read_string (json_escape u @ CHR 0x22 # r) = Some (u, r)" by simp
        have e: "json_escape s = CHR 0x5C # CHR ''u'' # ''202'' @ [hex_char (char_code x mod 16)] @ json_escape u"
        proof -
          have "hd s = c" "s \<noteq> []" "s ! 2 = x" "drop 3 s = u" using u by (simp_all add: s)
          then show ?thesis using big True z by (simp add: json_escape.simps [of s])
        qed
        have "read_escape_u (''202'' @ hex_char (char_code x mod 16) # json_escape u @ CHR 0x22 # r) = Some (8192 + 32 + char_code x mod 16, 4)"
          using u(3) hex_nibble_char [of "char_code x mod 16"] by (auto simp: read_escape_u_def char_code_def)
        note rd = read_unicode [OF this]
        have "utf8_encode (8192 + 32 + char_code x mod 16) = [CHR 0xE2, CHR 0x80, x]"
          using u(3) by (auto simp: utf8_encode_def char_code_def char_of_def bit_0)
        then show ?thesis using rd ih e u by (simp add: s)
      next
        case False
        let ?n = "utf8_size s"
        have ih: "read_string (json_escape (drop ?n s) @ CHR 0x22 # r) = Some (drop ?n s, r)"
          using 1(4) s big v False by simp
        have e: "json_escape s = take ?n s @ json_escape (drop ?n s)"
        proof -
          have "hd s = c" "s \<noteq> []" by (simp_all add: s)
          then show ?thesis using big False v by (simp add: json_escape.simps [of s] Let_def)
        qed
        let ?w = "json_escape (drop ?n s) @ CHR 0x22 # r"
        obtain k where k: "?n = Suc k" using n by (cases ?n) auto
        have w: "take ?n s @ ?w = c # (take k t @ ?w)" unfolding k by (simp add: s)
        have "utf8_size (take ?n s @ ?w) = ?n" using utf8_size_append v by simp
        then have "read_string (take ?n s @ ?w) = map_option (\<lambda>(x, y). (take ?n (take ?n s @ ?w) @ x, y)) (read_string (drop ?n (take ?n s @ ?w)))"
          unfolding w using big v by (intro read_plain) auto
        moreover have "length (take ?n s) = ?n" using utf8_size_le [of s] by simp
        ultimately show ?thesis using ih e by simp
      qed
    qed
  qed
qed

subsection \<open>The reader's fuel\<close>

lemma skip_space_le: "length (skip_space s) \<le> length s"
  by (simp add: skip_space_def length_dropWhile_le)

lemma skip_space_cons: "skip_space s = c # t \<Longrightarrow> length t < length s"
  using skip_space_le [of s] by simp

lemma read_string_shorter: "read_string s = Some (x, r) \<Longrightarrow> length r < length s"
proof (induction s arbitrary: x r rule: read_string.induct)
  case (1 s)
  show ?case
  proof (cases s)
    case Nil
    then show ?thesis using 1(5) by (simp add: read_string.simps)
  next
    case (Cons c t)
    have e: "read_string (c # t) = Some (x, r)" using 1(5) Cons by simp
    consider "char_code c = 34" | "char_code c < 32" | "char_code c = 92"
      | "char_code c \<noteq> 34" "\<not> char_code c < 32" "char_code c \<noteq> 92" by blast
    then show ?thesis
    proof cases
      case 1
      then show ?thesis using e by (subst (asm) read_string.simps) (simp add: Cons)
    next
      case 2
      then show ?thesis using e by (subst (asm) read_string.simps) (simp split: if_splits)
    next
      case 3
      show ?thesis
      proof (cases t)
        case Nil
        then show ?thesis using e 3 by (subst (asm) read_string.simps) simp
      next
        case t: (Cons d u)
        show ?thesis
        proof (cases "d = CHR ''u''")
          case True
          then obtain k n y where n: "read_escape_u u = Some (k, n)" "read_string (drop n u) = Some (y, r)"
            using e 3 t by (subst (asm) read_string.simps) (auto split: option.splits)
          then have "length r < length (drop n u)" using "1.IH"(1) [OF Cons] 3 t True by simp
          then show ?thesis by (simp add: Cons t)
        next
          case False
          then obtain k y where n: "simple_escape d = Some k" "read_string u = Some (y, r)"
            using e 3 t by (subst (asm) read_string.simps) (auto split: option.splits)
          then have "length r < length u" using "1.IH"(2) [OF Cons] 3 t False by simp
          then show ?thesis by (simp add: Cons t)
        qed
      qed
    next
      case 4
      show ?thesis
      proof (cases "utf8_size s = 0")
        case True
        then obtain y where "read_string t = Some (y, r)"
          using e 4 Cons by (subst (asm) read_string.simps) (auto simp del: utf8_size.simps)
        then have "length r < length t" using "1.IH"(3) [OF Cons 4 refl True] by simp
        then show ?thesis by (simp add: Cons)
      next
        case False
        then obtain y where "read_string (drop (utf8_size s) s) = Some (y, r)"
          using e 4 read_plain [of c t "utf8_size s"] by (auto simp: Cons simp del: utf8_size.simps)
        then have "length r < length (drop (utf8_size s) s)" using "1.IH"(4) [OF Cons 4 refl False] by simp
        then show ?thesis by (simp del: utf8_size.simps)
      qed
    qed
  qed
qed

lemma digits_then_shorter: "digits_then s = (ds, r) \<Longrightarrow> length r + length ds = length s"
  unfolding digits_then_def by (metis length_append add.commute prod.inject takeWhile_dropWhile_id)

lemma digits_then_digit:
  "is_digit c \<Longrightarrow> digits_then (c # s) = (c # fst (digits_then s), snd (digits_then s))"
  by (simp add: digits_then_def)

lemma digits_then_snd: "length (snd (digits_then s)) \<le> length s"
  by (simp add: digits_then_def length_dropWhile_le)

lemma read_sign_le: "length (snd (read_sign s)) \<le> length s"
  by (simp add: read_sign_def split: list.split)

lemma read_int_shorter: "read_int s = Some (x, r) \<Longrightarrow> length r < length s"
  using digits_then_snd
  by (auto simp: read_int_def digits_then_digit less_Suc_eq_le split: list.splits if_splits)

lemma read_frac_le: "read_frac s = Some (x, r) \<Longrightarrow> length r \<le> length s"
  by (auto simp: read_frac_def Let_def split: list.splits if_splits prod.splits dest!: digits_then_shorter)

lemma read_exp_le: "read_exp s = Some (x, r) \<Longrightarrow> length r \<le> length s"
  by (auto simp: read_exp_def Let_def split: list.splits if_splits prod.splits dest!: digits_then_shorter)

lemma read_number_shorter: "read_number s = Some (x, r) \<Longrightarrow> length r < length s"
  using read_sign_le [of s]
  by (auto simp: read_number_def split: option.splits prod.splits
      dest!: read_int_shorter read_frac_le read_exp_le)

lemma read_shorter:
  "read_value f d s = Some (v, r) \<Longrightarrow> length r < length s"
  "read_elems f d s = Some (vs, r) \<Longrightarrow> length r < length s"
  "read_members f d s = Some (kvs, r) \<Longrightarrow> length r < length s"
proof (induction f arbitrary: d s v vs kvs r and d s v vs kvs r and d s v vs kvs r)
  case (Suc f)
  have v: "length r < length s" if "read_value f d s = Some (v, r)" for d s v r by (rule Suc.IH(1) [OF that])
  have e: "length r < length s" if "read_elems f d s = Some (vs, r)" for d s vs r by (rule Suc.IH(2) [OF that])
  have m: "length r < length s" if "read_members f d s = Some (kvs, r)" for d s kvs r by (rule Suc.IH(3) [OF that])
  { case 1
    then show ?case
      by (auto simp: Let_def split: list.splits if_splits
          dest!: skip_space_cons read_string_shorter read_number_shorter dest: e m) }
  { case 2
    then show ?case
      by (auto split: option.splits list.splits if_splits dest!: skip_space_cons v e) }
  { case 3
    then show ?case
      by (auto split: option.splits list.splits if_splits dest!: skip_space_cons read_string_shorter v m) }
qed simp_all

lemma read_fuel_enough:
  "2 * length s + 1 \<le> f \<Longrightarrow> f \<le> f' \<Longrightarrow> read_value f' d s = read_value f d s"
  "2 * length s + 2 \<le> f \<Longrightarrow> f \<le> f' \<Longrightarrow> read_elems f' d s = read_elems f d s"
  "2 * length s + 2 \<le> f \<Longrightarrow> f \<le> f' \<Longrightarrow> read_members f' d s = read_members f d s"
proof (induction f arbitrary: f' d s and f' d s and f' d s)
  case (Suc f)
  { case 1
    then obtain g where g: "f' = Suc g" "f \<le> g" by (cases f') auto
    have "read_elems g d' t = read_elems f d' t" "read_members g d' t = read_members f d' t"
      if "length t < length s" for d' t using Suc.IH(2,3) [OF _ g(2)] 1 that by auto
    then show ?case
      by (auto simp: g Let_def split: list.split dest!: skip_space_cons) }
  { case 2
    then obtain g where g: "f' = Suc g" "f \<le> g" by (cases f') auto
    have v: "read_value g d s = read_value f d s" using 2 Suc.IH(1) [OF _ g(2)] by simp
    have e: "read_elems g d t = read_elems f d t" if "length t < length s" for t
      using 2 Suc.IH(2) [OF _ g(2)] that by simp
    show ?case
      using e by (auto simp: g v split: option.split list.split dest!: skip_space_cons read_shorter) }
  { case 3
    then obtain g where g: "f' = Suc g" "f \<le> g" by (cases f') auto
    have v: "read_value g d t = read_value f d t" if "length t < length s" for t
      using 3 Suc.IH(1) [OF _ g(2)] that by simp
    have m: "read_members g d t = read_members f d t" if "length t < length s" for t
      using 3 Suc.IH(3) [OF _ g(2)] that by simp
    show ?case
    proof (cases "\<exists>q s1 k s2 c s3. skip_space s = q # s1 \<and> read_string s1 = Some (k, s2) \<and> skip_space s2 = c # s3")
      case True
      then obtain q s1 k s2 c s3
        where p: "skip_space s = q # s1" "read_string s1 = Some (k, s2)" "skip_space s2 = c # s3" by blast
      then have l: "length s3 < length s" by (auto dest!: skip_space_cons read_string_shorter)
      show ?thesis
        using l m by (auto simp: g p v [OF l] split: option.split list.split dest!: skip_space_cons read_shorter)
    next
      case False
      then show ?thesis by (auto simp: g split: option.split list.split)
    qed }
qed simp_all

text \<open>Fuel of twice the length plus one is always enough.\<close>

lemma read_fuel: "2 * length s + 1 \<le> f \<Longrightarrow> read_value f 0 s = read_value (2 * length s + 1) 0 s"
  by (rule read_fuel_enough(1)) auto

subsection \<open>Reading back a document\<close>

text \<open>What may follow a value inside a document: nothing, or a character no number continues with.\<close>

definition ends_value :: "string \<Rightarrow> bool" where
  "ends_value r \<longleftrightarrow> (case r of [] \<Rightarrow> True | c # _ \<Rightarrow> c \<in> {CHR '','', CHR ''}'', CHR '']''})"

lemma ends_value_simps [simp]:
  "ends_value []" "ends_value (CHR '','' # r)" "ends_value (CHR ''}'' # r)" "ends_value (CHR '']'' # r)"
  by (simp_all add: ends_value_def)

lemma ends_value_cases:
  assumes "ends_value r"
  obtains "r = []" | t where "r = CHR '','' # t" | t where "r = CHR ''}'' # t" | t where "r = CHR '']'' # t"
  using assms by (auto simp: ends_value_def split: list.splits)

lemma digits_then_append:
  assumes "ends_value r"
  shows "digits_then (s @ r) = (fst (digits_then s), snd (digits_then s) @ r)"
proof -
  have r: "takeWhile is_digit r = []" "dropWhile is_digit r = r"
    using assms by (auto simp: ends_value_def is_digit_def char_code_def split: list.splits)
  have "takeWhile is_digit (s @ r) = takeWhile is_digit s" using r by (induction s) auto
  moreover have "dropWhile is_digit (s @ r) = dropWhile is_digit s @ r" using r by (induction s) auto
  ultimately show ?thesis by (simp add: digits_then_def)
qed

lemma read_int_append: "ends_value r \<Longrightarrow> read_int s = Some (x, y) \<Longrightarrow> read_int (s @ r) = Some (x, y @ r)"
  using digits_then_append [of r s] by (auto simp: read_int_def split: list.splits if_splits)

lemma read_frac_append: "ends_value r \<Longrightarrow> read_frac s = Some (x, y) \<Longrightarrow> read_frac (s @ r) = Some (x, y @ r)"
  using digits_then_append [of r "tl s"]
  by (cases s) (auto simp: read_frac_def case_prod_beta Let_def ends_value_def split: list.splits if_splits)

lemma read_exp_append: "ends_value r \<Longrightarrow> read_exp s = Some (x, y) \<Longrightarrow> read_exp (s @ r) = Some (x, y @ r)"
proof (cases s)
  case Nil
  assume "ends_value r" "read_exp s = Some (x, y)"
  then show ?thesis using Nil by (auto simp: read_exp_def ends_value_def split: list.splits)
next
  case (Cons c t)
  assume r: "ends_value r" and e: "read_exp s = Some (x, y)"
  show ?thesis
  proof (cases t)
    case Nil
    then show ?thesis using e Cons by (auto simp: read_exp_def digits_then_def split: if_splits)
  next
    case (Cons d u)
    then show ?thesis
      using e \<open>s = c # t\<close> digits_then_append [OF r, of u] digits_then_append [OF r, of t]
      by (auto simp: read_exp_def case_prod_beta Let_def split: if_splits)
  qed
qed

text \<open>A number literal: the reader takes all of it.\<close>

definition number_ok :: "string \<Rightarrow> bool" where
  "number_ok t \<longleftrightarrow> read_number t = Some (t, [])"

lemma number_ok_cons: "number_ok t \<Longrightarrow> \<exists>c u. t = c # u \<and> (c = CHR ''-'' \<or> is_digit c)"
  by (auto simp: number_ok_def read_number_def read_sign_def read_int_def is_digit_def char_code_def
      split: list.splits option.splits if_splits)

lemma read_number_append:
  assumes "ends_value r" "number_ok t"
  shows "read_number (t @ r) = Some (t, r)"
proof -
  obtain c u where t: "t = c # u" using number_ok_cons [OF assms(2)] by blast
  then have s: "read_sign (t @ r) = (fst (read_sign t), snd (read_sign t) @ r)"
    by (simp add: read_sign_def)
  obtain ip s1 fp s2 ep y where p: "read_int (snd (read_sign t)) = Some (ip, s1)" "read_frac s1 = Some (fp, s2)"
    "read_exp s2 = Some (ep, y)" "fst (read_sign t) @ ip @ fp @ ep = t" "y = []"
    using assms(2) by (auto simp: number_ok_def read_number_def split: option.splits)
  show ?thesis
    using read_int_append [OF assms(1) p(1)] read_frac_append [OF assms(1) p(2)]
      read_exp_append [OF assms(1) p(3)] p(4,5) by (simp add: read_number_def s)
qed

lemma digit_char_is_digit: "d < 10 \<Longrightarrow> is_digit (digit_char d)"
  by (simp add: digit_char_def is_digit_def char_code_of)

lemma nat_digits_digits: "list_all is_digit (nat_digits n)"
  by (induction n rule: nat_digits.induct) (simp add: nat_digits.simps digit_char_is_digit)

lemma nat_digits_head: "0 < n \<Longrightarrow> \<exists>c u. nat_digits n = c # u \<and> c \<noteq> CHR ''0''"
proof (induction n rule: nat_digits.induct)
  case (1 n)
  show ?case
  proof (cases "n < 10")
    case True
    have "digit_char n \<noteq> CHR ''0''"
      using 1(2) True by (auto simp: digit_char_def simp flip: char_code_inject simp: char_code_of) (simp add: char_code_def)
    then show ?thesis using True by (simp add: nat_digits.simps [of n])
  next
    case False
    then have "0 < n div 10" by simp
    with 1(1) False obtain c u where "nat_digits (n div 10) = c # u" "c \<noteq> CHR ''0''" by blast
    then show ?thesis using False by (simp add: nat_digits.simps [of n])
  qed
qed

lemma digits_then_all: "list_all is_digit s \<Longrightarrow> digits_then s = (s, [])"
  by (auto simp: digits_then_def takeWhile_eq_all_conv dropWhile_eq_Nil_conv list_all_iff)

lemma read_int_nat: "read_int (nat_digits n) = Some (nat_digits n, [])"
proof (cases "n = 0")
  case True
  have "nat_digits 0 = ''0''" by code_simp
  then show ?thesis by (simp add: True read_int_def)
next
  case False
  then obtain c u where n: "nat_digits n = c # u" "c \<noteq> CHR ''0''" using nat_digits_head by blast
  then have "is_digit c" using nat_digits_digits [of n] by simp
  then show ?thesis using n digits_then_all [OF nat_digits_digits [of n]] by (simp add: read_int_def)
qed

lemma number_ok_itoa: "number_ok (itoa i)"
proof -
  have "read_sign (nat_digits n) = ([], nat_digits n)" for n
    using nat_digits_digits [of n]
    by (cases "nat_digits n") (auto simp: read_sign_def is_digit_def char_code_def)
  then show ?thesis
    by (simp add: number_ok_def read_number_def itoa_def read_sign_def read_int_nat read_frac_def read_exp_def)
qed

fun json_ok :: "json \<Rightarrow> bool" where
  "json_ok (JNum t) = number_ok t"
| "json_ok (JStr s) = valid_utf8 s"
| "json_ok (JArr vs) = list_all json_ok vs"
| "json_ok (JObj kvs) = list_all (\<lambda>(k, v). valid_utf8 k \<and> json_ok v) kvs"
| "json_ok _ = True"

fun json_depth :: "json \<Rightarrow> nat" where
  "json_depth (JArr vs) = Suc (foldr max (map json_depth vs) 0)"
| "json_depth (JObj kvs) = Suc (foldr max (map (\<lambda>(k, v). json_depth v) kvs) 0)"
| "json_depth _ = 0"

lemma encode_head:
  "json_ok v \<Longrightarrow> \<exists>c t. json_encode v = c # t \<and> \<not> json_space c \<and> c \<notin> {CHR '']'', CHR ''}''}"
  using number_ok_cons
  by (cases v) (auto simp: json_string_def json_space_def char_code_def is_digit_def; fastforce simp: char_code_def)+

lemma skip_space_not [simp]: "\<not> json_space c \<Longrightarrow> skip_space (c # t) = c # t"
  by (simp add: skip_space_def)

lemma not_space [simp]: "\<not> json_space CHR '',''" "\<not> json_space CHR '']''" "\<not> json_space CHR ''}''"
  "\<not> json_space CHR '':''" "\<not> json_space CHR ''{''" "\<not> json_space CHR ''[''" "\<not> json_space CHR 0x22"
  by (simp_all add: json_space_def char_code_def)

lemma read_skip: "read_value f d (skip_space s) = read_value f d s"
  by (cases f) (simp_all add: skip_space_def)


definition reads_back :: "json \<Rightarrow> bool" where
  "reads_back v \<longleftrightarrow>
     (\<forall>f d r. ends_value r \<longrightarrow> d + json_depth v \<le> max_depth \<longrightarrow> 2 * length (json_encode v @ r) + 1 \<le> f
        \<longrightarrow> read_value f d (json_encode v @ r) = Some (v, r))"

lemma reads_backD:
  "reads_back v \<Longrightarrow> ends_value r \<Longrightarrow> d + json_depth v \<le> max_depth \<Longrightarrow> 2 * length (json_encode v @ r) + 1 \<le> f
   \<Longrightarrow> read_value f d (json_encode v @ r) = Some (v, r)"
  by (simp add: reads_back_def)

lemma read_elems_back:
  assumes "vs \<noteq> []" "\<forall>v\<in>set vs. reads_back v" "\<forall>v\<in>set vs. d + json_depth v \<le> max_depth"
    and "2 * length (commas (map json_encode vs) @ CHR '']'' # r) + 2 \<le> f"
  shows "read_elems f d (commas (map json_encode vs) @ CHR '']'' # r) = Some (vs, r)"
  using assms
proof (induction vs arbitrary: f)
  case (Cons v vs)
  obtain g where g: "f = Suc g" using Cons.prems(4) by (cases f) auto
  show ?case
  proof (cases vs)
    case Nil
    have "read_value g d (json_encode v @ CHR '']'' # r) = Some (v, CHR '']'' # r)"
      using Cons.prems(2-4) Nil by (intro reads_backD) (auto simp: g)
    then show ?thesis by (simp add: g Nil)
  next
    case (Cons u us)
    let ?rest = "commas (map json_encode vs) @ CHR '']'' # r"
    have "read_value g d (json_encode v @ CHR '','' # ?rest) = Some (v, CHR '','' # ?rest)"
      using Cons.prems(2-4) \<open>vs = u # us\<close> by (intro reads_backD) (auto simp: g)
    moreover have "read_elems g d ?rest = Some (vs, r)"
      using Cons.prems(2-4) \<open>vs = u # us\<close> by (intro Cons.IH) (auto simp: g)
    ultimately show ?thesis by (simp add: g Cons)
  qed
qed simp

definition member :: "string \<times> json \<Rightarrow> string" where
  "member kv = json_string (fst kv) @ '':'' @ json_encode (snd kv)"

lemma length_member: "length (member kv) = length (json_string (fst kv)) + length (json_encode (snd kv)) + 1"
  by (simp add: member_def)

lemma encode_object: "json_encode (JObj kvs) = ''{'' @ commas (map member kvs) @ ''}''"
proof -
  have "(\<lambda>(k, v). json_string k @ '':'' @ json_encode v) = member" by (auto simp: member_def)
  then show ?thesis by (simp del: append.simps)
qed

lemma read_members_step:
  assumes "valid_utf8 k" "read_value g d (json_encode v @ c # t) = Some (v, c # t)" "\<not> json_space c"
  shows "read_members (Suc g) d (member (k, v) @ c # t) =
     (if c = CHR '','' then map_option (\<lambda>(kvs, r). ((k, v) # kvs, r)) (read_members g d t)
      else if c = CHR ''}'' then Some ([(k, v)], t) else None)"
  using assms read_json_escape [of k "CHR '':'' # json_encode v @ c # t"]
  by (simp add: member_def json_string_def char_code_def)

lemma read_members_back:
  assumes "kvs \<noteq> []" "\<forall>kv\<in>set kvs. valid_utf8 (fst kv) \<and> reads_back (snd kv)"
    and "\<forall>kv\<in>set kvs. d + json_depth (snd kv) \<le> max_depth"
    and "2 * length (commas (map member kvs) @ CHR ''}'' # r) + 2 \<le> f"
  shows "read_members f d (commas (map member kvs) @ CHR ''}'' # r) = Some (kvs, r)"
  using assms
proof (induction kvs arbitrary: f)
  case (Cons kv kvs)
  obtain g where g: "f = Suc g" using Cons.prems(4) by (cases f) auto
  obtain k v where kv: "kv = (k, v)" by fastforce
  show ?case
  proof (cases kvs)
    case Nil
    have "read_value g d (json_encode v @ CHR ''}'' # r) = Some (v, CHR ''}'' # r)"
      using Cons.prems(2-4) Nil by (intro reads_backD) (auto simp: g kv length_member)
    then show ?thesis using read_members_step [of k g d v "CHR ''}''" r] Cons.prems(2) by (simp add: g Nil kv)
  next
    case (Cons u us)
    let ?rest = "commas (map member kvs) @ CHR ''}'' # r"
    have "read_value g d (json_encode v @ CHR '','' # ?rest) = Some (v, CHR '','' # ?rest)"
      using Cons.prems(2-4) \<open>kvs = u # us\<close> by (intro reads_backD) (auto simp: g kv length_member)
    moreover have "read_members g d ?rest = Some (kvs, r)"
      using Cons.prems(2-4) \<open>kvs = u # us\<close> by (intro Cons.IH) (auto simp: g)
    ultimately show ?thesis
      using read_members_step [of k g d v "CHR '',''" ?rest] Cons.prems(2) by (simp add: g Cons kv)
  qed
qed simp


lemma depth_elem: "v \<in> set vs \<Longrightarrow> json_depth v \<le> foldr max (map json_depth vs) 0"
  by (induction vs) auto

lemma depth_member:
  "kv \<in> set kvs \<Longrightarrow> json_depth (snd kv) \<le> foldr max (map (\<lambda>(k, v). json_depth v) kvs) 0"
  by (induction kvs) auto

lemma commas_head: "x \<noteq> [] \<Longrightarrow> \<exists>t. commas (x # xs) = hd x # t"
  by (cases x; cases xs) auto

lemma read_value_number:
  assumes "number_ok t" "ends_value r"
  shows "read_value (Suc g) d (t @ r) = Some (JNum t, r)"
proof -
  obtain c u where t: "t = c # u" and c: "c = CHR ''-'' \<or> is_digit c" using number_ok_cons [OF assms(1)] by blast
  have h: "\<not> json_space c" "c \<noteq> CHR ''{''" "c \<noteq> CHR ''[''" "char_code c \<noteq> 34"
    "\<not> has_prefix (t @ r) ''true''" "\<not> has_prefix (t @ r) ''false''" "\<not> has_prefix (t @ r) ''null''"
    using c by (auto simp: t json_space_def is_digit_def char_code_def has_prefix_def)
  show ?thesis
    using read_number_append [OF assms(2,1)] h by (simp add: t Let_def)
qed

lemma read_value_string:
  "valid_utf8 x \<Longrightarrow> read_value (Suc g) d (json_string x @ r) = Some (JStr x, r)"
  using read_json_escape [of x r] by (simp add: json_string_def char_code_def)

lemma read_value_word:
  "read_value (Suc g) d (''null'' @ r) = Some (JNull, r)"
  "read_value (Suc g) d (''true'' @ r) = Some (JBool True, r)"
  "read_value (Suc g) d (''false'' @ r) = Some (JBool False, r)"
  by (simp_all add: json_space_def char_code_def has_prefix_def)

lemma reads_backI:
  assumes "\<And>g d r. ends_value r \<Longrightarrow> d + json_depth v \<le> max_depth
    \<Longrightarrow> 2 * length (json_encode v @ r) \<le> g \<Longrightarrow> read_value (Suc g) d (json_encode v @ r) = Some (v, r)"
  shows "reads_back v"
  unfolding reads_back_def
proof (intro allI impI)
  fix f d r
  assume a: "ends_value r" "d + json_depth v \<le> max_depth" "2 * length (json_encode v @ r) + 1 \<le> f"
  then obtain g where "f = Suc g" by (cases f) auto
  then show "read_value f d (json_encode v @ r) = Some (v, r)" using a assms [of r d g] by simp
qed

lemma reads_back_bool: "reads_back (JBool b)"
  by (rule reads_backI) (cases b; simp only: json_encode.simps read_value_word if_True if_False)

lemma all_read_back: "json_ok v \<Longrightarrow> reads_back v"
proof (induction v rule: json_ok.induct)
  case (1 t)
  show ?case by (rule reads_backI) (use 1 in \<open>simp del: read_value.simps add: read_value_number\<close>)
next
  case (2 s)
  show ?case by (rule reads_backI) (use 2 in \<open>simp del: read_value.simps add: read_value_string\<close>)
next
  case (3 vs)
  have vs: "\<forall>v\<in>set vs. reads_back v" using 3 by (auto simp: list_all_iff)
  show ?case
  proof (rule reads_backI)
    fix g d r
    assume a: "ends_value r" "d + json_depth (JArr vs) \<le> max_depth" "2 * length (json_encode (JArr vs) @ r) \<le> g"
    show "read_value (Suc g) d (json_encode (JArr vs) @ r) = Some (JArr vs, r)"
    proof (cases vs)
      case Nil
      then show ?thesis using a(2) by simp
    next
      case (Cons x xs)
      have "json_ok x" using 3 Cons by simp
      then obtain c t where x: "json_encode x = c # t" "\<not> json_space c" "c \<noteq> CHR '']''" using encode_head by blast
      with Cons obtain u where u: "commas (map json_encode vs) = c # u" using commas_head [of "json_encode x"] by auto
      have "d + 1 + json_depth v \<le> max_depth" if "v \<in> set vs" for v using a(2) depth_elem [OF that] by simp
      then have "read_elems g (Suc d) (commas (map json_encode vs) @ CHR '']'' # r) = Some (vs, r)"
        using a(3) vs Cons by (intro read_elems_back) auto
      then show ?thesis using a(2) x u by simp
    qed
  qed
next
  case (4 kvs)
  have kvs: "\<forall>kv\<in>set kvs. valid_utf8 (fst kv) \<and> reads_back (snd kv)" using 4 by (fastforce simp: list_all_iff)
  show ?case
  proof (rule reads_backI)
    fix g d r
    assume a: "ends_value r" "d + json_depth (JObj kvs) \<le> max_depth" "2 * length (json_encode (JObj kvs) @ r) \<le> g"
    show "read_value (Suc g) d (json_encode (JObj kvs) @ r) = Some (JObj kvs, r)"
    proof (cases kvs)
      case Nil
      then show ?thesis using a(2) by simp
    next
      case (Cons x xs)
      obtain u where u: "commas (map member kvs) = CHR 0x22 # u"
        using Cons commas_head [of "member x"] by (auto simp: member_def json_string_def)
      have "d + 1 + json_depth (snd kv) \<le> max_depth" if "kv \<in> set kvs" for kv using a(2) depth_member [OF that] by simp
      then have "read_members g (Suc d) (commas (map member kvs) @ CHR ''}'' # r) = Some (kvs, r)"
        using a(3) kvs Cons unfolding encode_object by (intro read_members_back) auto
      then show ?thesis using a(2) u unfolding encode_object by simp
    qed
  qed
next
  case "5_1"
  show ?case by (rule reads_backI) (simp only: json_encode.simps read_value_word)
next
  case "5_2"
  show ?case by (rule reads_back_bool)
qed

text \<open>Encoding a document and reading the text gives the document back.\<close>

lemma json_roundtrip: "json_ok v \<Longrightarrow> json_depth v \<le> max_depth \<Longrightarrow> json_parse (json_encode v) = Some v"
  using reads_backD [OF all_read_back, of v "[]" 0 "2 * length (json_encode v) + 1"]
  by (simp add: json_parse_def skip_space_def)

end
