(* ===== verification/BindCodec.thy ===== *)
theory BindCodec imports Bind GoJson begin

text \<open>
  The JSON and YAML codecs of \<open>Bind\<close> in \<^verbatim>\<open>bind.go\<close>.  A YAML node is the fields the code reads; decoding one into
  a list of strings is \<open>yaml.v3\<close>'s, the parameter \<open>decode\<close>.
\<close>

subsection \<open>JSON\<close>

datatype codec_error =
    JsonError
  | ShapeError                  \<comment> \<open>neither a string nor an array of strings\<close>
  | BindError bind_error

text \<open>\<open>json.Unmarshal\<close> into a \<open>[]string\<close>; a \<open>null\<close> leaves the zero value.\<close>

fun string_elems :: "json list \<Rightarrow> string list option" where
  "string_elems [] = Some []"
| "string_elems (v # vs) =
     (case (v, string_elems vs) of
        (JStr s, Some ss) \<Rightarrow> Some (s # ss)
      | (JNull, Some ss) \<Rightarrow> Some ([] # ss)
      | _ \<Rightarrow> None)"

definition unmarshal_strings :: "string \<Rightarrow> string list option" where
  "unmarshal_strings data =
     (case json_parse data of Some (JArr vs) \<Rightarrow> string_elems vs | Some JNull \<Rightarrow> Some [] | _ \<Rightarrow> None)"

definition bind_set_result :: "bind \<Rightarrow> string list \<Rightarrow> codec_error option \<times> bind" where
  "bind_set_result b ss = (case bind_set b ss of (err, b') \<Rightarrow> (map_option BindError err, b'))"

definition bind_unmarshal_json :: "string \<Rightarrow> bind \<Rightarrow> codec_error option \<times> bind" where
  "bind_unmarshal_json raw b =
     (let data = trim_space raw in
      if data = [] \<or> data = ''null'' then (None, [])
      else if hd data = CHR 0x22 then
        (case unmarshal_string data of None \<Rightarrow> (Some JsonError, b) | Some s \<Rightarrow> bind_set_result b [s])
      else
        (case unmarshal_strings data of None \<Rightarrow> (Some ShapeError, b) | Some ss \<Rightarrow> bind_set_result b ss))"

definition bind_marshal_json :: "bind \<Rightarrow> string" where
  "bind_marshal_json b =
     (case b of
        [] \<Rightarrow> ''null''
      | [a] \<Rightarrow> json_encode (JStr a)
      | _ \<Rightarrow> json_encode (JArr (map JStr b)))"

subsection \<open>YAML\<close>

record yaml_node =
  yn_tag :: string
  yn_scalar :: bool              \<comment> \<open>\<open>Kind == ScalarNode\<close>\<close>
  yn_value :: string

definition bind_unmarshal_yaml ::
    "(yaml_node \<Rightarrow> string list option) \<Rightarrow> yaml_node option \<Rightarrow> bind \<Rightarrow> codec_error option \<times> bind" where
  "bind_unmarshal_yaml decode value b =
     (case value of
        None \<Rightarrow> (None, [])
      | Some n \<Rightarrow>
          if yn_tag n = ''!!null'' \<or> (yn_scalar n \<and> yn_value n = []) then (None, [])
          else if yn_scalar n then bind_set_result b [yn_value n]
          else (case decode n of None \<Rightarrow> (Some ShapeError, b) | Some ss \<Rightarrow> bind_set_result b ss))"

subsection \<open>Properties\<close>

definition solid :: "char \<Rightarrow> bool" where
  "solid c \<longleftrightarrow> char_code c < 128 \<and> \<not> ascii_space c"

lemma trim_head_solid: "solid c \<Longrightarrow> trim_head ws (c # s) = c # s"
  by (subst trim_head.simps) (simp add: solid_def)

lemma trim_space_solid: "solid c \<Longrightarrow> solid d \<Longrightarrow> trim_space (c # s @ [d]) = c # s @ [d]"
  by (simp add: trim_space_def trim_head_solid)

lemma solid_quotes: "solid CHR 0x22" "solid CHR ''[''" "solid CHR '']''" "solid CHR ''n''" "solid CHR ''l''"
  by code_simp+

lemma string_elems_strings: "string_elems (map JStr ss) = Some ss"
  by (induction ss) auto

lemma depth_strings: "foldr max (map json_depth (map JStr ss)) 0 = 0"
  by (induction ss) auto

lemma parse_null: "trim_space ''null'' = ''null''"
  using trim_space_solid [of "CHR ''n''" "CHR ''l''" "''ul''"] solid_quotes by simp

text \<open>Reading what was written hands the same list to \<open>set\<close>.\<close>

lemma unmarshal_marshal:
  assumes "b \<noteq> []" "list_all valid_utf8 b"
  shows "bind_unmarshal_json (bind_marshal_json b) old = bind_set_result old b"
proof (cases "\<exists>a. b = [a]")
  case True
  then obtain a where b: "b = [a]" by blast
  have m: "bind_marshal_json [a] = CHR 0x22 # json_escape a @ [CHR 0x22]" by (simp add: bind_marshal_json_def json_string_def)
  have "json_parse (json_encode (JStr a)) = Some (JStr a)" using assms(2) b by (intro json_roundtrip) simp_all
  then have "unmarshal_string (CHR 0x22 # json_escape a @ [CHR 0x22]) = Some a"
    by (simp add: unmarshal_string_def json_string_def)
  then show ?thesis
    using trim_space_solid [OF solid_quotes(1,1), of "json_escape a"]
    by (simp add: bind_unmarshal_json_def m b Let_def)
next
  case False
  then have m: "bind_marshal_json b = CHR ''['' # commas (map json_encode (map JStr b)) @ [CHR '']'']"
    using assms(1) by (auto simp: bind_marshal_json_def split: list.split)
  have "json_parse (json_encode (JArr (map JStr b))) = Some (JArr (map JStr b))"
  proof (rule json_roundtrip)
    show "json_ok (JArr (map JStr b))" using assms(2) by (auto simp: list_all_iff)
    show "json_depth (JArr (map JStr b)) \<le> max_depth" unfolding json_depth.simps depth_strings by (simp add: max_depth_def)
  qed
  then have "unmarshal_strings (CHR ''['' # commas (map json_encode (map JStr b)) @ [CHR '']'']) = Some b"
    by (simp add: unmarshal_strings_def string_elems_strings)
  then show ?thesis
    using trim_space_solid [OF solid_quotes(2,3), of "commas (map json_encode (map JStr b))"]
    by (simp add: bind_unmarshal_json_def m Let_def)
qed

text \<open>
  C5.  Round trip: a list of addresses the parser produced, its entries valid UTF-8 and without a space at their
  ends, is written so that reading it gives the same list, whatever the receiver held before; the empty list
  is written as \<open>null\<close>.  The second condition is needed (\<open>bind_json_padded\<close>): an address \<^verbatim>\<open>[ a]:1\<close> is
  accepted, its canonical form begins with a space, and reading trims it.
\<close>

theorem bind_json_roundtrip:
  assumes "parse_bind_list ss = Inr b \<or> b = []" "\<forall>a\<in>set b. trim_space a = a \<and> valid_utf8 a"
  shows "bind_unmarshal_json (bind_marshal_json b) old = (None, b)"
proof (cases "b = []")
  case True
  then show ?thesis by (simp add: bind_marshal_json_def bind_unmarshal_json_def parse_null)
next
  case False
  then have "parse_bind_list b = Inr b" using assms parse_bind_list_stable by blast
  moreover have "list_all valid_utf8 b" using assms(2) by (auto simp: list_all_iff)
  ultimately show ?thesis using unmarshal_marshal [OF False, of old] by (simp add: bind_set_result_def bind_set_def)
qed

theorem bind_json_roundtrip_witness:
  "bind_unmarshal_json (bind_marshal_json ['':8080'', ''[::1]:90'']) [''old:1''] = (None, ['':8080'', ''[::1]:90''])"
proof -
  have "parse_bind_list ['' :8080'', ''[::1]:90''] = Inr ['':8080'', ''[::1]:90'']" by code_simp
  moreover have "\<forall>a\<in>set ['':8080'', ''[::1]:90'']. trim_space a = a \<and> valid_utf8 a" by code_simp
  ultimately show ?thesis using bind_json_roundtrip by blast
qed

lemma bind_json_padded:
  "parse_bind_list [''[ a]:1''] = Inr ['' a:1'']"
  "bind_unmarshal_json (bind_marshal_json ['' a:1'']) [] = (None, [''a:1''])"
  by code_simp+

definition bind_ok :: "bind \<Rightarrow> bool" where
  "bind_ok b \<longleftrightarrow> distinct b \<and> list_all canonical_bind b"

lemma bind_set_result_ok:
  "case bind_set_result b ss of (None, b') \<Rightarrow> bind_ok b' | (Some e, b') \<Rightarrow> b' = b"
  using parse_bind_loop_ok [of "[]" "[]" ss]
  by (auto simp: bind_set_result_def bind_set_def parse_bind_list_def bind_ok_def split: sum.split)

text \<open>
  A codec call that fails leaves the receiver as it was, and one that succeeds leaves a list that is empty or
  canonical: every entry well formed, no two alike - for JSON text and for YAML nodes, whatever the YAML
  library decodes.
\<close>

theorem bind_codecs_all_or_nothing:
  "(case bind_unmarshal_json text b of (None, b') \<Rightarrow> bind_ok b' | (Some e, b') \<Rightarrow> b' = b)
   \<and> (case bind_unmarshal_yaml decode node b of (None, b') \<Rightarrow> bind_ok b' | (Some e, b') \<Rightarrow> b' = b)"
  using bind_set_result_ok [of b]
  by (simp add: bind_unmarshal_json_def bind_unmarshal_yaml_def bind_ok_def Let_def split: option.split)

end
