(* ===== verification/Meter.thy ===== *)
theory Meter imports GoStrings "HOL-Library.AList" "HOL-Library.Char_ord" "HOL-Library.List_Lexorder" begin

text \<open>
  \<^verbatim>\<open>metrics.go\<close> and the recording half of \<^verbatim>\<open>server.go\<close>: the request meter (hits per key and status
  class, summed nanoseconds and number of samples per key, the in-flight gauge), the functions that
  add one sample to it, and the rendering of a meter as metric samples.

  A Go map is an association list without duplicate keys (\<^const>\<open>map_of\<close> looks up, \<^const>\<open>AList.update\<close>
  stores; a missing number reads as 0), so that rendering can sort its keys.  Counters are uint64 words
  that wrap; a duration is an int64 word, and \<open>uint64(duration)\<close> is the same word.  The value of a metric is
  kept as the integer the code converts to float64 as its last step.
\<close>

subsection \<open>The meter\<close>

record meter =
  mt_total :: "(string \<times> (string \<times> uint64) list) list"
  mt_sum :: "(string \<times> uint64) list"
  mt_count :: "(string \<times> uint64) list"
  mt_in_flight :: "64 word"

definition new_request_meter :: meter where
  "new_request_meter = \<lparr>mt_total = [], mt_sum = [], mt_count = [], mt_in_flight = 0\<rparr>"

definition look :: "('k \<times> uint64) list \<Rightarrow> 'k \<Rightarrow> uint64" where
  "look m k = (case map_of m k of None \<Rightarrow> 0 | Some n \<Rightarrow> n)"

definition classes_of :: "meter \<Rightarrow> string \<Rightarrow> (string \<times> uint64) list" where
  "classes_of m key = (case map_of (mt_total m) key of None \<Rightarrow> [] | Some cs \<Rightarrow> cs)"

text \<open>The locked region shared by \<open>recordMeter\<close> and \<open>recordHTTP\<close>.\<close>

definition meter_add :: "meter \<Rightarrow> string \<Rightarrow> string \<Rightarrow> duration \<Rightarrow> meter" where
  "meter_add m key cls d =
     (let classes = classes_of m key in
      m\<lparr>mt_total := AList.update key (AList.update cls (look classes cls + 1) classes) (mt_total m),
        mt_sum := AList.update key (look (mt_sum m) key + d) (mt_sum m),
        mt_count := AList.update key (look (mt_count m) key + 1) (mt_count m)\<rparr>)"

definition status_class :: "int \<Rightarrow> string" where
  "status_class status =
     (if status < 100 \<or> status > 599 then ''unknown''
      else itoa (status div 100) @ ''xx'')"

text \<open>\<open>graphqlKeySep\<close> is the ASCII unit separator.\<close>

definition key_sep :: char where
  "key_sep = CHR 0x1F"

definition instr_app :: string where
  "instr_app = ''app''"

definition instr_http_peek :: string where
  "instr_http_peek = ''http_peek''"

definition http_instr_middleware :: string where
  "http_instr_middleware = ''middleware''"

definition http_instr_app :: string where
  "http_instr_app = ''app''"

definition clamp_duration :: "duration \<Rightarrow> duration" where
  "clamp_duration d = (if sint d < 0 then 0 else d)"

text \<open>\<open>recordMeter\<close>: \<open>None\<close> is a nil meter.\<close>

definition record_meter :: "meter option \<Rightarrow> string \<Rightarrow> int \<Rightarrow> duration \<Rightarrow> meter option" where
  "record_meter mo key status d =
     (case mo of
        None \<Rightarrow> None
      | Some m \<Rightarrow>
          let key' = (if key = [] then ''unknown'' else key);
              d' = clamp_duration d
          in Some (meter_add m key' (status_class status) d'))"

text \<open>The meters of a server.\<close>

record meters =
  ms_http :: "meter option"
  ms_ops :: "meter option"
  ms_resolvers :: "meter option"

definition new_meters :: meters where
  "new_meters = \<lparr>ms_http = Some new_request_meter, ms_ops = Some new_request_meter,
     ms_resolvers = Some new_request_meter\<rparr>"

text \<open>\<open>recordHTTP\<close>: the argument \<open>None\<close> is a nil server.\<close>

definition record_http :: "meters option \<Rightarrow> string \<Rightarrow> int \<Rightarrow> duration \<Rightarrow> string \<Rightarrow> meters option" where
  "record_http so route status d instrumentation =
     (case so of
        None \<Rightarrow> None
      | Some s \<Rightarrow>
          (case ms_http s of
             None \<Rightarrow> Some s
           | Some m \<Rightarrow>
               let route' = (if route = [] then ''unknown'' else route);
                   instr' = (if instrumentation = [] then http_instr_app else instrumentation);
                   d' = clamp_duration d;
                   key = route' @ [key_sep] @ instr'
               in Some (s\<lparr>ms_http := Some (meter_add m key (status_class status) d')\<rparr>)))"

definition record_app :: "meters option \<Rightarrow> string \<Rightarrow> int \<Rightarrow> duration \<Rightarrow> meters option" where
  "record_app s route status d = record_http s route status d http_instr_app"

definition record_http_from_middleware :: "meters option \<Rightarrow> string \<Rightarrow> int \<Rightarrow> duration \<Rightarrow> meters option" where
  "record_http_from_middleware s route status d = record_http s route status d http_instr_middleware"

definition record_graphql_op :: "meters \<Rightarrow> string \<Rightarrow> int \<Rightarrow> duration \<Rightarrow> string \<Rightarrow> meters" where
  "record_graphql_op s operation status d instrumentation =
     (let op' = (if operation = [] then ''unknown'' else operation);
          instr' = (if instrumentation = [] then instr_app else instrumentation)
      in s\<lparr>ms_ops := record_meter (ms_ops s) (op' @ [key_sep] @ instr') status d\<rparr>)"

definition record_graphql_metric :: "meters \<Rightarrow> string \<Rightarrow> int \<Rightarrow> duration \<Rightarrow> meters" where
  "record_graphql_metric s operation status d = record_graphql_op s operation status d instr_app"

definition record_graphql_metric_from_http_peek :: "meters \<Rightarrow> string \<Rightarrow> int \<Rightarrow> duration \<Rightarrow> meters" where
  "record_graphql_metric_from_http_peek s operation status d =
     record_graphql_op s operation status d instr_http_peek"

definition record_graphql_resolver_metric :: "meters \<Rightarrow> string \<Rightarrow> string \<Rightarrow> int \<Rightarrow> duration \<Rightarrow> meters" where
  "record_graphql_resolver_metric s operation resolver status d =
     (let op' = (if operation = [] then ''unknown'' else operation);
          res' = (if resolver = [] then ''unknown'' else resolver)
      in s\<lparr>ms_resolvers := record_meter (ms_resolvers s)
             (op' @ [key_sep] @ res' @ [key_sep] @ instr_app) status d\<rparr>)"

subsection \<open>Rendering\<close>

datatype metric_value =
    FConst nat            \<comment> \<open>a float64 literal\<close>
  | FUint uint64          \<comment> \<open>\<open>float64(n)\<close> of a uint64\<close>
  | FInt "64 word"        \<comment> \<open>\<open>float64(n)\<close> of an int64\<close>
  | FSeconds uint64       \<comment> \<open>\<open>float64(n) / float64(time.Second)\<close>\<close>

datatype metric_type = Gauge | Counter

type_synonym labels = "(string \<times> string) list"

record metric =
  me_name :: string
  me_help :: string
  me_value :: metric_value
  me_labels :: labels
  me_type :: metric_type

definition copy_string_map :: "labels \<Rightarrow> labels" where
  "copy_string_map ls = foldl (\<lambda>out (k, v). AList.update k v out) [] ls"

definition bool_to_float :: "bool \<Rightarrow> metric_value" where
  "bool_to_float b = (if b then FConst 1 else FConst 0)"

text \<open>The sorted class samples of one key.\<close>

definition class_samples ::
  "string \<Rightarrow> string \<Rightarrow> (string \<Rightarrow> labels) \<Rightarrow> (string \<times> uint64) list \<Rightarrow> metric list" where
  "class_samples name help lab classes =
     map (\<lambda>c. \<lparr>me_name = name, me_help = help, me_value = FUint (look classes c),
               me_labels = lab c, me_type = Counter\<rparr>)
       (sort (map fst classes))"

definition duration_samples :: "string \<Rightarrow> string \<Rightarrow> string \<Rightarrow> labels \<Rightarrow> meter \<Rightarrow> string \<Rightarrow> metric list" where
  "duration_samples base help_sum help_count labels m key =
     [\<lparr>me_name = base @ ''_sum'', me_help = help_sum, me_value = FSeconds (look (mt_sum m) key),
        me_labels = copy_string_map labels, me_type = Counter\<rparr>,
      \<lparr>me_name = base @ ''_count'', me_help = help_count, me_value = FUint (look (mt_count m) key),
        me_labels = copy_string_map labels, me_type = Counter\<rparr>]"

text \<open>One key of the HTTP meter, as \<open>(*Server).Metrics\<close> renders it.\<close>

definition http_key_parts :: "string \<Rightarrow> string \<times> string" where
  "http_key_parts key =
     (case cut_byte key_sep key of Some (route, instr) \<Rightarrow> (route, instr) | None \<Rightarrow> (key, http_instr_app))"

definition render_http_key :: "string \<Rightarrow> meter \<Rightarrow> string \<Rightarrow> metric list" where
  "render_http_key name m key =
     (let (route, instrumentation) = http_key_parts key;
          labels = [(''component'', name), (''route'', route), (''http_instrumentation'', instrumentation)]
      in class_samples ''http_requests_total''
           (''Completed HTTP requests by route, status class, and '' @ ''instrumentation (middleware|app).'')
           (\<lambda>c. [(''component'', name), (''route'', route), (''status_class'', c),
                 (''http_instrumentation'', instrumentation)])
           (classes_of m key)
         @ duration_samples ''http_request_duration_seconds''
             ''Total HTTP request duration in seconds.''
             ''Number of HTTP request duration observations.'' labels m key)"

definition render_http_meter :: "string \<Rightarrow> meter \<Rightarrow> metric list" where
  "render_http_meter name m = concat (map (render_http_key name m) (sort (map fst (mt_total m))))"

text \<open>The labels \<open>renderGraphQLMeter\<close> makes of a key; \<open>resolver\<close> is \<open>kind == "resolver"\<close>.\<close>

definition graphql_labels :: "string \<Rightarrow> bool \<Rightarrow> string \<Rightarrow> labels" where
  "graphql_labels component resolver key =
     (let parts = split_byte key_sep key in
      (''component'', component) #
      (if resolver then
         (if length parts \<ge> 3 then
            [(''operation'', parts ! 0), (''resolver'', parts ! 1), (''graphql_instrumentation'', parts ! 2)]
          else if length parts = 2 then
            [(''operation'', parts ! 0), (''resolver'', parts ! 1), (''graphql_instrumentation'', instr_app)]
          else
            [(''operation'', key), (''resolver'', ''unknown''), (''graphql_instrumentation'', instr_app)])
       else
         (if length parts \<ge> 2 then
            [(''operation'', parts ! 0), (''graphql_instrumentation'', parts ! 1)]
          else
            [(''operation'', key), (''graphql_instrumentation'', instr_app)])))"

definition render_graphql_key :: "string \<Rightarrow> bool \<Rightarrow> meter \<Rightarrow> string \<Rightarrow> metric list" where
  "render_graphql_key component resolver m key =
     (let labels = graphql_labels component resolver key in
      class_samples
        (if resolver then ''http_graphql_resolvers_total'' else ''http_graphql_operations_total'')
        (if resolver
         then ''Completed GraphQL resolver calls by operation, resolver, status class, and instrumentation (app|http_peek).''
         else ''Completed GraphQL operation calls by operation, status class, and instrumentation (app|http_peek).'')
        (\<lambda>c. AList.update ''status_class'' c (copy_string_map labels))
        (classes_of m key)
      @ duration_samples
          (if resolver then ''http_graphql_resolver_duration_seconds''
           else ''http_graphql_operation_duration_seconds'')
          (if resolver then ''Total GraphQL resolver duration in seconds.''
           else ''Total GraphQL operation duration in seconds.'')
          (if resolver then ''Number of GraphQL resolver duration observations.''
           else ''Number of GraphQL operation duration observations.'')
          labels m key)"

definition render_graphql_meter :: "meter \<Rightarrow> string \<Rightarrow> bool \<Rightarrow> metric list" where
  "render_graphql_meter m component resolver =
     concat (map (render_graphql_key component resolver m) (sort (map fst (mt_total m))))"

subsection \<open>The contract of a counter store\<close>

text \<open>
  What the recording functions rely on: adding one sample changes the hits of its key and class, the sum
  and the number of samples of its key, and nothing else.  The lemmas of the contract give the readings
  after any sequence of samples, as counts over the sequence.
\<close>

locale counter_store =
  fixes add :: "'m \<Rightarrow> string \<Rightarrow> string \<Rightarrow> duration \<Rightarrow> 'm"
    and hits :: "'m \<Rightarrow> string \<Rightarrow> string \<Rightarrow> uint64"
    and nanos :: "'m \<Rightarrow> string \<Rightarrow> uint64"
    and samples :: "'m \<Rightarrow> string \<Rightarrow> uint64"
  assumes hits_add: "hits (add m k c d) k' c' = hits m k' c' + (if k' = k \<and> c' = c then 1 else 0)"
    and nanos_add: "nanos (add m k c d) k' = nanos m k' + (if k' = k then d else 0)"
    and samples_add: "samples (add m k c d) k' = samples m k' + (if k' = k then 1 else 0)"
begin

lemma hits_fold:
  "hits (foldl (\<lambda>m (k, c, d). add m k c d) m ss) k c =
     hits m k c + of_nat (length (filter (\<lambda>(k', c', d). k' = k \<and> c' = c) ss))"
  by (induction ss arbitrary: m) (auto simp: hits_add split: if_splits)

lemma nanos_fold:
  "nanos (foldl (\<lambda>m (k, c, d). add m k c d) m ss) k =
     nanos m k + sum_list (map (\<lambda>(k', c', d). d) (filter (\<lambda>(k', c', d). k' = k) ss))"
  by (induction ss arbitrary: m) (auto simp: nanos_add)

lemma samples_fold:
  "samples (foldl (\<lambda>m (k, c, d). add m k c d) m ss) k =
     samples m k + of_nat (length (filter (\<lambda>(k', c', d). k' = k) ss))"
  by (induction ss arbitrary: m) (auto simp: samples_add)

end

definition meter_hits :: "meter \<Rightarrow> string \<Rightarrow> string \<Rightarrow> uint64" where
  "meter_hits m key cls = look (classes_of m key) cls"

definition meter_nanos :: "meter \<Rightarrow> string \<Rightarrow> uint64" where
  "meter_nanos m key = look (mt_sum m) key"

definition meter_samples :: "meter \<Rightarrow> string \<Rightarrow> uint64" where
  "meter_samples m key = look (mt_count m) key"

lemma look_update: "look (AList.update k v m) k' = (if k' = k then v else look m k')"
  by (simp add: look_def update_conv)

lemma classes_of_add:
  "classes_of (meter_add m k c d) k' =
     (if k' = k then AList.update c (look (classes_of m k) c + 1) (classes_of m k) else classes_of m k')"
  by (simp add: classes_of_def meter_add_def Let_def update_conv)

lemma look_Nil [simp]: "look [] k = 0"
  by (simp add: look_def)

lemma new_meter_reads [meter_simps]:
  "meter_hits new_request_meter k c = 0" "meter_nanos new_request_meter k = 0"
  "meter_samples new_request_meter k = 0" "classes_of new_request_meter k = []"
  by (simp_all add: meter_hits_def meter_nanos_def meter_samples_def classes_of_def new_request_meter_def)

interpretation mc: counter_store meter_add meter_hits meter_nanos meter_samples
  by unfold_locales
    (auto simp: meter_hits_def meter_nanos_def meter_samples_def classes_of_add look_update,
     auto simp: meter_add_def Let_def look_update)

subsection \<open>The consistency invariant\<close>

text \<open>
  Keys are unique, the three maps have the same keys, and for every key the hits over its status classes
  add up to the number of its samples (as words: both wrap together).
\<close>

definition meter_inv :: "meter \<Rightarrow> bool" where
  "meter_inv m \<longleftrightarrow>
     distinct (map fst (mt_total m)) \<and> distinct (map fst (mt_sum m)) \<and> distinct (map fst (mt_count m))
     \<and> fst ` set (mt_sum m) = fst ` set (mt_total m)
     \<and> fst ` set (mt_count m) = fst ` set (mt_total m)
     \<and> (\<forall>key. distinct (map fst (classes_of m key))
            \<and> sum_list (map snd (classes_of m key)) = look (mt_count m) key)"

lemma sum_update:
  "distinct (map fst cs) \<Longrightarrow>
   sum_list (map snd (AList.update c (look cs c + 1) cs)) = sum_list (map snd cs) + (1 :: uint64)"
proof (induction cs)
  case Nil
  then show ?case by simp
next
  case (Cons p cs)
  obtain k v where p: "p = (k, v)" by fastforce
  show ?case
  proof (cases "k = c")
    case True
    then show ?thesis by (simp add: p look_def)
  next
    case False
    then have "look (p # cs) c = look cs c" by (simp add: p look_def)
    with False Cons show ?thesis by (simp add: p)
  qed
qed

lemma fst_set_update: "fst ` set (AList.update k v m) = insert k (fst ` set m)"
  by (induction m) auto

lemma meter_inv_new: "meter_inv new_request_meter"
  by (simp add: meter_inv_def new_request_meter_def classes_of_def)

lemma meter_inv_add: "meter_inv m \<Longrightarrow> meter_inv (meter_add m k c d)"
proof -
  assume inv: "meter_inv m"
  let ?m = "meter_add m k c d"
  have maps: "distinct (map fst (mt_total ?m))" "distinct (map fst (mt_sum ?m))" "distinct (map fst (mt_count ?m))"
    "fst ` set (mt_sum ?m) = fst ` set (mt_total ?m)" "fst ` set (mt_count ?m) = fst ` set (mt_total ?m)"
    using inv by (simp_all add: meter_inv_def meter_add_def Let_def distinct_update fst_set_update)
  have "distinct (map fst (classes_of ?m key)) \<and> sum_list (map snd (classes_of ?m key)) = look (mt_count ?m) key" for key
  proof (cases "key = k")
    case True
    with inv show ?thesis
      by (simp add: meter_inv_def classes_of_add distinct_update sum_update)
        (simp add: meter_add_def Let_def look_update)
  next
    case False
    with inv show ?thesis
      by (simp add: meter_inv_def classes_of_add) (simp add: meter_add_def Let_def look_update)
  qed
  with maps show ?thesis unfolding meter_inv_def by blast
qed

lemma meter_inv_record: "meter_inv m \<Longrightarrow> record_meter (Some m) key status d = Some m' \<Longrightarrow> meter_inv m'"
  by (auto simp: record_meter_def Let_def meter_inv_add)

text \<open>A sample as \<open>recordMeter\<close> normalises it.\<close>

definition normal_sample :: "string \<times> int \<times> duration \<Rightarrow> string \<times> string \<times> duration" where
  "normal_sample s = (case s of (key, status, d) \<Rightarrow>
     (if key = [] then ''unknown'' else key, status_class status, clamp_duration d))"

lemma record_meter_fold:
  "foldl (\<lambda>mo (key, status, d). record_meter mo key status d) (Some m) ss =
     Some (foldl (\<lambda>m (k, c, d). meter_add m k c d) m (map normal_sample ss))"
  by (induction ss arbitrary: m) (auto simp: record_meter_def normal_sample_def Let_def)

lemma meter_inv_fold: "meter_inv m \<Longrightarrow> meter_inv (foldl (\<lambda>m (k, c, d). meter_add m k c d) m ss)"
  by (induction ss arbitrary: m) (auto simp: meter_inv_add)

lemma classes_bounded_fold:
  assumes "set (map fst (classes_of m key)) \<subseteq> C" "\<forall>(k, c, d) \<in> set ts. c \<in> C"
  shows "set (map fst (classes_of (foldl (\<lambda>m (k, c, d). meter_add m k c d) m ts) key)) \<subseteq> C"
  using assms
proof (induction ts arbitrary: m)
  case Nil
  then show ?case by simp
next
  case (Cons t ts)
  obtain k c d where t: "t = (k, c, d)" by (cases t)
  have "set (map fst (classes_of (meter_add m k c d) key)) \<subseteq> C"
    using Cons.prems t by (auto simp: classes_of_add fst_set_update simp flip: set_map)
      (auto simp: fst_set_update)
  then show ?case using Cons.IH [of "meter_add m k c d"] Cons.prems t by simp
qed

lemma status_class_set:
  "status_class status \<in> {''1xx'', ''2xx'', ''3xx'', ''4xx'', ''5xx'', ''unknown''}"
proof -
  have "status div 100 \<in> {1, 2, 3, 4, 5}" if "100 \<le> status" "status \<le> 599"
    using that by simp presburger
  moreover have "itoa 1 = ''1''" "itoa 2 = ''2''" "itoa 3 = ''3''" "itoa 4 = ''4''" "itoa 5 = ''5''"
    by code_simp+
  ultimately show ?thesis by (auto simp: status_class_def)
qed

subsection \<open>What is rendered for one recorded operation\<close>

lemma split_key1: "key_sep \<notin> set a \<Longrightarrow> key_sep \<notin> set b \<Longrightarrow> split_byte key_sep (a @ [key_sep] @ b) = [a, b]"
  by (simp add: split_byte_append split_byte_no_sep)

lemma split_key2: "key_sep \<notin> set a \<Longrightarrow> split_byte key_sep (a @ [key_sep] @ b) = a # split_byte key_sep b"
  by (simp add: split_byte_append)

lemma instr_no_sep [simp]: "key_sep \<notin> set instr_app" "key_sep \<notin> set instr_http_peek"
  by (simp_all add: key_sep_def instr_app_def instr_http_peek_def)

lemma instr_nonempty [simp]: "instr_app \<noteq> []" "instr_http_peek \<noteq> []"
  by (simp_all add: instr_app_def instr_http_peek_def)

lemma record_ops_new:
  "op \<noteq> [] \<Longrightarrow> instr \<noteq> [] \<Longrightarrow>
   ms_ops (record_graphql_op new_meters op status d instr) =
     Some (meter_add new_request_meter (op @ [key_sep] @ instr) (status_class status) (clamp_duration d))"
  by (simp add: record_graphql_op_def record_meter_def new_meters_def Let_def)

lemma keys_add: "map fst (mt_total (meter_add new_request_meter k c d)) = [k]"
  by (simp add: meter_add_def new_request_meter_def Let_def)

lemma copy_string_map_distinct: "distinct (map fst ls) \<Longrightarrow> copy_string_map ls = ls"
proof -
  have step: "foldl (\<lambda>out (k, v). AList.update k v out) out ls = out @ ls"
    if "distinct (map fst (out @ ls))" for out ls :: labels
    using that
  proof (induction ls arbitrary: out)
    case Nil
    then show ?case by simp
  next
    case (Cons p ls)
    obtain k v where p: "p = (k, v)" by fastforce
    have "k \<notin> fst ` set out" using Cons.prems p by auto
    then have "AList.update k v out = out @ [(k, v)]"
      by (induction out) auto
    moreover have "distinct (map fst ((out @ [(k, v)]) @ ls))" using Cons.prems p by auto
    ultimately show ?case using Cons.IH [of "out @ [(k, v)]"] p by simp
  qed
  assume "distinct (map fst ls)"
  then show ?thesis using step [of "[]" ls] by (simp add: copy_string_map_def)
qed

lemma classes_of_new_add: "classes_of (meter_add new_request_meter k c d) k = [(c, 1)]"
  by (simp add: classes_of_add meter_simps)

lemma reads_new_add:
  "look (mt_sum (meter_add new_request_meter k c d)) k = d"
  "look (mt_count (meter_add new_request_meter k c d)) k = 1"
  using mc.nanos_add [of new_request_meter k c d k] mc.samples_add [of new_request_meter k c d k]
  by (simp_all add: meter_nanos_def meter_samples_def new_request_meter_def)

subsection \<open>Properties\<close>

text \<open>
  C7.  A meter counts every sample: after any sequence of \<open>recordMeter\<close> calls on a fresh meter, the hits of
  a key and class, the summed nanoseconds and the number of samples of a key are the number and the sum
  over the samples with that (normalised) key and class, modulo \<open>2 ^ 64\<close>, with negative durations as zero.
\<close>

theorem record_meter_counts:
  "\<exists>m. foldl (\<lambda>mo (key, status, d). record_meter mo key status d) (Some new_request_meter) ss = Some m
     \<and> (\<forall>key cls. meter_hits m key cls =
           of_nat (length (filter (\<lambda>(k, c, d). k = key \<and> c = cls) (map normal_sample ss))))
     \<and> (\<forall>key. meter_nanos m key =
           sum_list (map (\<lambda>(k, c, d). d) (filter (\<lambda>(k, c, d). k = key) (map normal_sample ss))))
     \<and> (\<forall>key. meter_samples m key =
           of_nat (length (filter (\<lambda>(k, c, d). k = key) (map normal_sample ss))))"
  unfolding record_meter_fold mc.hits_fold mc.nanos_fold mc.samples_fold
  by (simp add: mc.hits_fold mc.nanos_fold mc.samples_fold meter_simps)

text \<open>
  C8.  Every meter reached by recording is consistent: the three maps have the same keys, each once, the
  hits of a key over its status classes add up to its number of samples, and only the six bounded class
  labels occur.
\<close>

theorem recorded_meter_consistent:
  "\<exists>m. foldl (\<lambda>mo (key, status, d). record_meter mo key status d) (Some new_request_meter) ss = Some m
     \<and> meter_inv m
     \<and> set (map fst (classes_of m key)) \<subseteq> {''1xx'', ''2xx'', ''3xx'', ''4xx'', ''5xx'', ''unknown''}"
proof -
  have "\<forall>(k, c, d) \<in> set (map normal_sample ss). c \<in> {''1xx'', ''2xx'', ''3xx'', ''4xx'', ''5xx'', ''unknown''}"
    using status_class_set by (auto simp: normal_sample_def)
  then have "set (map fst (classes_of (foldl (\<lambda>m (k, c, d). meter_add m k c d) new_request_meter
      (map normal_sample ss)) key)) \<subseteq> {''1xx'', ''2xx'', ''3xx'', ''4xx'', ''5xx'', ''unknown''}"
    by (intro classes_bounded_fold) (auto simp: meter_simps)
  then show ?thesis
    unfolding record_meter_fold using meter_inv_fold [OF meter_inv_new] by blast
qed

text \<open>
  From a fresh server, one operation recorded from the HTTP peek is rendered as exactly three samples (a
  hit of its status class, the duration sum, the number of observations), labelled with the operation name
  and \<open>graphql_instrumentation=http_peek\<close>, for every name without the separator byte.
\<close>

theorem peek_operation_rendered:
  assumes "op \<noteq> []" "key_sep \<notin> set op"
  shows "\<exists>m. ms_ops (record_graphql_metric_from_http_peek new_meters op status d) = Some m \<and>
     map (\<lambda>x. (me_name x, me_value x, me_labels x)) (render_graphql_meter m component False) =
       [(''http_graphql_operations_total'', FUint 1,
         [(''component'', component), (''operation'', op), (''graphql_instrumentation'', ''http_peek''),
          (''status_class'', status_class status)]),
        (''http_graphql_operation_duration_seconds_sum'', FSeconds (clamp_duration d),
         [(''component'', component), (''operation'', op), (''graphql_instrumentation'', ''http_peek'')]),
        (''http_graphql_operation_duration_seconds_count'', FUint 1,
         [(''component'', component), (''operation'', op), (''graphql_instrumentation'', ''http_peek'')])]"
proof -
  let ?k = "op @ [key_sep] @ instr_http_peek"
  let ?m = "meter_add new_request_meter ?k (status_class status) (clamp_duration d)"
  have m: "ms_ops (record_graphql_metric_from_http_peek new_meters op status d) = Some ?m"
    using assms by (simp only: record_graphql_metric_from_http_peek_def record_ops_new instr_nonempty not_False_eq_True)
  have labels: "graphql_labels component False ?k =
      [(''component'', component), (''operation'', op), (''graphql_instrumentation'', ''http_peek'')]"
    using assms(2) by (simp only: graphql_labels_def split_key1 instr_no_sep not_False_eq_True)
      (simp add: instr_http_peek_def)
  have r: "render_graphql_meter ?m component False = render_graphql_key component False ?m ?k"
    unfolding render_graphql_meter_def keys_add by (simp only: sort_key_simps insort_key.simps list.map concat.simps append_Nil2)
  show ?thesis
    unfolding m option.inject
    by (rule exI [of _ ?m])
      (simp only: r render_graphql_key_def labels class_samples_def duration_samples_def classes_of_new_add
        reads_new_add Let_def, simp add: look_def copy_string_map_distinct)
qed

lemma peek_operation_rendered_witness:
  "\<exists>m. ms_ops (record_graphql_metric_from_http_peek new_meters ''Me'' 200 5) = Some m \<and>
     map me_labels (render_graphql_meter m ''http'' False) \<noteq> []"
proof -
  have "''Me'' \<noteq> []" "key_sep \<notin> set ''Me''" by (simp_all add: key_sep_def)
  from peek_operation_rendered [OF this, of 200 5 "''http''"] show ?thesis
    by (metis (no_types, lifting) list.map_disc_iff list.distinct(1))
qed

text \<open>
  The separator is not excluded from operation names.  A peeked operation named \<open>A<US>app\<close> is rendered
  with the label \<open>graphql_instrumentation=app\<close>, and together with a genuine application recording of \<open>A\<close>
  the meter renders two samples with the same name and the same labels.
\<close>

theorem separator_forges_instrumentation:
  "case ms_ops (record_graphql_metric_from_http_peek
               (record_graphql_metric new_meters ''A'' 200 5) (''A'' @ [key_sep] @ ''app'') 200 7) of
     None \<Rightarrow> False
   | Some m \<Rightarrow>
       list_all (\<lambda>x. map_of (me_labels x) ''graphql_instrumentation'' = Some ''app'')
         (render_graphql_meter m ''http'' False)
       \<and> \<not> distinct (map (\<lambda>x. (me_name x, me_labels x)) (render_graphql_meter m ''http'' False))"
  by code_simp

end
