(* ===== verification/Scrape.thy ===== *)
theory Scrape imports Meter begin

text \<open>
  What a scrape of the HTTP meter says, end to end: from the samples the recording functions of \<^verbatim>\<open>server.go\<close>
  took to the series \<open>(*Server).Metrics\<close> in \<^verbatim>\<open>metrics.go\<close> renders.  A series is a metric name with its labels.
\<close>

definition series :: "metric list \<Rightarrow> ((string \<times> labels) \<times> metric_value) list" where
  "series ms = map (\<lambda>x. ((me_name x, me_labels x), me_value x)) ms"

subsection \<open>Association lists put together from owned parts\<close>

lemma concat_owned:
  assumes "distinct keys" "\<And>k. k \<in> set keys \<Longrightarrow> distinct (map fst (g k))"
    and "\<And>k x. k \<in> set keys \<Longrightarrow> x \<in> fst ` set (g k) \<Longrightarrow> own x = k"
  shows "distinct (map fst (concat (map g keys)))
    \<and> map_of (concat (map g keys)) x = (if own x \<in> set keys then map_of (g (own x)) x else None)"
  using assms
proof (induction keys)
  case Nil
  then show ?case by simp
next
  case (Cons k ks)
  have IH: "distinct (map fst (concat (map g ks)))"
    "map_of (concat (map g ks)) x = (if own x \<in> set ks then map_of (g (own x)) x else None)"
    using Cons by simp_all
  have "fst ` set (g k) \<inter> fst ` set (concat (map g ks)) = {}"
  proof (rule equals0I)
    fix y
    assume "y \<in> fst ` set (g k) \<inter> fst ` set (concat (map g ks))"
    then obtain k' where "y \<in> fst ` set (g k)" "k' \<in> set ks" "y \<in> fst ` set (g k')" by auto
    then show False using Cons.prems(1,3) by (metis distinct.simps(2) list.set_intros)
  qed
  then have "distinct (map fst (concat (map g (k # ks))))"
    using Cons.prems(2) [of k] IH(1) by (simp add: map_concat [symmetric])
  moreover have "map_of (g k) x = None" if "own x \<noteq> k"
    using that Cons.prems(3) [of k x] by (auto simp: map_of_eq_None_iff)
  ultimately show ?case using IH(2) Cons.prems(1)
    by (cases "own x = k") (auto simp: map_add_def split: option.split)
qed

lemma map_of_keyed: "inj f \<Longrightarrow> map_of (map (\<lambda>c. ((n, f c), v c)) cs) (n, f c) = (if c \<in> set cs then Some (v c) else None)"
  by (induction cs) (auto simp: inj_eq)

lemma map_of_other: "n' \<noteq> n \<Longrightarrow> map_of (map (\<lambda>c. ((n, f c), v c)) cs) (n', l) = None"
  by (induction cs) auto

subsection \<open>The keys and the series of a meter\<close>

definition http_labels :: "string \<Rightarrow> string \<Rightarrow> string \<Rightarrow> labels" where
  "http_labels component route instr = [(''component'', component), (''route'', route), (''http_instrumentation'', instr)]"

definition http_class_labels :: "string \<Rightarrow> string \<Rightarrow> string \<Rightarrow> string \<Rightarrow> labels" where
  "http_class_labels component route instr cls =
     [(''component'', component), (''route'', route), (''status_class'', cls), (''http_instrumentation'', instr)]"

definition http_key :: "string \<Rightarrow> string \<Rightarrow> string" where
  "http_key route instr = route @ [key_sep] @ instr"

lemma cut_http_key: "key_sep \<notin> set r \<Longrightarrow> cut_byte key_sep (http_key r i) = Some (r, i)"
  by (simp add: http_key_def cut_byte_append)

lemma http_key_eq: "key_sep \<notin> set r \<Longrightarrow> key_sep \<notin> set r' \<Longrightarrow> http_key r i = http_key r' i' \<longleftrightarrow> r = r' \<and> i = i'"
  by (metis cut_http_key option.inject prod.inject)

lemma http_key_parts_key: "key_sep \<notin> set r \<Longrightarrow> http_key_parts (http_key r i) = (r, i)"
  by (simp add: http_key_parts_def cut_http_key)

lemma series_key:
  assumes "key_sep \<notin> set r"
  shows "series (render_http_key component m (http_key r i)) =
    map (\<lambda>c. ((''http_requests_total'', http_class_labels component r i c), FUint (meter_hits m (http_key r i) c)))
      (sort (map fst (classes_of m (http_key r i))))
    @ [((''http_request_duration_seconds_sum'', http_labels component r i), FSeconds (meter_nanos m (http_key r i))),
       ((''http_request_duration_seconds_count'', http_labels component r i), FUint (meter_samples m (http_key r i)))]"
  by (simp add: series_def render_http_key_def http_key_parts_key [OF assms] class_samples_def duration_samples_def
      copy_string_map_distinct http_labels_def http_class_labels_def meter_hits_def meter_nanos_def meter_samples_def Let_def)

text \<open>The key a series belongs to.\<close>

definition series_owner :: "string \<times> labels \<Rightarrow> string" where
  "series_owner x = (case (map_of (snd x) ''route'', map_of (snd x) ''http_instrumentation'') of
     (Some r, Some i) \<Rightarrow> http_key r i | _ \<Rightarrow> [])"

lemma series_owner_labels [simp]:
  "series_owner (n, http_labels component r i) = http_key r i"
  "series_owner (n, http_class_labels component r i c) = http_key r i"
  by (simp_all add: series_owner_def http_labels_def http_class_labels_def)

lemma class_labels_inj: "inj (http_class_labels component r i)"
  by (simp add: inj_def http_class_labels_def)

text \<open>Every key of the meter is a route without the separator and an instrumentation.\<close>

definition http_keys_ok :: "meter \<Rightarrow> bool" where
  "http_keys_ok m \<longleftrightarrow> (\<forall>key \<in> set (map fst (mt_total m)). \<exists>r i. key_sep \<notin> set r \<and> key = http_key r i)"

lemma scrape_series:
  assumes "meter_inv m" "http_keys_ok m"
  shows "distinct (map fst (series (render_http_meter component m)))
    \<and> map_of (series (render_http_meter component m)) x =
        (if series_owner x \<in> set (map fst (mt_total m)) then map_of (series (render_http_key component m (series_owner x))) x else None)"
proof -
  let ?keys = "sort (map fst (mt_total m))"
  let ?g = "\<lambda>k. series (render_http_key component m k)"
  have keys: "\<exists>r i. key_sep \<notin> set r \<and> k = http_key r i" if "k \<in> set ?keys" for k
    using that assms(2) by (auto simp: http_keys_ok_def)
  have inner: "distinct (map fst (?g k)) \<and> (\<forall>x \<in> fst ` set (?g k). series_owner x = k)" if k: "k \<in> set ?keys" for k
  proof -
    obtain r i where r: "key_sep \<notin> set r" "k = http_key r i" using keys [OF k] by blast
    have "distinct (map fst (classes_of m k))" using assms(1) by (simp add: meter_inv_def)
    then have "distinct (map (\<lambda>c. (''http_requests_total'', http_class_labels component r i c)) (sort (map fst (classes_of m k))))"
      by (simp add: distinct_map inj_on_def http_class_labels_def)
    then show ?thesis unfolding r(2) series_key [OF r(1)] by (auto simp: comp_def)
  qed
  have "series (render_http_meter component m) = concat (map ?g ?keys)"
    by (simp add: series_def render_http_meter_def map_concat comp_def)
  moreover have "distinct ?keys" using assms(1) by (simp add: meter_inv_def)
  ultimately show ?thesis using concat_owned [of ?keys ?g series_owner x] inner by simp
qed

lemma scrape_lookup:
  assumes "meter_inv m" "http_keys_ok m" "key_sep \<notin> set r"
  shows "map_of (series (render_http_meter component m)) (''http_requests_total'', http_class_labels component r i c) =
      (if c \<in> set (map fst (classes_of m (http_key r i))) then Some (FUint (meter_hits m (http_key r i) c)) else None)"
    "map_of (series (render_http_meter component m)) (''http_request_duration_seconds_sum'', http_labels component r i) =
      (if http_key r i \<in> set (map fst (mt_total m)) then Some (FSeconds (meter_nanos m (http_key r i))) else None)"
    "map_of (series (render_http_meter component m)) (''http_request_duration_seconds_count'', http_labels component r i) =
      (if http_key r i \<in> set (map fst (mt_total m)) then Some (FUint (meter_samples m (http_key r i))) else None)"
proof -
  have none: "classes_of m (http_key r i) = []" if "http_key r i \<notin> set (map fst (mt_total m))"
    using that by (simp add: classes_of_def map_of_eq_None_iff [THEN iffD2])
  show "map_of (series (render_http_meter component m)) (''http_requests_total'', http_class_labels component r i c) =
      (if c \<in> set (map fst (classes_of m (http_key r i))) then Some (FUint (meter_hits m (http_key r i) c)) else None)"
    using none by (simp add: scrape_series [OF assms(1,2)] series_key [OF assms(3)] map_add_def map_of_keyed
        [OF class_labels_inj] del: set_map)
  show "map_of (series (render_http_meter component m)) (''http_request_duration_seconds_sum'', http_labels component r i) =
      (if http_key r i \<in> set (map fst (mt_total m)) then Some (FSeconds (meter_nanos m (http_key r i))) else None)"
    "map_of (series (render_http_meter component m)) (''http_request_duration_seconds_count'', http_labels component r i) =
      (if http_key r i \<in> set (map fst (mt_total m)) then Some (FUint (meter_samples m (http_key r i))) else None)"
    by (simp_all add: scrape_series [OF assms(1,2)] series_key [OF assms(3)] map_add_def map_of_other del: set_map)
qed

subsection \<open>Recording and rendering together\<close>

text \<open>A recorded request: route, status, duration and instrumentation; and what it counts for.\<close>

definition http_sample :: "string \<times> int \<times> duration \<times> string \<Rightarrow> string \<times> string \<times> string \<times> duration" where
  "http_sample s = (case s of (route, status, d, instr) \<Rightarrow>
     (if route = [] then ''unknown'' else route, if instr = [] then http_instr_app else instr,
      status_class status, clamp_duration d))"

definition record_all :: "(string \<times> int \<times> duration \<times> string) list \<Rightarrow> meters option \<Rightarrow> meters option" where
  "record_all ss so = foldl (\<lambda>so (route, status, d, instr). record_http so route status d instr) so ss"

definition key_sample :: "string \<times> string \<times> string \<times> duration \<Rightarrow> string \<times> string \<times> duration" where
  "key_sample s = (case s of (r, i, c, d) \<Rightarrow> (http_key r i, c, d))"

lemma record_all_fold:
  "record_all ss (Some ms) = (case ms_http ms of
     None \<Rightarrow> Some ms
   | Some m \<Rightarrow> Some (ms\<lparr>ms_http := Some (foldl (\<lambda>m (k, c, d). meter_add m k c d) m (map (key_sample \<circ> http_sample) ss))\<rparr>))"
  by (induction ss arbitrary: ms)
    (auto simp: record_all_def record_http_def http_sample_def key_sample_def http_key_def Let_def split: option.split)

lemma total_keys_fold:
  "fst ` set (mt_total (foldl (\<lambda>m (k, c, d). meter_add m k c d) m ts)) = fst ` set (mt_total m) \<union> fst ` set ts"
proof (induction ts arbitrary: m)
  case Nil
  then show ?case by simp
next
  case (Cons t ts)
  obtain k c d where t: "t = (k, c, d)" by (cases t)
  have "fst ` set (mt_total (meter_add m k c d)) = insert k (fst ` set (mt_total m))"
    by (simp add: meter_add_def Let_def fst_set_update)
  with Cons t show ?case by auto
qed

lemma class_names_fold:
  "fst ` set (classes_of (foldl (\<lambda>m (k, c, d). meter_add m k c d) m ts) key) =
     fst ` set (classes_of m key) \<union> {c. \<exists>d. (key, c, d) \<in> set ts}"
proof (induction ts arbitrary: m)
  case Nil
  then show ?case by simp
next
  case (Cons t ts)
  obtain k c d where t: "t = (k, c, d)" by (cases t)
  have "fst ` set (classes_of (meter_add m k c d) key) = fst ` set (classes_of m key) \<union> (if key = k then {c} else {})"
    by (simp add: classes_of_add fst_set_update)
  with Cons t show ?case by auto
qed

text \<open>The samples of a series, and what they add up to.\<close>

definition samples_of where
  "samples_of ss r i = filter (\<lambda>(r', i', c, d). r' = r \<and> i' = i) (map http_sample ss)"

definition hits_in where
  "hits_in ss r i c = length (filter (\<lambda>(r', i', c', d). c' = c) (samples_of ss r i))"

lemma sample_route_ok: "key_sep \<notin> set (fst s) \<Longrightarrow> key_sep \<notin> set (fst (http_sample s))"
  by (cases s) (auto simp: http_sample_def key_sep_def)

lemma key_samples_filter:
  assumes "\<forall>s \<in> set ss. key_sep \<notin> set (fst s)" "key_sep \<notin> set r"
  shows "filter (\<lambda>(k, c, d). k = http_key r i) (map (key_sample \<circ> http_sample) ss) = map key_sample (samples_of ss r i)"
proof -
  have "(case key_sample (http_sample s) of (k, c, d) \<Rightarrow> k = http_key r i) =
      (case http_sample s of (r', i', c, d) \<Rightarrow> r' = r \<and> i' = i)" if "s \<in> set ss" for s
    using assms that sample_route_ok [of s] by (cases "http_sample s") (auto simp: key_sample_def http_key_eq)
  then have "filter (\<lambda>s. case key_sample (http_sample s) of (k, c, d) \<Rightarrow> k = http_key r i) ss =
      filter (\<lambda>s. case http_sample s of (r', i', c, d) \<Rightarrow> r' = r \<and> i' = i) ss"
    by (rule filter_cong [OF refl])
  then show ?thesis
    by (simp only: samples_of_def filter_map comp_def list.map_comp)
qed

lemma filter_key_class:
  "filter (\<lambda>(k', c', d). k' = k \<and> c' = c) ts = filter (\<lambda>(k', c', d). c' = c) (filter (\<lambda>(k', c', d). k' = k) ts)"
  by (induction ts) auto

lemma filter_key_class_ex: "(\<exists>d. (k, c, d) \<in> set ts) \<longleftrightarrow> filter (\<lambda>(k', c', d). k' = k \<and> c' = c) ts \<noteq> []"
  by (induction ts) auto

lemma filter_key_ex: "k \<in> fst ` set ts \<longleftrightarrow> filter (\<lambda>(k', c', d). k' = k) ts \<noteq> []"
  by (induction ts) auto

lemma filter_class_map: "filter (\<lambda>(k, c', d). c' = c) (map key_sample xs) = map key_sample (filter (\<lambda>(r', i', c', d). c' = c) xs)"
  by (induction xs) (auto simp: key_sample_def)

lemma sum_key_sample: "map (\<lambda>(k, c, d). d) (map key_sample xs) = map (\<lambda>(r, i, c, d). d) xs"
  by (induction xs) (auto simp: key_sample_def)

text \<open>
  C9.  A scrape reports exactly what was recorded.  After any sequence of HTTP recordings on a fresh server, under
  routes without the separator byte, no series appears twice; the series of a route, an instrumentation and a status
  class is there exactly when such a request was recorded, and its value is their number; the duration series of a
  route and an instrumentation carry the number of their requests and the sum of their durations (modulo \<open>2 ^ 64\<close>).
\<close>

theorem scrape_reports_samples:
  assumes routes: "\<forall>s \<in> set ss. key_sep \<notin> set (fst s)" "key_sep \<notin> set r"
  shows "\<exists>ms m. record_all ss (Some new_meters) = Some ms \<and> ms_http ms = Some m \<and>
    (let sc = series (render_http_meter component m); ds = map (\<lambda>(r', i', c, d). d) (samples_of ss r i) in
     distinct (map fst sc)
     \<and> map_of sc (''http_requests_total'', http_class_labels component r i c) =
         (if hits_in ss r i c = 0 then None else Some (FUint (of_nat (hits_in ss r i c))))
     \<and> map_of sc (''http_request_duration_seconds_sum'', http_labels component r i) =
         (if ds = [] then None else Some (FSeconds (sum_list ds)))
     \<and> map_of sc (''http_request_duration_seconds_count'', http_labels component r i) =
         (if ds = [] then None else Some (FUint (of_nat (length ds)))))"
proof -
  let ?ts = "map (key_sample \<circ> http_sample) ss"
  let ?m = "foldl (\<lambda>m (k, c, d). meter_add m k c d) new_request_meter ?ts"
  let ?key = "http_key r i"
  have run: "record_all ss (Some new_meters) = Some (new_meters\<lparr>ms_http := Some ?m\<rparr>)"
    by (simp add: record_all_fold new_meters_def)
  have inv: "meter_inv ?m" by (rule meter_inv_fold [OF meter_inv_new])
  have keys: "fst ` set (mt_total ?m) = fst ` set ?ts"
    by (simp only: total_keys_fold) (simp add: new_request_meter_def)
  have ok: "http_keys_ok ?m"
  proof -
    have "\<exists>r i. key_sep \<notin> set r \<and> fst (key_sample (http_sample s)) = http_key r i" if "s \<in> set ss" for s
      using routes(1) that sample_route_ok [of s] by (cases "http_sample s") (auto simp: key_sample_def)
    then show ?thesis unfolding http_keys_ok_def set_map keys by auto
  qed
  note f = key_samples_filter [OF routes, of i]
  have "?key \<in> fst ` set (mt_total ?m) \<longleftrightarrow> samples_of ss r i \<noteq> []"
    unfolding keys filter_key_ex f map_is_Nil_conv ..
  then have present: "?key \<in> set (map fst (mt_total ?m)) \<longleftrightarrow> samples_of ss r i \<noteq> []"
    by (subst set_map)
  have hits: "filter (\<lambda>(k, c', d). k = ?key \<and> c' = c) ?ts =
      map key_sample (filter (\<lambda>(r', i', c', d). c' = c) (samples_of ss r i))"
    by (simp only: filter_key_class f filter_class_map)
  have named: "c \<in> set (map fst (classes_of ?m ?key)) \<longleftrightarrow> hits_in ss r i c \<noteq> 0"
  proof -
    have "c \<in> fst ` set (classes_of ?m ?key) \<longleftrightarrow> hits_in ss r i c \<noteq> 0"
      unfolding class_names_fold Un_iff mem_Collect_eq filter_key_class_ex hits by (simp add: hits_in_def meter_simps)
    then show ?thesis by (subst set_map)
  qed
  have "meter_hits ?m ?key c = of_nat (hits_in ss r i c)" "meter_samples ?m ?key = of_nat (length (samples_of ss r i))"
    "meter_nanos ?m ?key = sum_list (map (\<lambda>(r', i', c, d). d) (samples_of ss r i))"
    by (simp_all only: mc.hits_fold mc.samples_fold mc.nanos_fold hits f sum_key_sample)
      (simp_all add: meter_simps hits_in_def)
  note nums = this
  have sc: "distinct (map fst (series (render_http_meter component ?m)))"
    using scrape_series [OF inv ok] by blast
  show ?thesis
    by (rule exI [of _ "new_meters\<lparr>ms_http := Some ?m\<rparr>"], rule exI [of _ ?m])
      (simp only: run Let_def sc scrape_lookup [OF inv ok routes(2)] present named nums, simp)
qed

definition three_requests :: "(string \<times> int \<times> duration \<times> string) list" where
  "three_requests = [(''GET /'', 200, 5, http_instr_middleware), (''GET /'', 204, 7, http_instr_middleware), ([], 404, 1, [])]"

theorem scrape_reports_samples_witness:
  "\<exists>ms m. record_all three_requests (Some new_meters) = Some ms \<and> ms_http ms = Some m \<and>
     map_of (series (render_http_meter ''http'' m))
       (''http_requests_total'', http_class_labels ''http'' ''GET /'' http_instr_middleware ''2xx'') = Some (FUint 2)"
proof -
  have r: "\<forall>s \<in> set three_requests. key_sep \<notin> set (fst s)" "key_sep \<notin> set ''GET /''"
    by (simp_all add: three_requests_def key_sep_def)
  have "hits_in three_requests ''GET /'' http_instr_middleware ''2xx'' = 2" by code_simp
  with scrape_reports_samples [OF r, of "''http''" http_instr_middleware "''2xx''"] show ?thesis
    unfolding Let_def by auto
qed

end
