(* ===== verification/Prog.thy ===== *)
theory Prog imports Request Meter begin

text \<open>
  Handlers as programs.  A \<open>http.Handler\<close> talks to its response writer, its request body and its
  environment (clock, random source, logger, meters); everything else it does is computation.  It is
  modelled as a program: a tree of operations, each with the continuation for its result.  The value of
  a handler program is how the call ended and the request as it was left (the pointee of
  \<open>*http.Request\<close>).

  A type that wraps a response writer or a body is a layer: its methods are small programs over the
  operations below it, and \<open>lay\<close> runs a program on top of it.  A machine interprets operations on a state;
  \<open>run_lay\<close> says that a layer over a machine is again a machine, so that a property of every handler is an
  invariant of one step of that machine.
\<close>

subsection \<open>Operations and results\<close>

datatype gerr =
    EEOF
  | EMaxBytes int          \<comment> \<open>\<open>*http.MaxBytesError\<close>\<close>
  | EHijacked
  | EBodyNotAllowed
  | EContentLength
  | ENotSupported
  | EMsg string
  | EWrap string gerr      \<comment> \<open>an error that unwraps to another\<close>

text \<open>Bytes handed to a writer: as they are, or compressed by a \<open>gzip.Writer\<close> (its stream in call order).\<close>

datatype payload = Raw string | Gz string | GzSync | GzEnd

datatype iface = IFlusher | IHijacker | IPusher

datatype level = LInfo | LWarn | LError

datatype logger = AppLogger | DefaultLogger | NilLogger

datatype attr = AStr string | AInt int

datatype op =
    HGet string | HSet string string | HAdd string string | HDel string   \<comment> \<open>\<open>w.Header()\<close>\<close>
  | WHeader int | WWrite payload | WFlush | WHijack | WPush string
  | WHas iface                                                            \<comment> \<open>type assertion on the writer\<close>
  | BRead nat | BClose                                                    \<comment> \<open>\<open>r.Body\<close>, with \<open>len(p)\<close>\<close>
  | Now | Rand nat | Stack | TrustedHosts | AskLogger
  | Log logger level string "(string \<times> attr) list"
  | InFlight int
  | RecMiddleware string int duration
  | RecPeek string int duration

datatype res =
    RUnit
  | RStr string
  | RBool bool
  | RStrs "string list"
  | RTime "64 word"
  | RRand string bool              \<comment> \<open>the filled buffer, and whether the source failed\<close>
  | RWrote nat "gerr option"
  | RErr "gerr option"
  | RRead string "gerr option"
  | RPanic string

datatype 'a prog = Ret 'a | Op op "res \<Rightarrow> 'a prog"

datatype outcome = Returned | Panicked string

primrec bindP :: "'a prog \<Rightarrow> ('a \<Rightarrow> 'b prog) \<Rightarrow> 'b prog" where
  "bindP (Ret a) q = q a"
| "bindP (Op e k) q = Op e (\<lambda>r. bindP (k r) q)"

type_synonym handler = "request \<Rightarrow> (outcome \<times> request) prog"
type_synonym middleware = "handler \<Rightarrow> handler"

fun res_str :: "res \<Rightarrow> string" where
  "res_str (RStr s) = s"
| "res_str _ = []"

fun res_bool :: "res \<Rightarrow> bool" where
  "res_bool (RBool b) = b"
| "res_bool _ = False"

fun res_time :: "res \<Rightarrow> 64 word" where
  "res_time (RTime t) = t"
| "res_time _ = 0"

fun res_rand :: "res \<Rightarrow> string \<times> bool" where
  "res_rand (RRand s b) = (s, b)"
| "res_rand _ = ([], True)"

fun res_strs :: "res \<Rightarrow> string list" where
  "res_strs (RStrs xs) = xs"
| "res_strs _ = []"

text \<open>A panic inside a call ends the caller.\<close>

definition unless_panic :: "res \<Rightarrow> outcome prog \<Rightarrow> outcome prog" where
  "unless_panic r p = (case r of RPanic m \<Rightarrow> Ret (Panicked m) | _ \<Rightarrow> p)"

text \<open>
  \<open>next.ServeHTTP(w, r.WithContext(ctx))\<close> and the like: the callee gets a shallow copy.  The header map is
  shared, the other fields the callee sets stay in the copy.
\<close>

definition serve_copy :: "handler \<Rightarrow> request \<Rightarrow> request \<Rightarrow> (outcome \<times> request) prog" where
  "serve_copy next r copy =
     bindP (next copy) (\<lambda>(out, r'). Ret (out, r\<lparr>rq_header := rq_header r'\<rparr>))"

subsection \<open>Layers and machines\<close>

primrec lay :: "('s \<Rightarrow> op \<Rightarrow> (res \<times> 's) prog) \<Rightarrow> 'a prog \<Rightarrow> 's \<Rightarrow> ('a \<times> 's) prog" where
  "lay f (Ret a) s = Ret (a, s)"
| "lay f (Op e k) s = bindP (f s e) (\<lambda>(r, s'). lay f (k r) s')"

type_synonym 'w machine = "'w \<Rightarrow> op \<Rightarrow> res \<times> 'w"

primrec run :: "'w machine \<Rightarrow> 'a prog \<Rightarrow> 'w \<Rightarrow> 'a \<times> 'w" where
  "run m (Ret a) w = (a, w)"
| "run m (Op e k) w = (let (r, w') = m w e in run m (k r) w')"

definition over :: "('s \<Rightarrow> op \<Rightarrow> (res \<times> 's) prog) \<Rightarrow> 'w machine \<Rightarrow> ('s \<times> 'w) machine" where
  "over f m = (\<lambda>(s, w) e. let ((r, s'), w') = run m (f s e) w in (r, (s', w')))"

text \<open>An operation a layer leaves to the layer below.\<close>

definition pass :: "op \<Rightarrow> 's \<Rightarrow> (res \<times> 's) prog" where
  "pass e s = Op e (\<lambda>r. Ret (r, s))"

lemma run_bind: "run m (bindP p q) w = (let (a, w') = run m p w in run m (q a) w')"
  by (induction p arbitrary: w) (auto simp: split: prod.splits)

lemma run_pass [simp]: "run m (pass e s) w = (let (r, w') = m w e in ((r, s), w'))"
  by (simp add: pass_def)

lemma bindP_Ret [simp]: "bindP p Ret = p"
  by (induction p) auto

lemma bindP_assoc: "bindP (bindP p q) r = bindP p (\<lambda>a. bindP (q a) r)"
  by (induction p) auto

lemma run_lay:
  "run m (lay f p s) w = (let (a, (s', w')) = run (over f m) p (s, w) in ((a, s'), w'))"
proof (induction p arbitrary: s w)
  case (Ret a)
  then show ?case by simp
next
  case (Op e k)
  show ?case
    by (simp add: run_bind over_def Op split: prod.splits)
qed

lemma lay_bind: "lay f (bindP p q) s = bindP (lay f p s) (\<lambda>(a, s'). lay f (q a) s')"
  by (induction p arbitrary: s) (auto simp: bindP_assoc split_def)

subsection \<open>Contracts of a machine\<close>

text \<open>The operations a program can issue, whatever the results are, all satisfy a predicate.\<close>

primrec ops_ok :: "(op \<Rightarrow> bool) \<Rightarrow> 'a prog \<Rightarrow> bool" where
  "ops_ok P (Ret a) = True"
| "ops_ok P (Op e k) = (P e \<and> (\<forall>r. ops_ok P (k r)))"

lemma ops_ok_bind: "ops_ok P p \<Longrightarrow> (\<And>a. ops_ok P (q a)) \<Longrightarrow> ops_ok P (bindP p q)"
  by (induction p) auto

lemma ops_ok_mono: "ops_ok P p \<Longrightarrow> (\<And>e. P e \<Longrightarrow> Q e) \<Longrightarrow> ops_ok Q p"
  by (induction p) auto

text \<open>Every value a program can end with satisfies a predicate.\<close>

primrec rets :: "('a \<Rightarrow> bool) \<Rightarrow> 'a prog \<Rightarrow> bool" where
  "rets Q (Ret a) = Q a"
| "rets Q (Op e k) = (\<forall>r. rets Q (k r))"

lemma rets_bind [simp]: "rets Q (bindP p q) = rets (\<lambda>a. rets Q (q a)) p"
  by (induction p) auto

lemma rets_mono: "rets P p \<Longrightarrow> (\<And>a. P a \<Longrightarrow> Q a) \<Longrightarrow> rets Q p"
  by (induction p) auto

lemma rets_run: "rets Q p \<Longrightarrow> Q (fst (run m p w))"
  by (induction p arbitrary: w) (auto split: prod.split)

text \<open>A layer whose methods only issue permitted operations.\<close>

definition layer_ok :: "(op \<Rightarrow> bool) \<Rightarrow> ('s \<Rightarrow> op \<Rightarrow> (res \<times> 's) prog) \<Rightarrow> bool" where
  "layer_ok P f \<longleftrightarrow> (\<forall>s e. P e \<longrightarrow> ops_ok P (f s e))"

lemma ops_ok_lay: "layer_ok P f \<Longrightarrow> ops_ok P p \<Longrightarrow> ops_ok P (lay f p s)"
proof (induction p arbitrary: s)
  case (Ret a)
  then show ?case by simp
next
  case (Op e k)
  have "ops_ok P (lay f (k r) s')" for r s'
    using Op.prems by (intro Op.IH [OF rangeI]) auto
  moreover have "ops_ok P (f s e)" using Op.prems by (simp add: layer_ok_def)
  ultimately show ?case by (auto intro: ops_ok_bind)
qed

lemma ops_ok_pass [simp]: "ops_ok P (pass e s) = P e"
  by (simp add: pass_def)

lemma ops_ok_all [simp]: "ops_ok (\<lambda>e. True) p"
  by (induction p) auto

text \<open>Every step of a permitted kind keeps an invariant; then every program of such steps does.\<close>

locale machine_invariant =
  fixes m :: "'w machine" and permitted :: "op \<Rightarrow> bool" and inv :: "'w \<Rightarrow> bool"
  assumes step: "permitted e \<Longrightarrow> inv w \<Longrightarrow> inv (snd (m w e))"
begin

lemma run_inv: "ops_ok permitted p \<Longrightarrow> inv w \<Longrightarrow> inv (snd (run m p w))"
proof (induction p arbitrary: w)
  case (Ret a)
  then show ?case by simp
next
  case (Op e k)
  obtain r w' where s: "m w e = (r, w')" by fastforce
  with step [of e w] Op.prems have "inv w'" by simp
  moreover have "ops_ok permitted (k r)" using Op.prems by simp
  ultimately have "inv (snd (run m (k r) w'))" by (rule Op.IH [OF rangeI, rotated])
  with s show ?case by simp
qed

text \<open>An invariant of the machine below is one of the machine a layer makes of it.\<close>

lemma over_invariant:
  fixes f :: "'s \<Rightarrow> op \<Rightarrow> (res \<times> 's) prog"
  assumes "layer_ok permitted f"
  shows "machine_invariant (over f m) permitted (\<lambda>sw. inv (snd sw))"
proof
  fix e and sw :: "'s \<times> 'w"
  assume "permitted e" "inv (snd sw)"
  then have "inv (snd (run m (f (fst sw) e) (snd sw)))"
    using assms by (intro run_inv) (simp_all add: layer_ok_def)
  then show "inv (snd (snd (over f m sw e)))" by (simp add: over_def case_prod_beta)
qed

end

text \<open>Every step moves along a preorder; then every program does.\<close>

locale machine_order =
  fixes m :: "'w machine" and le :: "'w \<Rightarrow> 'w \<Rightarrow> bool"
  assumes le_refl: "le w w"
    and le_trans: "le a b \<Longrightarrow> le b c \<Longrightarrow> le a c"
    and step_le: "le w (snd (m w e))"
begin

lemma run_le: "le w (snd (run m p w))"
proof (induction p arbitrary: w)
  case (Ret a)
  then show ?case by (simp add: le_refl)
next
  case (Op e k)
  obtain r w' where s: "m w e = (r, w')" by fastforce
  with step_le [of w e] have "le w w'" by simp
  moreover have "le w' (snd (run m (k r) w'))" using Op.IH by blast
  ultimately show ?case using s by (simp add: le_trans [of w w'])
qed

text \<open>Whatever a layer does, the machine below it moves along its preorder.\<close>

lemma over_order: "machine_order (over f m) (\<lambda>a b. le (snd a) (snd b))"
proof
  show "le (snd a) (snd a)" for a by (rule le_refl)
  show "le (snd a) (snd b) \<Longrightarrow> le (snd b) (snd c) \<Longrightarrow> le (snd a) (snd c)" for a b c by (rule le_trans)
  show "le (snd sw) (snd (snd (over f m sw e)))" for sw e
    using run_le by (simp add: over_def case_prod_beta)
qed

end

text \<open>
  Two machines that answer permitted operations alike on related states; then every program of such
  operations has the same value on both.
\<close>

locale machine_simulation =
  fixes m1 :: "'w machine" and m2 :: "'v machine" and permitted :: "op \<Rightarrow> bool" and rel :: "'w \<Rightarrow> 'v \<Rightarrow> bool"
  assumes sim: "permitted e \<Longrightarrow> rel w v \<Longrightarrow>
    fst (m1 w e) = fst (m2 v e) \<and> rel (snd (m1 w e)) (snd (m2 v e))"
begin

lemma run_sim:
  "ops_ok permitted p \<Longrightarrow> rel w v \<Longrightarrow>
   fst (run m1 p w) = fst (run m2 p v) \<and> rel (snd (run m1 p w)) (snd (run m2 p v))"
proof (induction p arbitrary: w v)
  case (Ret a)
  then show ?case by simp
next
  case (Op e k)
  obtain r w' where a: "m1 w e = (r, w')" by fastforce
  obtain q v' where b: "m2 v e = (q, v')" by fastforce
  have e: "permitted e" and k: "ops_ok permitted (k r)" using Op.prems by simp_all
  from sim [OF e Op.prems(2)] a b have "q = r" "rel w' v'" by auto
  with Op.IH [OF rangeI k, of w' v'] a b show ?case by simp
qed

end

end
