(* ===== verification/GoHttp.thy ===== *)
theory GoHttp imports Prog begin

text \<open>
  The world a handler program runs against, and \<open>net_step\<close>, the machine of \<open>net/http\<close> itself: the response
  writer of one request (\<open>http.response\<close>), the request body as the transport delivers it, and the
  environment.  A body is a script of reads; the clock, the random source, the trusted-host source and
  the failures of the connection are functions of how often they were asked.
\<close>

subsection \<open>The world\<close>

record world =
  wd_header :: header
  wd_wrote :: bool                       \<comment> \<open>the final header is sent\<close>
  wd_status :: int
  wd_sent :: header                      \<comment> \<open>the header snapshot that was sent\<close>
  wd_info :: "int list"                  \<comment> \<open>informational responses sent before it\<close>
  wd_cl :: "nat option"                  \<comment> \<open>declared Content-Length\<close>
  wd_body :: "payload list"              \<comment> \<open>body bytes accepted, in order\<close>
  wd_written :: nat
  wd_hijacked :: bool
  wd_caps :: "iface \<Rightarrow> bool"
  wd_hijack_err :: "gerr option"
  wd_write_err :: "nat \<Rightarrow> gerr option"
  wd_writes :: nat
  wd_frame_len :: "payload \<Rightarrow> nat"      \<comment> \<open>how many bytes a compressed frame has\<close>
  wd_body_nil :: bool
  wd_reads :: "(string \<times> gerr option) list"
  wd_final :: gerr
  wd_closed :: bool
  wd_clock :: "nat \<Rightarrow> 64 word"
  wd_ticks :: nat
  wd_random :: "nat \<Rightarrow> string \<times> bool"
  wd_rands :: nat
  wd_hosts :: "nat \<Rightarrow> string list"
  wd_asks :: nat
  wd_logger :: bool                      \<comment> \<open>the application's logger getter yields a logger\<close>
  wd_logs :: "(logger \<times> level \<times> string \<times> (string \<times> attr) list) list"
  wd_meters :: "meters option"

definition frame_size :: "(payload \<Rightarrow> nat) \<Rightarrow> payload \<Rightarrow> nat" where
  "frame_size f p = (case p of Raw s \<Rightarrow> length s | _ \<Rightarrow> f p)"

definition payload_len :: "world \<Rightarrow> payload \<Rightarrow> nat" where
  "payload_len w = frame_size (wd_frame_len w)"

definition body_allowed :: "int \<Rightarrow> bool" where
  "body_allowed status \<longleftrightarrow> \<not> (100 \<le> status \<and> status \<le> 199) \<and> status \<noteq> 204 \<and> status \<noteq> 304"

definition parse_digits :: "string \<Rightarrow> nat option" where
  "parse_digits s =
     (if s \<noteq> [] \<and> list_all is_digit s then Some (foldl (\<lambda>n c. n * 10 + (char_code c - 48)) 0 s) else None)"

text \<open>\<open>(*response).WriteHeader\<close>: informational codes are sent at once, the first final code is sent, later ones are not.\<close>

definition net_write_header :: "int \<Rightarrow> world \<Rightarrow> res \<times> world" where
  "net_write_header code w =
     (if wd_hijacked w \<or> wd_wrote w then (RUnit, w)
      else if code < 100 \<or> code > 999 then (RPanic ''invalid WriteHeader code'', w)
      else if code \<le> 199 \<and> code \<noteq> 101 then (RUnit, w\<lparr>wd_info := wd_info w @ [code]\<rparr>)
      else (RUnit, w\<lparr>wd_wrote := True, wd_status := code, wd_sent := wd_header w,
                     wd_cl := parse_digits (hget (wd_header w) ''Content-Length'')\<rparr>))"

definition net_write :: "payload \<Rightarrow> world \<Rightarrow> res \<times> world" where
  "net_write p w0 =
     (if wd_hijacked w0 then (RWrote 0 (Some EHijacked), w0)
      else
        let w = snd (net_write_header 200 w0);
            n = payload_len w p;
            w' = w\<lparr>wd_written := wd_written w + n, wd_writes := wd_writes w + 1\<rparr>
        in if n = 0 then (RWrote 0 None, w)
           else if \<not> body_allowed (wd_status w) then (RWrote 0 (Some EBodyNotAllowed), w)
           else if (case wd_cl w of None \<Rightarrow> False | Some cl \<Rightarrow> wd_written w + n > cl)
             then (RWrote 0 (Some EContentLength), w\<lparr>wd_written := wd_written w + n\<rparr>)
           else (case wd_write_err w (wd_writes w) of
                   Some e \<Rightarrow> (RWrote 0 (Some e), w')
                 | None \<Rightarrow> (RWrote n None, w'\<lparr>wd_body := wd_body w @ [p]\<rparr>)))"

definition net_hijack :: "world \<Rightarrow> res \<times> world" where
  "net_hijack w =
     (if wd_hijacked w then (RErr (Some EHijacked), w)
      else case wd_hijack_err w of
             Some e \<Rightarrow> (RErr (Some e), w)
           | None \<Rightarrow> (RErr None, w\<lparr>wd_hijacked := True\<rparr>))"

definition net_read :: "nat \<Rightarrow> world \<Rightarrow> res \<times> world" where
  "net_read n w =
     (if wd_body_nil w then (RPanic ''nil pointer dereference'', w)
      else case wd_reads w of
        [] \<Rightarrow> (if n = 0 then RRead [] None else RRead [] (Some (wd_final w)), w)
      | (chunk, err) # rest \<Rightarrow>
          if n < length chunk then (RRead (take n chunk) None, w\<lparr>wd_reads := (drop n chunk, err) # rest\<rparr>)
          else (RRead chunk err, w\<lparr>wd_reads := rest\<rparr>))"

text \<open>\<open>rand.Read\<close> into a zeroed buffer of \<open>n\<close> bytes.\<close>

definition fill :: "nat \<Rightarrow> string \<Rightarrow> string" where
  "fill n bs = take n (bs @ replicate n (CHR 0x00))"

definition on_meters :: "world \<Rightarrow> (meters \<Rightarrow> meters) \<Rightarrow> world" where
  "on_meters w f = w\<lparr>wd_meters := map_option f (wd_meters w)\<rparr>"

definition in_flight_add :: "int \<Rightarrow> meters \<Rightarrow> meters" where
  "in_flight_add d ms = ms\<lparr>ms_http := map_option (\<lambda>m. m\<lparr>mt_in_flight := mt_in_flight m + word_of_int d\<rparr>) (ms_http ms)\<rparr>"

definition has_http_meter :: "world \<Rightarrow> bool" where
  "has_http_meter w = (case wd_meters w of None \<Rightarrow> False | Some ms \<Rightarrow> ms_http ms \<noteq> None)"

fun net_step :: "world machine" where
  "net_step w (HGet k) = (RStr (hget (wd_header w) k), w)"
| "net_step w (HSet k v) = (RUnit, w\<lparr>wd_header := hset (wd_header w) k v\<rparr>)"
| "net_step w (HAdd k v) = (RUnit, w\<lparr>wd_header := hadd (wd_header w) k v\<rparr>)"
| "net_step w (HDel k) = (RUnit, w\<lparr>wd_header := hdel (wd_header w) k\<rparr>)"
| "net_step w (WHeader c) = net_write_header c w"
| "net_step w (WWrite p) = net_write p w"
| "net_step w WFlush = (RUnit, snd (net_write_header 200 w))"
| "net_step w WHijack = net_hijack w"
| "net_step w (WPush t) = (RErr (Some ENotSupported), w)"
| "net_step w (WHas i) = (RBool (wd_caps w i), w)"
| "net_step w (BRead n) = net_read n w"
| "net_step w BClose = (RErr None, w\<lparr>wd_closed := True\<rparr>)"
| "net_step w Now = (RTime (wd_clock w (wd_ticks w)), w\<lparr>wd_ticks := wd_ticks w + 1\<rparr>)"
| "net_step w (Rand n) =
     (let (bs, failed) = wd_random w (wd_rands w)
      in (RRand (fill n bs) failed, w\<lparr>wd_rands := wd_rands w + 1\<rparr>))"
| "net_step w Stack = (RStr ''goroutine'', w)"
| "net_step w TrustedHosts = (RStrs (wd_hosts w (wd_asks w)), w\<lparr>wd_asks := wd_asks w + 1\<rparr>)"
| "net_step w AskLogger = (RBool (wd_logger w), w)"
| "net_step w (Log l lv msg attrs) =
     (if l = NilLogger then (RPanic ''nil pointer dereference'', w)
      else (RUnit, w\<lparr>wd_logs := wd_logs w @ [(l, lv, msg, attrs)]\<rparr>))"
| "net_step w (InFlight d) =
     (if has_http_meter w then (RUnit, on_meters w (in_flight_add d))
      else (RPanic ''nil pointer dereference'', w))"
| "net_step w (RecMiddleware route st d) =
     (RUnit, w\<lparr>wd_meters := record_http_from_middleware (wd_meters w) route st d\<rparr>)"
| "net_step w (RecPeek name st d) = (RUnit, on_meters w (\<lambda>ms. record_graphql_metric_from_http_peek ms name st d))"

text \<open>When a handler returns without a header, the server sends 200; a panic that reaches it aborts the connection.\<close>

definition net_finish :: "outcome \<Rightarrow> world \<Rightarrow> world" where
  "net_finish out w = (if out = Returned then snd (net_write_header 200 w) else w)"

definition serve :: "handler \<Rightarrow> request \<Rightarrow> world \<Rightarrow> outcome \<times> request \<times> world" where
  "serve h r w = (let ((out, r'), w') = run net_step (h r) w in (out, r', net_finish out w'))"

definition fresh_world :: world where
  "fresh_world =
     \<lparr>wd_header = Map.empty, wd_wrote = False, wd_status = 0, wd_sent = Map.empty, wd_info = [], wd_cl = None,
      wd_body = [], wd_written = 0, wd_hijacked = False, wd_caps = (\<lambda>i. i \<noteq> IPusher), wd_hijack_err = None,
      wd_write_err = (\<lambda>n. None), wd_writes = 0, wd_frame_len = (\<lambda>p. 10), wd_body_nil = False,
      wd_reads = [], wd_final = EEOF, wd_closed = False, wd_clock = (\<lambda>n. of_nat n * 1000), wd_ticks = 0,
      wd_random = (\<lambda>n. (replicate 64 CHR ''r'', False)), wd_rands = 0, wd_hosts = (\<lambda>n. []), wd_asks = 0,
      wd_logger = True, wd_logs = [], wd_meters = Some new_meters\<rparr>"

subsection \<open>Library helpers over a writer\<close>

definition status_text :: "int \<Rightarrow> string" where
  "status_text code =
     (case map_of
        [(100, ''Continue''), (101, ''Switching Protocols''), (102, ''Processing''), (103, ''Early Hints''),
         (200, ''OK''), (201, ''Created''), (202, ''Accepted''), (203, ''Non-Authoritative Information''),
         (204, ''No Content''), (205, ''Reset Content''), (206, ''Partial Content''), (207, ''Multi-Status''),
         (208, ''Already Reported''), (226, ''IM Used''),
         (300, ''Multiple Choices''), (301, ''Moved Permanently''), (302, ''Found''), (303, ''See Other''),
         (304, ''Not Modified''), (305, ''Use Proxy''), (307, ''Temporary Redirect''), (308, ''Permanent Redirect''),
         (400, ''Bad Request''), (401, ''Unauthorized''), (402, ''Payment Required''), (403, ''Forbidden''),
         (404, ''Not Found''), (405, ''Method Not Allowed''), (406, ''Not Acceptable''),
         (407, ''Proxy Authentication Required''), (408, ''Request Timeout''), (409, ''Conflict''), (410, ''Gone''),
         (411, ''Length Required''), (412, ''Precondition Failed''), (413, ''Request Entity Too Large''),
         (414, ''Request URI Too Long''), (415, ''Unsupported Media Type''), (416, ''Requested Range Not Satisfiable''),
         (417, ''Expectation Failed''), (418, ''I'' @ [CHR 0x27] @ ''m a teapot''), (421, ''Misdirected Request''),
         (422, ''Unprocessable Entity''), (423, ''Locked''), (424, ''Failed Dependency''), (425, ''Too Early''),
         (426, ''Upgrade Required''), (428, ''Precondition Required''), (429, ''Too Many Requests''),
         (431, ''Request Header Fields Too Large''), (451, ''Unavailable For Legal Reasons''),
         (500, ''Internal Server Error''), (501, ''Not Implemented''), (502, ''Bad Gateway''),
         (503, ''Service Unavailable''), (504, ''Gateway Timeout''), (505, ''HTTP Version Not Supported''),
         (506, ''Variant Also Negotiates''), (507, ''Insufficient Storage''), (508, ''Loop Detected''),
         (510, ''Not Extended''), (511, ''Network Authentication Required'')] code of
      None \<Rightarrow> [] | Some t \<Rightarrow> t)"

definition http_error :: "string \<Rightarrow> int \<Rightarrow> outcome prog" where
  "http_error msg code =
     Op (HDel ''Content-Length'') (\<lambda>_.
     Op (HSet ''Content-Type'' ''text/plain; charset=utf-8'') (\<lambda>_.
     Op (HSet ''X-Content-Type-Options'' ''nosniff'') (\<lambda>_.
     Op (WHeader code) (\<lambda>r. unless_panic r (
     Op (WWrite (Raw (msg @ [CHR 0x0A]))) (\<lambda>r. unless_panic r (Ret Returned)))))))"

subsection \<open>A response commits once\<close>

definition commit_le :: "world \<Rightarrow> world \<Rightarrow> bool" where
  "commit_le w w' \<longleftrightarrow>
     (wd_wrote w \<longrightarrow> wd_wrote w' \<and> wd_status w' = wd_status w \<and> wd_sent w' = wd_sent w)
     \<and> prefix (wd_body w) (wd_body w') \<and> prefix (wd_logs w) (wd_logs w') \<and> prefix (wd_info w) (wd_info w')
     \<and> wd_logger w' = wd_logger w \<and> wd_frame_len w' = wd_frame_len w"

lemma commit_le_write_header: "commit_le w (snd (net_write_header c w))"
  by (simp add: commit_le_def net_write_header_def)

lemma commit_le_trans: "commit_le a b \<Longrightarrow> commit_le b c \<Longrightarrow> commit_le a c"
  by (auto simp: commit_le_def)

lemma commit_le_write: "commit_le w (snd (net_write p w))"
proof (cases "wd_hijacked w")
  case True
  then show ?thesis by (simp add: net_write_def commit_le_def)
next
  case False
  define v where "v = snd (net_write_header 200 w)"
  have "commit_le w v" by (simp add: v_def commit_le_write_header)
  moreover have "commit_le v (snd (net_write p w))"
    unfolding net_write_def v_def [symmetric] Let_def
    by (simp add: False commit_le_def split: option.split)
  ultimately show ?thesis by (rule commit_le_trans)
qed

lemma commit_le_step: "commit_le w (snd (net_step w e))"
  by (cases e)
    (simp_all add: commit_le_write_header commit_le_write case_prod_beta,
     simp_all add: commit_le_def net_hijack_def net_read_def on_meters_def split: option.split list.split)

interpretation net: machine_order net_step commit_le
  by unfold_locales (simp add: commit_le_def, rule commit_le_trans, assumption+, rule commit_le_step)

subsection \<open>The contract of a response writer\<close>

text \<open>
  What the module's own code relies on when it writes an error: header operations keep an uncommitted
  response uncommitted, a final status commits it, and a committed status never changes again.
\<close>

definition header_op :: "op \<Rightarrow> bool" where
  "header_op e \<longleftrightarrow> (case e of HGet k \<Rightarrow> True | HSet k v \<Rightarrow> True | HAdd k v \<Rightarrow> True | HDel k \<Rightarrow> True | _ \<Rightarrow> False)"

lemma header_op_simps [simp]:
  "header_op (HGet k)" "header_op (HSet k v)" "header_op (HAdd k v)" "header_op (HDel k)"
  by (simp_all add: header_op_def)

definition is_panic :: "res \<Rightarrow> bool" where
  "is_panic r = (case r of RPanic m \<Rightarrow> True | _ \<Rightarrow> False)"

lemma unless_panic_not [simp]: "\<not> is_panic r \<Longrightarrow> unless_panic r p = p"
  by (cases r) (simp_all add: is_panic_def unless_panic_def)

lemma is_panic_simps [simp]:
  "\<not> is_panic RUnit" "\<not> is_panic (RBool b)" "\<not> is_panic (RWrote n e)" "\<not> is_panic (RErr e)" "\<not> is_panic (RStr s)"
  "is_panic (RPanic msg)"
  by (simp_all add: is_panic_def)

locale response_writer =
  fixes m :: "'w machine" and uncommitted :: "'w \<Rightarrow> bool" and committed :: "'w \<Rightarrow> int \<Rightarrow> bool"
  assumes header_step: "uncommitted w \<Longrightarrow> header_op e \<Longrightarrow> uncommitted (snd (m w e))"
    and commit_step: "uncommitted w \<Longrightarrow> 200 \<le> c \<Longrightarrow> c \<le> 999 \<Longrightarrow>
      fst (m w (WHeader c)) = RUnit \<and> committed (snd (m w (WHeader c))) c"
    and committed_step: "committed w c \<Longrightarrow> committed (snd (m w e)) c"
    and committed_write: "committed w c \<Longrightarrow> \<not> is_panic (fst (m w (WWrite p)))"
begin

sublocale stable: machine_invariant m "\<lambda>e. True" "\<lambda>w. committed w c" for c
  by unfold_locales (rule committed_step)

lemma committed_run: "committed w c \<Longrightarrow> committed (snd (run m p w)) c"
  using stable.run_inv [of p] by simp

lemma http_error_commits:
  assumes "uncommitted w" "200 \<le> code" "code \<le> 999"
  shows "fst (run m (http_error msg code) w) = Returned \<and> committed (snd (run m (http_error msg code) w)) code"
proof -
  let ?w1 = "snd (m w (HDel ''Content-Length''))"
  let ?w2 = "snd (m ?w1 (HSet ''Content-Type'' ''text/plain; charset=utf-8''))"
  let ?w3 = "snd (m ?w2 (HSet ''X-Content-Type-Options'' ''nosniff''))"
  let ?w4 = "snd (m ?w3 (WHeader code))"
  have "uncommitted ?w3" using assms(1) by (simp add: header_step)
  from commit_step [OF this assms(2,3)] have 4: "fst (m ?w3 (WHeader code)) = RUnit" "committed ?w4 code"
    by auto
  let ?e = "WWrite (Raw (msg @ [CHR 0x0A]))"
  have 5: "\<not> is_panic (fst (m ?w4 ?e))" "committed (snd (m ?w4 ?e)) code"
    using 4(2) committed_write committed_step by blast+
  show ?thesis
    using 4 5 by (simp add: http_error_def case_prod_beta)
qed

end

definition net_uncommitted :: "world \<Rightarrow> bool" where
  "net_uncommitted w \<longleftrightarrow> \<not> wd_wrote w \<and> \<not> wd_hijacked w"

definition net_committed :: "world \<Rightarrow> int \<Rightarrow> bool" where
  "net_committed w c \<longleftrightarrow> wd_wrote w \<and> wd_status w = c"

lemma header_op_net: "header_op e \<Longrightarrow>
    wd_wrote (snd (net_step w e)) = wd_wrote w \<and> wd_hijacked (snd (net_step w e)) = wd_hijacked w"
  by (cases e) (simp_all add: header_op_def)

interpretation netw: response_writer net_step net_uncommitted net_committed
proof unfold_locales
  show "net_uncommitted w \<Longrightarrow> header_op e \<Longrightarrow> net_uncommitted (snd (net_step w e))" for w e
    by (simp add: net_uncommitted_def header_op_net)
  show "net_committed w c \<Longrightarrow> net_committed (snd (net_step w e)) c" for w c e
    using commit_le_step [of w e] by (auto simp: net_committed_def commit_le_def)
  show "net_committed w c \<Longrightarrow> \<not> is_panic (fst (net_step w (WWrite p)))" for w c p
    by (simp add: net_write_def Let_def split: option.split)
qed (auto simp: net_uncommitted_def net_committed_def net_write_header_def)

end
