(* ===== verification/Failure.thy ===== *)
theory Failure imports GoHttp begin

text \<open>
  \<^verbatim>\<open>errors.go\<close>: the failure value middlewares report, its constructors, the error codes and
  \<open>DefaultErrorWriter\<close>; and the contract every error writer is used under.
\<close>

record failure =
  fl_status :: int
  fl_code :: string
  fl_message :: string
  fl_request_id :: string

definition request_id_from :: "request \<Rightarrow> string" where
  "request_id_from r = (case rq_ctx r RequestIDKey of None \<Rightarrow> [] | Some rid \<Rightarrow> rid)"

type_synonym error_writer = "request \<Rightarrow> failure \<Rightarrow> (outcome \<times> request) prog"

definition default_error_writer :: error_writer where
  "default_error_writer r f =
     (let message = (if fl_message f = [] then status_text (fl_status f) else fl_message f)
      in bindP (http_error message (fl_status f)) (\<lambda>out. Ret (out, r)))"

text \<open>The \<open>Write\<close> option of a middleware: nil selects the default.\<close>

definition error_writer_or_default :: "error_writer option \<Rightarrow> error_writer" where
  "error_writer_or_default write = (case write of None \<Rightarrow> default_error_writer | Some ew \<Rightarrow> ew)"

definition new_failure :: "int \<Rightarrow> string \<Rightarrow> string \<Rightarrow> failure" where
  "new_failure status code message =
     \<lparr>fl_status = status, fl_code = code, fl_message = message, fl_request_id = []\<rparr>"

definition with_request_id :: "failure \<Rightarrow> string \<Rightarrow> failure" where
  "with_request_id f rid = f\<lparr>fl_request_id := rid\<rparr>"

definition error_code_bad_request :: string where
  "error_code_bad_request = ''BAD_REQUEST''"

definition error_code_unauthorized :: string where
  "error_code_unauthorized = ''UNAUTHORIZED''"

definition error_code_forbidden :: string where
  "error_code_forbidden = ''FORBIDDEN''"

definition error_code_not_found :: string where
  "error_code_not_found = ''NOT_FOUND''"

definition error_code_conflict :: string where
  "error_code_conflict = ''CONFLICT''"

definition error_code_validation :: string where
  "error_code_validation = ''VALIDATION_ERROR''"

definition error_code_internal :: string where
  "error_code_internal = ''INTERNAL_ERROR''"

definition error_code_payload_too_large :: string where
  "error_code_payload_too_large = ''PAYLOAD_TOO_LARGE''"

definition bad_request :: "string \<Rightarrow> string \<Rightarrow> failure" where
  "bad_request code message = new_failure 400 code message"

definition unauthorized :: "string \<Rightarrow> string \<Rightarrow> failure" where
  "unauthorized code message = new_failure 401 code message"

definition forbidden :: "string \<Rightarrow> string \<Rightarrow> failure" where
  "forbidden code message = new_failure 403 code message"

definition not_found :: "string \<Rightarrow> string \<Rightarrow> failure" where
  "not_found code message = new_failure 404 code message"

definition conflict :: "string \<Rightarrow> string \<Rightarrow> failure" where
  "conflict code message = new_failure 409 code message"

definition internal_error :: "string \<Rightarrow> string \<Rightarrow> failure" where
  "internal_error code message = new_failure 500 code message"

definition validation_error :: "string \<Rightarrow> string \<Rightarrow> failure" where
  "validation_error code message = new_failure 422 code message"

definition payload_too_large :: "string \<Rightarrow> string \<Rightarrow> failure" where
  "payload_too_large code message = new_failure 413 code message"

subsection \<open>The contract of an error writer\<close>

text \<open>
  On every response writer that keeps the contract, an error writer given an uncommitted response and a
  failure with a final status returns normally and leaves the response committed with that status.  The
  request it was given is unchanged.
\<close>

definition error_writer_ok :: "error_writer \<Rightarrow> 'w machine \<Rightarrow> ('w \<Rightarrow> bool) \<Rightarrow> ('w \<Rightarrow> int \<Rightarrow> bool) \<Rightarrow> bool" where
  "error_writer_ok ew m uncommitted committed \<longleftrightarrow>
     (\<forall>r f w. uncommitted w \<longrightarrow> 200 \<le> fl_status f \<longrightarrow> fl_status f \<le> 999 \<longrightarrow>
        fst (run m (ew r f) w) = (Returned, r) \<and> committed (snd (run m (ew r f) w)) (fl_status f))"

lemma error_writer_okD:
  assumes "error_writer_ok ew m uncommitted committed" "uncommitted w" "200 \<le> fl_status f" "fl_status f \<le> 999"
  shows "fst (run m (ew r f) w) = (Returned, r)" "committed (snd (run m (ew r f) w)) (fl_status f)"
  using assms by (simp_all add: error_writer_ok_def)

context response_writer begin

lemma default_error_writer_ok: "error_writer_ok default_error_writer m uncommitted committed"
proof -
  have "fst (run m (default_error_writer r f) w) = (Returned, r)
      \<and> committed (snd (run m (default_error_writer r f) w)) (fl_status f)"
    if "uncommitted w" "200 \<le> fl_status f" "fl_status f \<le> 999" for r f w
    using http_error_commits [OF that] by (simp add: default_error_writer_def run_bind Let_def case_prod_beta)
  then show ?thesis by (simp add: error_writer_ok_def)
qed

end

end
