(* ===== verification/Recorder.thy ===== *)
theory Recorder imports Failure begin

text \<open>
  The wrappers of \<^verbatim>\<open>middleware.go\<close>, as layers: \<open>statusRecorder\<close> over a response writer, and \<open>countingBody\<close>,
  \<open>http.MaxBytesReader\<close>, \<open>bodyLimitReader\<close> and \<open>http.NoBody\<close> over a request body.  An operation a wrapper does not
  define is the embedded value's.
\<close>

subsection \<open>The status recorder\<close>

record srec =
  sr_status :: int
  sr_committed :: bool
  sr_written :: nat

definition new_recorder :: srec where
  "new_recorder = \<lparr>sr_status = 200, sr_committed = False, sr_written = 0\<rparr>"

definition sr_write_header :: "int \<Rightarrow> srec \<Rightarrow> (res \<times> srec) prog" where
  "sr_write_header status s =
     (if \<not> sr_committed s then
        let s' = s\<lparr>sr_status := status, sr_committed := True\<rparr>
        in Op (WHeader status) (\<lambda>r. Ret (if is_panic r then r else RUnit, s'))
      else Ret (RUnit, s))"

definition sr_write :: "payload \<Rightarrow> srec \<Rightarrow> (res \<times> srec) prog" where
  "sr_write b s =
     (let s' = (if \<not> sr_committed s
                then s\<lparr>sr_committed := True, sr_status := (if sr_status s = 0 then 200 else sr_status s)\<rparr> else s)
      in Op (WWrite b) (\<lambda>r. case r of
           RWrote n err \<Rightarrow> Ret (RWrote n err, s'\<lparr>sr_written := sr_written s' + n\<rparr>)
         | _ \<Rightarrow> Ret (r, s')))"

text \<open>\<open>Hijack\<close>, \<open>Flush\<close> and \<open>Push\<close> delegate when the writer below has the method.\<close>

definition sr_hijack :: "srec \<Rightarrow> (res \<times> srec) prog" where
  "sr_hijack s = Op (WHas IHijacker) (\<lambda>h. if res_bool h then pass WHijack s else Ret (RErr (Some ENotSupported), s))"

definition sr_flush :: "srec \<Rightarrow> (res \<times> srec) prog" where
  "sr_flush s = Op (WHas IFlusher) (\<lambda>h. if res_bool h then pass WFlush s else Ret (RUnit, s))"

definition sr_push :: "string \<Rightarrow> srec \<Rightarrow> (res \<times> srec) prog" where
  "sr_push target s = Op (WHas IPusher) (\<lambda>h. if res_bool h then pass (WPush target) s else Ret (RErr (Some ENotSupported), s))"

fun status_recorder :: "srec \<Rightarrow> op \<Rightarrow> (res \<times> srec) prog" where
  "status_recorder s (WHeader c) = sr_write_header c s"
| "status_recorder s (WWrite b) = sr_write b s"
| "status_recorder s WFlush = sr_flush s"
| "status_recorder s WHijack = sr_hijack s"
| "status_recorder s (WPush t) = sr_push t s"
| "status_recorder s (WHas i) = Ret (RBool True, s)"
| "status_recorder s e = pass e s"

subsection \<open>Body readers\<close>

text \<open>\<open>countingBody.Read\<close>\<close>

definition cb_read :: "nat \<Rightarrow> int \<Rightarrow> (res \<times> int) prog" where
  "cb_read len n = Op (BRead len) (\<lambda>r. case r of
       RRead bs err \<Rightarrow> Ret (r, n + int (length bs))
     | _ \<Rightarrow> Ret (r, n))"

fun counting_body :: "int \<Rightarrow> op \<Rightarrow> (res \<times> int) prog" where
  "counting_body n (BRead len) = cb_read len n"
| "counting_body n e = pass e n"

text \<open>\<open>http.NoBody\<close>\<close>

fun no_body :: "unit \<Rightarrow> op \<Rightarrow> (res \<times> unit) prog" where
  "no_body u (BRead len) = Ret (RRead [] (Some EEOF), u)"
| "no_body u BClose = Ret (RErr None, u)"
| "no_body u e = pass e u"

text \<open>\<open>http.MaxBytesReader(nil, body, n)\<close>: bytes remaining, the sticky error, and the limit for the error value.\<close>

record maxreader =
  mx_limit :: int
  mx_left :: int
  mx_err :: "gerr option"

definition new_max_bytes_reader :: "int \<Rightarrow> maxreader" where
  "new_max_bytes_reader n = (let n' = max n 0 in \<lparr>mx_limit = n', mx_left = n', mx_err = None\<rparr>)"

definition mx_read :: "nat \<Rightarrow> maxreader \<Rightarrow> (res \<times> maxreader) prog" where
  "mx_read len s =
     (if mx_err s \<noteq> None then Ret (RRead [] (mx_err s), s)
      else if len = 0 then Ret (RRead [] None, s)
      else
        let len' = (if int len - 1 > mx_left s then nat (mx_left s + 1) else len)
        in Op (BRead len') (\<lambda>r. case r of
             RRead bs err \<Rightarrow>
               if int (length bs) \<le> mx_left s then
                 Ret (RRead bs err, s\<lparr>mx_left := mx_left s - int (length bs), mx_err := err\<rparr>)
               else
                 let e = Some (EMaxBytes (mx_limit s))
                 in Ret (RRead (take (nat (mx_left s)) bs) e, s\<lparr>mx_left := 0, mx_err := e\<rparr>)
           | _ \<Rightarrow> Ret (r, s)))"

fun max_bytes_reader :: "maxreader \<Rightarrow> op \<Rightarrow> (res \<times> maxreader) prog" where
  "max_bytes_reader s (BRead len) = mx_read len s"
| "max_bytes_reader s e = pass e s"

text \<open>\<open>errors.As\<close> looks through wrapped errors.\<close>

fun is_body_too_large :: "gerr \<Rightarrow> bool" where
  "is_body_too_large (EMaxBytes n) = True"
| "is_body_too_large (EWrap msg e) = is_body_too_large e"
| "is_body_too_large _ = False"

definition bl_read :: "nat \<Rightarrow> bool \<Rightarrow> (res \<times> bool) prog" where
  "bl_read len too_large = Op (BRead len) (\<lambda>r. case r of
       RRead bs (Some err) \<Rightarrow> Ret (r, too_large \<or> is_body_too_large err)
     | _ \<Rightarrow> Ret (r, too_large))"

fun body_limit_reader :: "bool \<Rightarrow> op \<Rightarrow> (res \<times> bool) prog" where
  "body_limit_reader b (BRead len) = bl_read len b"
| "body_limit_reader b e = pass e b"

subsection \<open>A recorder keeps the writer contract\<close>

lemma over_pass: "f s e = pass e s \<Longrightarrow> over f m (s, w) e = (let (r, w') = m w e in (r, (s, w')))"
  by (simp add: over_def split: prod.split)

context response_writer begin

definition rec_uncommitted :: "srec \<times> 'w \<Rightarrow> bool" where
  "rec_uncommitted sw \<longleftrightarrow> \<not> sr_committed (fst sw) \<and> uncommitted (snd sw)"

definition rec_committed :: "srec \<times> 'w \<Rightarrow> int \<Rightarrow> bool" where
  "rec_committed sw c \<longleftrightarrow> sr_committed (fst sw) \<and> sr_status (fst sw) = c \<and> committed (snd sw) c"

lemma recorder_state_stable:
  "sr_committed s \<Longrightarrow>
   sr_committed (snd (fst (run m (status_recorder s e) w))) \<and> sr_status (snd (fst (run m (status_recorder s e) w))) = sr_status s"
  by (cases e)
    (auto simp: sr_write_header_def sr_write_def sr_hijack_def sr_flush_def sr_push_def split: prod.splits res.splits)

lemma recorder_response_writer: "response_writer (over status_recorder m) rec_uncommitted rec_committed"
proof unfold_locales
  fix sw :: "srec \<times> 'w" and e c p
  obtain s w where sw: "sw = (s, w)" by fastforce
  show "rec_uncommitted sw \<Longrightarrow> header_op e \<Longrightarrow> rec_uncommitted (snd (over status_recorder m sw e))"
    using header_step [of w e]
    by (cases e) (auto simp: sw rec_uncommitted_def header_op_def over_pass split: prod.split)
  show "fst (over status_recorder m sw (WHeader c)) = RUnit \<and> rec_committed (snd (over status_recorder m sw (WHeader c))) c"
    if "rec_uncommitted sw" "200 \<le> c" "c \<le> 999"
    using commit_step [of w c] that
    by (auto simp: sw rec_uncommitted_def rec_committed_def over_def sr_write_header_def split: prod.splits)
  show "rec_committed (snd (over status_recorder m sw e)) c" if "rec_committed sw c"
    using that committed_run [of w c "status_recorder s e"] recorder_state_stable [of s e w]
    by (simp add: sw rec_committed_def over_def case_prod_beta)
  show "\<not> is_panic (fst (over status_recorder m sw (WWrite p)))" if "rec_committed sw c"
    using that committed_write [of w c p]
    by (auto simp: sw rec_committed_def over_def sr_write_def split: prod.splits res.splits)
qed

end

interpretation recw: response_writer "over status_recorder net_step" netw.rec_uncommitted netw.rec_committed
  by (rule netw.recorder_response_writer)

interpretation recle: machine_order "over status_recorder net_step" "\<lambda>a b. commit_le (snd a) (snd b)"
  by (rule net.over_order)

end
