(* ===== verification/Middleware.thy ===== *)
theory Middleware imports Recorder begin

text \<open>
  \<^verbatim>\<open>middleware.go\<close>: \<open>Chain\<close>, \<open>RequestID\<close>, \<open>RequestLogWith\<close>, \<open>Recover\<close>, \<open>MaxBodyBytes\<close> and \<open>Metrics\<close>, each a
  function from handler programs to handler programs, in the order of effects of the code.  A deferred
  call runs after the inner handler on both of its outcomes.  The address formatter of the logs component
  is a parameter.
\<close>

subsection \<open>Composition\<close>

fun chain_from :: "nat \<Rightarrow> middleware list \<Rightarrow> middleware" where
  "chain_from 0 mw next = next"
| "chain_from (Suc i) mw next = chain_from i mw ((mw ! i) next)"

definition chain :: "middleware list \<Rightarrow> middleware" where
  "chain mw next = chain_from (length mw) mw next"

subsection \<open>Request IDs\<close>

definition request_id_char :: "char \<Rightarrow> bool" where
  "request_id_char c \<longleftrightarrow> is_lower c \<or> is_upper c \<or> is_digit c \<or> c = CHR ''_'' \<or> c = CHR ''-''"

definition valid_request_id_regex :: "string \<Rightarrow> bool" where
  "valid_request_id_regex s \<longleftrightarrow> s \<noteq> [] \<and> list_all request_id_char s"

definition generate_request_id :: "string prog" where
  "generate_request_id = Op (Rand 16) (\<lambda>r. let (b, failed) = res_rand r in Ret (hex_encode b))"

definition request_id :: middleware where
  "request_id next = (\<lambda>r.
     let rid0 = hget (rq_header r) ''X-Request-ID'' in
     bindP (if rid0 = [] \<or> length rid0 > 256 \<or> \<not> valid_request_id_regex rid0
            then generate_request_id else Ret rid0) (\<lambda>rid.
     Op (HSet ''X-Request-ID'' rid) (\<lambda>_.
     serve_copy next r (r\<lparr>rq_ctx := (rq_ctx r)(RequestIDKey \<mapsto> rid)\<rparr>))))"

definition get_route_pattern :: "request \<Rightarrow> string" where
  "get_route_pattern r = (if rq_pattern r \<noteq> [] then rq_pattern r else ''unknown'')"

subsection \<open>Request logging\<close>

definition cap_log :: "string \<Rightarrow> int \<Rightarrow> string" where
  "cap_log s n = (if n \<le> 0 \<or> int (length s) \<le> n then s else take (nat n) s)"

definition request_log_path_cap :: int where "request_log_path_cap = 2048"
definition request_log_query_cap :: int where "request_log_query_cap = 512"
definition request_log_ua_cap :: int where "request_log_ua_cap = 256"

record request_log_config =
  lc_ip :: string
  lc_client_ip :: "(request \<Rightarrow> string) option"
  lc_path :: bool
  lc_user_agent :: bool
  lc_query :: bool

text \<open>What the middleware uses of the logs component: \<open>ClientIP(addr, mode)\<close> and the mode \<open>IPPartial\<close>.\<close>

record logs_api =
  la_client_ip :: "string \<Rightarrow> string \<Rightarrow> string"
  la_partial :: string

text \<open>\<open>Duration.Milliseconds\<close>: integer division that truncates toward zero.\<close>

definition milliseconds :: "duration \<Rightarrow> int" where
  "milliseconds d = (if sint d < 0 then - ((- sint d) div 1000000) else sint d div 1000000)"

definition log_level :: "int \<Rightarrow> level" where
  "log_level status = (if status \<ge> 500 then LError else if status \<ge> 400 then LWarn else LInfo)"

text \<open>Levels are ordered by severity, as the numbers of \<open>slog\<close> are: a worse status is never logged at a lower level.\<close>

fun level_num :: "level \<Rightarrow> int" where
  "level_num LInfo = 0"
| "level_num LWarn = 4"
| "level_num LError = 8"

instantiation level :: linorder
begin

definition less_eq_level :: "level \<Rightarrow> level \<Rightarrow> bool" where
  "less_eq_level a b \<longleftrightarrow> level_num a \<le> level_num b"

definition less_level :: "level \<Rightarrow> level \<Rightarrow> bool" where
  "less_level a b \<longleftrightarrow> level_num a < level_num b"

instance
proof
  show "x = y" if "x \<le> y" "y \<le> x" for x y :: level
    using that by (cases x; cases y) (simp_all add: less_eq_level_def)
qed (auto simp: less_eq_level_def less_level_def)

end

lemma log_level_mono: "status \<le> status' \<Longrightarrow> log_level status \<le> log_level status'"
  by (simp add: log_level_def less_eq_level_def)

definition log_attrs ::
  "logs_api \<Rightarrow> request_log_config \<Rightarrow> request \<Rightarrow> srec \<Rightarrow> int \<Rightarrow> duration \<Rightarrow> (string \<times> attr) list" where
  "log_attrs api cfg r rec body_n d =
     (let mode = (if lc_ip cfg = [] then la_partial api else lc_ip cfg);
          ident = (case lc_client_ip cfg of None \<Rightarrow> rq_remote_addr | Some f \<Rightarrow> f);
          ip = la_client_ip api (ident r) mode;
          q = rq_raw_query r;
          ua = hget (rq_header r) ''User-Agent'';
          req_bytes = (if rq_content_length r < 0 then body_n else rq_content_length r)
      in [(''method'', AStr (rq_method r)), (''route'', AStr (get_route_pattern r)),
          (''status'', AInt (sr_status rec)), (''duration_ms'', AInt (milliseconds d)),
          (''request_bytes'', AInt req_bytes), (''response_bytes'', AInt (int (sr_written rec))),
          (''request_id'', AStr (request_id_from r))]
         @ (if ip \<noteq> [] then [(''client_ip'', AStr ip)] else [])
         @ (if lc_path cfg then [(''path'', AStr (cap_log (rq_path r) request_log_path_cap))] else [])
         @ (if lc_query cfg \<and> q \<noteq> [] then [(''query'', AStr (cap_log q request_log_query_cap))] else [])
         @ (if lc_user_agent cfg \<and> ua \<noteq> [] then [(''user_agent'', AStr (cap_log ua request_log_ua_cap))] else []))"

text \<open>The body the inner handler reads: counted, on top of \<open>http.NoBody\<close> when there was none.\<close>

definition counted :: "bool \<Rightarrow> 'a prog \<Rightarrow> ('a \<times> int) prog" where
  "counted nil_body p =
     (if nil_body then bindP (lay no_body (lay counting_body p 0) ()) (\<lambda>(x, _). Ret x)
      else lay counting_body p 0)"

text \<open>\<open>get\<close> tells whether a logger getter was given; calling a nil one panics, after the inner handler has returned.\<close>

definition request_log_with :: "bool \<Rightarrow> logs_api \<Rightarrow> request_log_config \<Rightarrow> middleware" where
  "request_log_with get api cfg next = (\<lambda>r.
     Op Now (\<lambda>t0.
     bindP (lay status_recorder (counted (rq_body_nil r) (next (r\<lparr>rq_body_nil := False\<rparr>))) new_recorder)
       (\<lambda>(((out, r'), body_n), rec).
     case out of
       Panicked msg \<Rightarrow> Ret (Panicked msg, r')
     | Returned \<Rightarrow>
         Op Now (\<lambda>t1.
         if \<not> get then Ret (Panicked ''nil pointer dereference'', r')
         else
         Op AskLogger (\<lambda>l.
         Op (Log (if res_bool l then AppLogger else DefaultLogger) (log_level (sr_status rec)) ''http request''
               (log_attrs api cfg r' rec body_n (res_time t1 - res_time t0))) (\<lambda>x.
         bindP (unless_panic x (Ret Returned)) (\<lambda>out. Ret (out, r'))))))))"

definition default_log_config :: request_log_config where
  "default_log_config = \<lparr>lc_ip = [], lc_client_ip = None, lc_path = False, lc_user_agent = False, lc_query = False\<rparr>"

definition request_log :: "bool \<Rightarrow> logs_api \<Rightarrow> middleware" where
  "request_log get api = request_log_with get api default_log_config"

subsection \<open>Recovering from panics\<close>

definition recover_failure :: "request \<Rightarrow> failure" where
  "recover_failure r = \<lparr>fl_status = 500, fl_code = ''internal_error'',
     fl_message = ''Internal Server Error'', fl_request_id = request_id_from r\<rparr>"

text \<open>Without a getter \<open>Recover\<close> takes the default logger; the getter itself may yield a nil logger.\<close>

definition recover_logger :: "bool \<Rightarrow> logger prog" where
  "recover_logger get =
     (if get then Op AskLogger (\<lambda>l. Ret (if res_bool l then AppLogger else NilLogger)) else Ret DefaultLogger)"

definition recover :: "bool \<Rightarrow> error_writer option \<Rightarrow> middleware" where
  "recover get write next = (\<lambda>r.
     let ew = error_writer_or_default write in
     bindP (lay status_recorder (next r) new_recorder) (\<lambda>((out, r'), rec).
     case out of
       Returned \<Rightarrow> Ret (Returned, r')
     | Panicked p \<Rightarrow>
         bindP (recover_logger get) (\<lambda>logger.
         Op Stack (\<lambda>stack.
         Op (Log logger LError ''panic recovered''
               [(''panic'', AStr p), (''stack'', AStr (res_str stack)),
                (''request_id'', AStr (request_id_from r')), (''route'', AStr (get_route_pattern r'))]) (\<lambda>x.
         case x of
           RPanic msg \<Rightarrow> Ret (Panicked msg, r')
         | _ \<Rightarrow> if \<not> sr_committed rec then ew r' (recover_failure r') else Ret (Returned, r'))))))"

subsection \<open>Bounded bodies\<close>

definition write_body_too_large :: "error_writer \<Rightarrow> handler" where
  "write_body_too_large ew r =
     Op (HSet ''Connection'' ''close'') (\<lambda>_.
     ew r \<lparr>fl_status = 413, fl_code = error_code_payload_too_large,
            fl_message = ''Request body too large'', fl_request_id = request_id_from r\<rparr>)"

text \<open>The readers stacked under the inner handler; the value adds whether the limit was hit.\<close>

definition limited :: "int \<Rightarrow> 'a prog \<Rightarrow> ('a \<times> bool) prog" where
  "limited n p =
     bindP (lay max_bytes_reader (lay body_limit_reader p False) (new_max_bytes_reader n)) (\<lambda>(x, _). Ret x)"

definition max_body_bytes :: "int \<Rightarrow> error_writer option \<Rightarrow> middleware" where
  "max_body_bytes n write next =
     (if n \<le> 0 then next
      else
        let ew = error_writer_or_default write in
        (\<lambda>r. if rq_content_length r > n then write_body_too_large ew r
             else
               bindP (lay status_recorder (limited n (next (r\<lparr>rq_body_nil := False\<rparr>))) new_recorder) (\<lambda>(((out, r'), too_large), rec).
               case out of
                 Panicked msg \<Rightarrow> Ret (Panicked msg, r')
               | Returned \<Rightarrow>
                   if too_large \<and> \<not> sr_committed rec then
                     bindP (lay status_recorder (write_body_too_large ew r') rec) (\<lambda>(x, _). Ret x)
                   else Ret (Returned, r'))))"

subsection \<open>Request metrics\<close>

definition metrics :: middleware where
  "metrics next = (\<lambda>r.
     Op Now (\<lambda>t0.
     Op (InFlight 1) (\<lambda>x.
     case x of
       RPanic msg \<Rightarrow> Ret (Panicked msg, r)
     | _ \<Rightarrow>
         bindP (lay status_recorder (next r) new_recorder) (\<lambda>((out, r'), rec).
         case out of
           Panicked msg \<Rightarrow> Op (InFlight (- 1)) (\<lambda>_. Ret (Panicked msg, r'))
         | Returned \<Rightarrow>
             Op Now (\<lambda>t1.
             Op (RecMiddleware (get_route_pattern r') (sr_status rec) (res_time t1 - res_time t0)) (\<lambda>_.
             Op (InFlight (- 1)) (\<lambda>_. Ret (Returned, r'))))))))"

subsection \<open>Lemmas of the layers\<close>

lemma chain_from_foldr: "i \<le> length mw \<Longrightarrow> chain_from i mw next = foldr (\<lambda>f h. f h) (take i mw) next"
  by (induction i arbitrary: "next") (simp_all add: take_Suc_conv_app_nth)

lemma chain_foldr: "chain mw next = foldr (\<lambda>f h. f h) mw next"
  by (simp add: chain_def chain_from_foldr)

lemma length_fill [simp]: "length (fill n bs) = n"
  by (simp add: fill_def)

lemma hex_request_id: "bs \<noteq> [] \<Longrightarrow> valid_request_id_regex (hex_encode bs)"
proof -
  assume "bs \<noteq> []"
  then have "hex_encode bs \<noteq> []" using hex_encode_length [of bs] by fastforce
  moreover have "list_all request_id_char (hex_encode bs)"
    using hex_encode_chars [of bs]
    by (rule list.pred_mono_strong)
      (auto simp: is_hex_char_def request_id_char_def is_digit_def is_lower_def)
  ultimately show ?thesis by (simp add: valid_request_id_regex_def)
qed

lemma run_generate_request_id:
  "run net_step generate_request_id w =
     (hex_encode (fill 16 (fst (wd_random w (wd_rands w)))), w\<lparr>wd_rands := wd_rands w + 1\<rparr>)"
  by (simp add: generate_request_id_def case_prod_beta)

lemma run_serve_copy:
  "run m (serve_copy next r copy) w =
     (let ((out, r'), w') = run m (next copy) w in ((out, r\<lparr>rq_header := rq_header r'\<rparr>), w'))"
  by (simp add: serve_copy_def run_bind case_prod_beta)

text \<open>A program under a recorder is the program on the machine of the recorder.\<close>

abbreviation recorded :: "'a prog \<Rightarrow> world \<Rightarrow> 'a \<times> (srec \<times> world)" where
  "recorded p w \<equiv> run (over status_recorder net_step) p (new_recorder, w)"

lemma run_recorded:
  "run net_step (lay status_recorder p new_recorder) w =
     (let (x, (s, w')) = recorded p w in ((x, s), w'))"
  by (rule run_lay)

subsection \<open>Properties\<close>

text \<open>
  \<open>Chain\<close> composes in order: the first middleware is the outermost, and a chain splits at any point.
\<close>

theorem chain_order: "chain (a @ f # b) next = chain a (f (chain b next))"
  by (simp add: chain_foldr)

text \<open>
  C10.  \<open>RequestID\<close> always hands on a well-formed identifier of at most 256 bytes, sets it as the response
  header and stores it in the context: the client's own value when it is valid, else 32 hexadecimal
  digits from the random source.
\<close>

theorem request_id_valid:
  "let rid0 = hget (rq_header r) ''X-Request-ID'';
       keep = (valid_request_id_regex rid0 \<and> length rid0 \<le> 256);
       rid = (if keep then rid0 else hex_encode (fill 16 (fst (wd_random w (wd_rands w)))));
       w' = (if keep then w else w\<lparr>wd_rands := wd_rands w + 1\<rparr>)
   in valid_request_id_regex rid \<and> length rid \<le> 256
      \<and> request_id_from (r\<lparr>rq_ctx := (rq_ctx r)(RequestIDKey \<mapsto> rid)\<rparr>) = rid
      \<and> run net_step (request_id next r) w =
          run net_step (serve_copy next r (r\<lparr>rq_ctx := (rq_ctx r)(RequestIDKey \<mapsto> rid)\<rparr>))
            (w'\<lparr>wd_header := hset (wd_header w') ''X-Request-ID'' rid\<rparr>)"
proof -
  let ?id = "hget (rq_header r) ''X-Request-ID''"
  let ?bs = "fill 16 (fst (wd_random w (wd_rands w)))"
  have "?bs \<noteq> []" using length_fill [of 16 "fst (wd_random w (wd_rands w))"] by fastforce
  then have h: "valid_request_id_regex (hex_encode ?bs)" by (rule hex_request_id)
  have l: "length (hex_encode ?bs) = 32" by (simp add: hex_encode_length)
  show ?thesis
  proof (cases "valid_request_id_regex ?id \<and> length ?id \<le> 256")
    case True
    then have "?id \<noteq> []" by (auto simp: valid_request_id_regex_def)
    with True show ?thesis by (simp add: request_id_def Let_def request_id_from_def)
  next
    case False
    then have "?id = [] \<or> length ?id > 256 \<or> \<not> valid_request_id_regex ?id" by auto
    then have "run net_step (request_id next r) w =
        run net_step (serve_copy next r (r\<lparr>rq_ctx := (rq_ctx r)(RequestIDKey \<mapsto> hex_encode ?bs)\<rparr>))
          (w\<lparr>wd_rands := wd_rands w + 1, wd_header := hset (wd_header w) ''X-Request-ID'' (hex_encode ?bs)\<rparr>)"
      by (simp add: request_id_def Let_def run_bind run_generate_request_id)
    moreover have "(valid_request_id_regex ?id \<and> length ?id \<le> 256) = False" using False by simp
    ultimately show ?thesis unfolding Let_def using h l by (simp only:) (simp add: request_id_from_def)
  qed
qed

end
