(* ===== verification/Handlers.thy ===== *)
theory Handlers imports Middleware begin

text \<open>
  What the middlewares of \<^verbatim>\<open>middleware.go\<close> guarantee for every inner handler: the recorded status and size
  are those sent, one metric sample and a balanced in-flight gauge, contained panics, bounded bodies.
\<close>

subsection \<open>The recorder tells the truth\<close>

text \<open>
  Operations of a handler that sends final status codes only and neither flushes nor hijacks: the case
  in which the recorder's view is exact.
\<close>

definition plain_op :: "op \<Rightarrow> bool" where
  "plain_op e \<longleftrightarrow> (case e of WHeader c \<Rightarrow> 200 \<le> c \<and> c \<le> 999 | WFlush \<Rightarrow> False | WHijack \<Rightarrow> False | _ \<Rightarrow> True)"

lemma plain_op_simps [simp]:
  "plain_op (WHeader c) \<longleftrightarrow> 200 \<le> c \<and> c \<le> 999" "\<not> plain_op WFlush" "\<not> plain_op WHijack"
  "plain_op (WWrite p)" "plain_op (BRead n)" "plain_op BClose" "plain_op (WPush t)" "plain_op (WHas i)"
  "plain_op Now" "plain_op AskLogger" "plain_op (Log lg lv msg ats)" "plain_op (InFlight j)"
  "plain_op (RecMiddleware route st du)" "plain_op (HSet k v)" "plain_op (HAdd k v)" "plain_op (HDel k)" "plain_op (HGet k)"
  by (simp_all add: plain_op_def)

definition sent_bytes :: "world \<Rightarrow> nat" where
  "sent_bytes w = sum_list (map (payload_len w) (wd_body w))"

definition rec_inv :: "srec \<times> world \<Rightarrow> bool" where
  "rec_inv sw \<longleftrightarrow> (case sw of (s, w) \<Rightarrow>
     \<not> wd_hijacked w \<and> wd_wrote w = sr_committed s \<and> sr_written s = sent_bytes w
     \<and> sr_status s = (if wd_wrote w then wd_status w else 200))"

lemma net_step_frame:
  "wd_hijacked (snd (net_step w e)) = wd_hijacked w" "wd_wrote (snd (net_step w e)) = wd_wrote w"
  "wd_body (snd (net_step w e)) = wd_body w" "wd_status (snd (net_step w e)) = wd_status w"
  if "\<forall>c. e \<noteq> WHeader c" "\<forall>p. e \<noteq> WWrite p" "e \<noteq> WFlush" "e \<noteq> WHijack"
  using that by (cases e; simp add: net_read_def on_meters_def case_prod_beta split: option.split list.split)+

lemma sent_bytes_cong: "wd_body w' = wd_body w \<Longrightarrow> wd_frame_len w' = wd_frame_len w \<Longrightarrow> sent_bytes w' = sent_bytes w"
  by (simp add: sent_bytes_def payload_len_def)

lemma frame_len_step: "wd_frame_len (snd (net_step w e)) = wd_frame_len w"
  using commit_le_step [of w e] by (simp add: commit_le_def)

lemma rec_inv_pass:
  assumes "rec_inv (s, w)" "\<forall>c. e \<noteq> WHeader c" "\<forall>p. e \<noteq> WWrite p" "e \<noteq> WFlush" "e \<noteq> WHijack"
  shows "rec_inv (s, snd (net_step w e))"
  using assms net_step_frame [OF assms(2-5), of w] frame_len_step [of w e]
    sent_bytes_cong [of "snd (net_step w e)" w]
  by (simp add: rec_inv_def)

lemma net_write_result:
  assumes "\<not> wd_hijacked w" "wd_wrote w \<or> c = 200"
  shows "\<exists>n err. net_write p w = (RWrote n err, snd (net_write p w))
     \<and> sent_bytes (snd (net_write p w)) = sent_bytes w + n
     \<and> \<not> wd_hijacked (snd (net_write p w)) \<and> wd_wrote (snd (net_write p w))
     \<and> wd_status (snd (net_write p w)) = (if wd_wrote w then wd_status w else 200)"
proof -
  define v where "v = snd (net_write_header 200 w)"
  have v: "wd_wrote v" "\<not> wd_hijacked v" "wd_body v = wd_body w" "wd_frame_len v = wd_frame_len w"
    "wd_status v = (if wd_wrote w then wd_status w else 200)"
    using assms by (simp_all add: v_def net_write_header_def)
  have b: "sent_bytes v = sent_bytes w" using v by (intro sent_bytes_cong)
  show ?thesis
    unfolding net_write_def v_def [symmetric] Let_def
    using assms(1) v b
    by (auto simp: sent_bytes_def payload_len_def split: option.split)
qed

lemma rec_inv_write: "rec_inv (s, w) \<Longrightarrow> rec_inv (snd (over status_recorder net_step (s, w) (WWrite p)))"
proof -
  assume inv: "rec_inv (s, w)"
  then have "\<not> wd_hijacked w" by (simp add: rec_inv_def)
  from net_write_result [OF this, of 200 p] obtain n err where
    w: "net_write p w = (RWrote n err, snd (net_write p w))"
      "sent_bytes (snd (net_write p w)) = sent_bytes w + n"
      "\<not> wd_hijacked (snd (net_write p w))" "wd_wrote (snd (net_write p w))"
      "wd_status (snd (net_write p w)) = (if wd_wrote w then wd_status w else 200)"
    by blast
  obtain w' where w': "net_write p w = (RWrote n err, w')" using w(1) by metis
  show ?thesis
    using inv w(2-5) by (simp add: rec_inv_def over_def sr_write_def w' Let_def)
qed

lemma rec_inv_step: "plain_op e \<Longrightarrow> rec_inv sw \<Longrightarrow> rec_inv (snd (over status_recorder net_step sw e))"
proof -
  assume e: "plain_op e" and inv: "rec_inv sw"
  obtain s w where sw: "sw = (s, w)" by fastforce
  show ?thesis
  proof (cases "\<exists>c. e = WHeader c")
    case True
    then obtain c where c: "e = WHeader c" by blast
    then show ?thesis using e inv
      by (auto simp: sw rec_inv_def over_def sr_write_header_def net_write_header_def sent_bytes_def
          payload_len_def)
  next
    case False
    show ?thesis
    proof (cases "\<exists>p. e = WWrite p")
      case True
      then show ?thesis using rec_inv_write inv sw by blast
    next
      case nw: False
      have "e \<noteq> WFlush" "e \<noteq> WHijack" using e by auto
      then have p: "rec_inv (s, snd (net_step w e'))" if "e' = e \<or> (\<exists>i. e' = WHas i)" for e'
        using that False nw inv by (intro rec_inv_pass) (auto simp: sw)
      show ?thesis using False nw e p [of e] p [of "WHas IPusher"] inv
        by (cases e) (auto simp: sw over_def sr_push_def case_prod_beta)
    qed
  qed
qed

interpretation recinv: machine_invariant "over status_recorder net_step" plain_op rec_inv
  by unfold_locales (rule rec_inv_step)

lemma plain_layers [simp]: "layer_ok plain_op counting_body" "layer_ok plain_op no_body"
  "layer_ok plain_op max_bytes_reader" "layer_ok plain_op body_limit_reader"
  unfolding layer_ok_def
  by (intro allI impI, rename_tac s e, case_tac e;
      auto simp: cb_read_def mx_read_def bl_read_def Let_def split: res.split option.split)+

lemma counted_ok: "ops_ok plain_op p \<Longrightarrow> ops_ok plain_op (counted nil_body p)"
  by (simp add: counted_def ops_ok_lay ops_ok_bind split_beta)

lemma rec_inv_start: "net_uncommitted w \<Longrightarrow> wd_body w = [] \<Longrightarrow> rec_inv (new_recorder, w)"
  by (simp add: rec_inv_def new_recorder_def net_uncommitted_def sent_bytes_def)

lemma finish_status:
  "wd_status (net_finish Returned w) = (if wd_hijacked w \<or> wd_wrote w then wd_status w else 200)"
  by (simp add: net_finish_def net_write_header_def)

lemma rec_inv_status: "rec_inv (s, w) \<Longrightarrow> wd_status (net_finish Returned w) = sr_status s"
  by (simp add: rec_inv_def finish_status)

lemma rec_inv_written: "rec_inv (s, w) \<Longrightarrow> sent_bytes w = sr_written s"
  by (simp add: rec_inv_def)

subsection \<open>One sample per request\<close>

definition http_meter :: "world \<Rightarrow> meter option" where
  "http_meter w = (case wd_meters w of None \<Rightarrow> None | Some ms \<Rightarrow> ms_http ms)"

text \<open>Operations of a handler that does not touch the HTTP meter itself.\<close>

definition quiet_op :: "op \<Rightarrow> bool" where
  "quiet_op e \<longleftrightarrow> plain_op e \<and> (case e of InFlight i \<Rightarrow> False | RecMiddleware a b d \<Rightarrow> False | _ \<Rightarrow> True)"

lemma quiet_meter_step: "quiet_op e \<Longrightarrow> http_meter (snd (net_step w e)) = http_meter w"
  by (cases e)
    (auto simp: quiet_op_def http_meter_def net_write_header_def net_write_def net_hijack_def net_read_def
      on_meters_def record_graphql_metric_from_http_peek_def record_graphql_op_def Let_def case_prod_beta
      split: option.splits list.splits)

lemma quiet_recorder: "layer_ok quiet_op status_recorder"
  unfolding layer_ok_def
  by (intro allI impI, rename_tac s e, case_tac e;
      auto simp: quiet_op_def sr_write_header_def sr_write_def sr_flush_def sr_hijack_def sr_push_def Let_def
        split: res.split)

interpretation quiet: machine_invariant net_step quiet_op "\<lambda>w. http_meter w = v" for v
  by unfold_locales (simp add: quiet_meter_step)

interpretation quietrec: machine_invariant "over status_recorder net_step" quiet_op "\<lambda>sw. http_meter (snd sw) = v" for v
  by (rule quiet.over_invariant [OF quiet_recorder])

lemma recorded_facts:
  assumes "ops_ok quiet_op p" "net_uncommitted w" "wd_body w = []"
    and "recorded p w = (x, (s, w'))"
  shows "rec_inv (s, w')" "http_meter w' = http_meter w"
proof -
  have "ops_ok plain_op p" using assms(1) by (rule ops_ok_mono) (simp add: quiet_op_def)
  then have "rec_inv (snd (recorded p w))"
    using rec_inv_start [OF assms(2,3)] by (rule recinv.run_inv)
  then show "rec_inv (s, w')" by (simp add: assms(4))
  show "http_meter w' = http_meter w"
    using quietrec.run_inv [OF assms(1), of "(new_recorder, w)" "http_meter w"] assms(4) by simp
qed

subsection \<open>Properties\<close>

text \<open>
  Around a handler that sends final status codes, \<open>Metrics\<close> adds exactly one sample to the HTTP meter when
  the handler returns - under the route pattern the handler left in the request and the class of the
  status the client got - and none when it panics; in both cases the in-flight gauge is back where it was.
\<close>

theorem metrics_one_sample:
  assumes quiet: "ops_ok quiet_op (next r)"
    and fresh: "net_uncommitted w" "wd_body w = []" "http_meter w = Some m"
    and run: "run net_step (metrics next r) w = ((out, r'), w')"
  shows "\<exists>d. http_meter w' = Some (if out = Returned then
           meter_add m (get_route_pattern r' @ [key_sep] @ ''middleware'')
             (status_class (wd_status (net_finish Returned w'))) d
         else m)"
proof -
  let ?w1 = "on_meters (w\<lparr>wd_ticks := wd_ticks w + 1\<rparr>) (in_flight_add 1)"
  obtain x s w2 where rec: "recorded (next r) ?w1 = (x, (s, w2))" by (metis surj_pair)
  obtain o2 r2 where x: "x = (o2, r2)" by fastforce
  have has: "has_http_meter w" using fresh(3) by (auto simp: http_meter_def has_http_meter_def split: option.splits)
  have "net_uncommitted ?w1" "wd_body ?w1 = []"
    using fresh by (simp_all add: net_uncommitted_def on_meters_def)
  note facts = recorded_facts [OF quiet this rec]
  have m2: "http_meter w2 = Some (m\<lparr>mt_in_flight := mt_in_flight m + 1\<rparr>)"
    using facts(2) fresh(3) by (auto simp: http_meter_def on_meters_def in_flight_add_def split: option.splits)
  then obtain ms where ms: "wd_meters w2 = Some ms" "ms_http ms = Some (m\<lparr>mt_in_flight := mt_in_flight m + 1\<rparr>)"
    by (auto simp: http_meter_def split: option.splits)
  then have has2: "has_http_meter w2" by (simp add: has_http_meter_def)
  show ?thesis
  proof (cases o2)
    case (Panicked msg)
    with run has has2 rec x have "out = Panicked msg" "w' = on_meters w2 (in_flight_add (- 1))"
      by (simp_all add: metrics_def run_bind run_recorded has_http_meter_def)
    with ms show ?thesis by (simp add: http_meter_def on_meters_def in_flight_add_def)
  next
    case Returned
    let ?d = "wd_clock w2 (wd_ticks w2) - wd_clock w (wd_ticks w)"
    let ?key = "get_route_pattern r2 @ [key_sep] @ http_instr_middleware"
    have route: "get_route_pattern r2 \<noteq> []" by (simp add: get_route_pattern_def)
    have w': "out = Returned" "r' = r2"
      "w' = on_meters (w2\<lparr>wd_ticks := wd_ticks w2 + 1,
         wd_meters := record_http_from_middleware (wd_meters w2) (get_route_pattern r2) (sr_status s) ?d\<rparr>)
         (in_flight_add (- 1))"
      using run has ms rec x Returned route
      by (auto simp: metrics_def run_bind run_recorded has_http_meter_def record_http_from_middleware_def
          record_http_def http_instr_middleware_def Let_def)
    have "http_meter w' = Some (meter_add m ?key (status_class (sr_status s)) (clamp_duration ?d))"
      using w'(3) ms route
      by (simp add: http_meter_def on_meters_def in_flight_add_def record_http_from_middleware_def record_http_def
          http_instr_middleware_def Let_def meter_add_def classes_of_def)
    moreover have "wd_status (net_finish Returned w') = sr_status s"
      using rec_inv_status [OF facts(1)] w'(3)
      by (auto simp: finish_status on_meters_def split: if_splits)
    ultimately show ?thesis using w'(1,2) by (auto simp: http_instr_middleware_def)
  qed
qed

text \<open>
  For a handler that sends final status codes, the request log tells the truth: when the request
  returns, the last record is at the level of the status the client got, and its \<open>status\<close> and
  \<open>response_bytes\<close> are that status and the number of body bytes sent.
\<close>

theorem request_log_truth:
  assumes plain: "ops_ok plain_op (next (r\<lparr>rq_body_nil := False\<rparr>))"
    and fresh: "net_uncommitted w" "wd_body w = []"
    and run: "run net_step (request_log_with get api cfg next r) w = ((Returned, r'), w')"
  shows "\<exists>logs lg attrs. wd_logs w' =
           logs @ [(lg, log_level (wd_status (net_finish Returned w')), ''http request'', attrs)]
         \<and> map_of attrs ''status'' = Some (AInt (wd_status (net_finish Returned w')))
         \<and> map_of attrs ''response_bytes'' = Some (AInt (int (sent_bytes w')))"
proof -
  let ?p = "counted (rq_body_nil r) (next (r\<lparr>rq_body_nil := False\<rparr>))"
  let ?w1 = "w\<lparr>wd_ticks := wd_ticks w + 1\<rparr>"
  obtain o2 r2 n s w2 where rec: "recorded ?p ?w1 = (((o2, r2), n), (s, w2))" by (metis surj_pair)
  have "net_uncommitted ?w1" "wd_body ?w1 = []" using fresh by (simp_all add: net_uncommitted_def)
  then have "rec_inv (snd (recorded ?p ?w1))"
    by (intro recinv.run_inv counted_ok plain rec_inv_start)
  then have inv: "rec_inv (s, w2)" by (simp only: rec snd_conv)
  have ret: "o2 = Returned"
    using run rec by (cases o2) (simp_all add: request_log_with_def run_bind run_recorded)
  have get: "get" using run rec ret
    by (cases get) (simp_all add: request_log_with_def run_bind run_recorded)
  let ?d = "wd_clock w2 (wd_ticks w2) - wd_clock w (wd_ticks w)"
  have w': "w' = w2\<lparr>wd_ticks := wd_ticks w2 + 1,
      wd_logs := wd_logs w2 @ [(if wd_logger w2 then AppLogger else DefaultLogger, log_level (sr_status s),
        ''http request'', log_attrs api cfg r2 s n ?d)]\<rparr>"
    using run rec ret get by (auto simp: request_log_with_def run_bind run_recorded unless_panic_def)
  have st: "wd_status (net_finish Returned w') = sr_status s"
    using rec_inv_status [OF inv] by (auto simp: w' finish_status split: if_splits)
  have sz: "sent_bytes w' = sr_written s"
    using rec_inv_written [OF inv] sent_bytes_cong [of w' w2] by (simp add: w')
  have "map_of (log_attrs api cfg r2 s n ?d) ''status'' = Some (AInt (sr_status s))"
    "map_of (log_attrs api cfg r2 s n ?d) ''response_bytes'' = Some (AInt (int (sr_written s)))"
    by (simp_all add: log_attrs_def Let_def)
  moreover have "wd_logs w' = wd_logs w2 @ [(if wd_logger w2 then AppLogger else DefaultLogger,
      log_level (sr_status s), ''http request'', log_attrs api cfg r2 s n ?d)]"
    by (simp add: w')
  ultimately show ?thesis unfolding st sz by blast
qed

text \<open>An error writer that returns, whatever the state of the response it is given.\<close>

definition error_writer_returns :: "error_writer \<Rightarrow> bool" where
  "error_writer_returns ew \<longleftrightarrow>
     (\<forall>r f w. 200 \<le> fl_status f \<longrightarrow> fl_status f \<le> 999 \<longrightarrow> fst (run net_step (ew r f) w) = (Returned, r))"

lemma http_error_ends:
  assumes "200 \<le> code" "code \<le> 999"
  shows "fst (run net_step (http_error msg code) w) = Returned"
proof -
  have h: "fst (net_write_header code v) = RUnit" for v
    using assms by (simp add: net_write_header_def)
  have n: "\<not> is_panic (fst (net_write q v))" for q v
    by (simp add: net_write_def Let_def split: option.split)
  show ?thesis by (simp add: http_error_def case_prod_beta h n)
qed

lemma default_returns: "error_writer_returns (error_writer_or_default None)"
  by (simp add: error_writer_returns_def error_writer_or_default_def default_error_writer_def run_bind
      case_prod_beta http_error_ends Let_def)

text \<open>
  C14.  \<open>Recover\<close> contains every panic of the inner handler, at whatever point it comes: given a logger
  (no getter, or one that yields a logger) and an error writer that keeps its contract and returns, the
  request ends normally and one record of the panic is logged.  When the recorder saw a status or a
  write, nothing else happens: the response is left as it was.  Otherwise the error writer runs on the
  response as the handler left it: nothing sent becomes a 500; a response already sent (by \<open>Flush\<close>, which
  the recorder does not see) keeps its status and its header.
\<close>

theorem recover_contains_panic:
  assumes logger: "get \<longrightarrow> wd_logger w"
    and rec: "recorded (next r) w = ((Panicked p, r2), (s, w2))"
    and ew: "error_writer_ok (error_writer_or_default write) net_step net_uncommitted net_committed"
    and ret: "error_writer_returns (error_writer_or_default write)"
  shows "\<exists>w3 w4 lg attrs. run net_step (recover get write next r) w = ((Returned, r2), w4)
     \<and> w3 = w2\<lparr>wd_logs := wd_logs w2 @ [(lg, LError, ''panic recovered'', attrs)]\<rparr>
     \<and> map_of attrs ''panic'' = Some (AStr p)
     \<and> (if sr_committed s then w4 = w3
         else run net_step (error_writer_or_default write r2 (recover_failure r2)) w3 = ((Returned, r2), w4)
           \<and> (net_uncommitted w2 \<longrightarrow> net_committed w4 500)
           \<and> (wd_wrote w2 \<longrightarrow> wd_status w4 = wd_status w2 \<and> wd_sent w4 = wd_sent w2))"
proof -
  have "commit_le w w2"
    using recle.run_le [of "(new_recorder, w)" "next r"] rec by simp
  then have "wd_logger w2 = wd_logger w" by (simp add: commit_le_def)
  then obtain lg where lg: "run net_step (recover_logger get) w2 = (lg, w2)" "lg \<noteq> NilLogger"
    using logger by (cases get) (simp_all add: recover_logger_def)
  let ?attrs = "[(''panic'', AStr p), (''stack'', AStr ''goroutine''),
    (''request_id'', AStr (request_id_from r2)), (''route'', AStr (get_route_pattern r2))]"
  let ?w3 = "w2\<lparr>wd_logs := wd_logs w2 @ [(lg, LError, ''panic recovered'', ?attrs)]\<rparr>"
  let ?ew = "error_writer_or_default write r2 (recover_failure r2)"
  have run: "run net_step (recover get write next r) w =
      (if sr_committed s then ((Returned, r2), ?w3) else run net_step ?ew ?w3)"
    using rec lg by (simp add: recover_def run_bind run_recorded Let_def)
  have st: "fl_status (recover_failure r2) = 500" by (simp add: recover_failure_def)
  obtain w4 where w4: "run net_step ?ew ?w3 = ((Returned, r2), w4)"
    using ret [unfolded error_writer_returns_def, rule_format, of "recover_failure r2" r2 ?w3] st
    by (cases "run net_step ?ew ?w3") simp
  have c: "net_committed w4 500" if "net_uncommitted w2"
    using that error_writer_okD(2) [OF ew, of ?w3 "recover_failure r2" r2] st w4
    by (simp add: net_uncommitted_def)
  have k: "wd_status w4 = wd_status w2 \<and> wd_sent w4 = wd_sent w2" if "wd_wrote w2"
    using that net.run_le [of ?w3 ?ew] w4 by (simp add: commit_le_def)
  show ?thesis
  proof (cases "sr_committed s")
    case True
    then show ?thesis
      by (intro exI [of _ ?w3] exI [of _ lg] exI [of _ ?attrs]) (simp add: run)
  next
    case False
    then show ?thesis using w4 c k
      by (intro exI [of _ ?w3] exI [of _ w4] exI [of _ lg] exI [of _ ?attrs]) (simp add: run)
  qed
qed

lemma default_ok: "error_writer_ok (error_writer_or_default None) net_step net_uncommitted net_committed"
  using netw.default_error_writer_ok by (simp add: error_writer_or_default_def)

definition panicking :: "string \<Rightarrow> handler" where
  "panicking msg = (\<lambda>r. Ret (Panicked msg, r))"

text \<open>
  A logger getter that yields nil defeats \<open>Recover\<close>: the deferred function panics again on the nil
  logger, before any error is written, although \<open>RequestLog\<close> falls back to the default logger in that case.
\<close>

theorem recover_nil_logger_panics:
  "run net_step (recover True write (panicking msg) r) (w\<lparr>wd_logger := False\<rparr>) =
     ((Panicked ''nil pointer dereference'', r), w\<lparr>wd_logger := False\<rparr>)"
  by (simp add: recover_def panicking_def recover_logger_def run_bind Let_def)

text \<open>A handler that streams: it flushes the header, then panics.\<close>

definition stream_then_panic :: "handler" where
  "stream_then_panic = (\<lambda>r. Op WFlush (\<lambda>_. Ret (Panicked ''boom'', r)))"

text \<open>
  \<open>Flush\<close> sends the header but does not mark the recorder as committed: after it, \<open>Recover\<close> takes the
  response for uncommitted and appends the error text to a 200 response that is already on the wire.
\<close>

theorem recover_writes_after_flush:
  "let (out, r', w) = serve (recover False None stream_then_panic) r fresh_world
   in out = Returned \<and> wd_status w = 200
      \<and> wd_body w = [Raw (''Internal Server Error'' @ [CHR 0x0A])]
      \<and> hget (wd_sent w) ''Content-Type'' = []"
  by (simp add: serve_def recover_def stream_then_panic_def run_bind run_recorded over_def sr_flush_def
      new_recorder_def fresh_world_def net_write_header_def recover_logger_def error_writer_or_default_def
      default_error_writer_def recover_failure_def http_error_def unless_panic_def net_write_def
      payload_len_def frame_size_def body_allowed_def net_finish_def Let_def parse_digits_def)

text \<open>A handler that sends an informational response before its final status.\<close>

definition early_hints :: "int \<Rightarrow> handler" where
  "early_hints c = (\<lambda>r. Op (WHeader 103) (\<lambda>_. Op (WHeader c) (\<lambda>_. Ret (Returned, r))))"

text \<open>
  The recorder takes an informational status for the final one: below \<open>Recover\<close> (or any recording
  middleware) a handler that sends 103 and then a final status has that status swallowed, and the client
  gets 200; without the middleware it gets the status.
\<close>

theorem early_hints_lose_status:
  "wd_status (snd (snd (serve (early_hints 404) r fresh_world))) = 404
   \<and> wd_status (snd (snd (serve (recover False write (early_hints c)) r fresh_world))) = 200
   \<and> wd_info (snd (snd (serve (recover False write (early_hints c)) r fresh_world))) = [103]"
  by (simp add: serve_def recover_def early_hints_def run_bind run_recorded over_def sr_write_header_def
      new_recorder_def fresh_world_def net_write_header_def net_finish_def Let_def parse_digits_def)

lemma declared_too_large:
  assumes "0 < n" "n < rq_content_length r"
  shows "max_body_bytes n write next r = write_body_too_large (error_writer_or_default write) r"
  using assms by (simp add: max_body_bytes_def Let_def)

lemma run_limited:
  "run m (limited n p) w =
     (let (x, (b, (s, w'))) = run (over body_limit_reader (over max_bytes_reader m)) p
        (False, (new_max_bytes_reader n, w)) in ((x, b), w'))"
  by (simp add: limited_def run_bind run_lay case_prod_beta)

text \<open>
  A request that declares more than \<open>n\<close> bytes is answered 413 with \<open>Connection: close\<close>, and the inner
  handler plays no part in it.
\<close>

theorem max_body_declared_too_large:
  assumes "0 < n" "n < rq_content_length r" "net_uncommitted w"
  shows "let (x, w') = run net_step (max_body_bytes n None next r) w
         in x = (Returned, r) \<and> wd_wrote w' \<and> wd_status w' = 413 \<and> hvalues (wd_sent w') ''Connection'' = [''close'']
            \<and> (\<forall>next'. run net_step (max_body_bytes n None next' r) w = (x, w'))"
proof -
  let ?w1 = "w\<lparr>wd_header := hset (hset (hdel (hset (wd_header w) ''Connection'' ''close'') ''Content-Length'')
      ''Content-Type'' ''text/plain; charset=utf-8'') ''X-Content-Type-Options'' ''nosniff''\<rparr>"
  let ?w2 = "snd (net_write_header 413 ?w1)"
  let ?w3 = "snd (net_write (Raw (''Request body too large'' @ [CHR 0x0A])) ?w2)"
  have un: "\<not> wd_wrote w" "\<not> wd_hijacked w" using assms(3) by (simp_all add: net_uncommitted_def)
  have run: "run net_step (max_body_bytes n None nx r) w = ((Returned, r), ?w3)" for nx
  proof -
    have "\<not> is_panic (fst (net_write (Raw (''Request body too large'' @ [CHR 0x0A])) ?w2))"
      using netw.committed_write [of ?w2 413] un by (simp add: net_committed_def net_write_header_def)
    moreover have "fst (net_write_header 413 ?w1) = RUnit" using un by (simp add: net_write_header_def)
    ultimately show ?thesis
      by (simp add: declared_too_large [OF assms(1,2)] error_writer_or_default_def write_body_too_large_def
          default_error_writer_def http_error_def run_bind case_prod_beta Let_def)
  qed
  have "wd_wrote ?w2 \<and> wd_status ?w2 = 413 \<and> hvalues (wd_sent ?w2) ''Connection'' = [''close'']"
    using un by (simp add: net_write_header_def header_simps)
  moreover have "commit_le ?w2 ?w3" by (rule commit_le_write)
  ultimately have "wd_wrote ?w3 \<and> wd_status ?w3 = 413 \<and> hvalues (wd_sent ?w3) ''Connection'' = [''close'']"
    by (simp add: commit_le_def)
  then show ?thesis unfolding run by simp
qed

text \<open>
  A body that runs past \<open>n\<close> while the handler reads it, when the handler then returns without a response,
  is answered 413 through the error writer.
\<close>

theorem max_body_overrun:
  assumes "0 < n" "rq_content_length r \<le> n"
    and rec: "recorded (limited n (next (r\<lparr>rq_body_nil := False\<rparr>))) w = (((Returned, r2), True), (s, w2))"
    and state: "\<not> sr_committed s" "net_uncommitted w2"
    and ew: "error_writer_ok (error_writer_or_default write) (over status_recorder net_step)
      netw.rec_uncommitted netw.rec_committed"
  shows "fst (run net_step (max_body_bytes n write next r) w) = (Returned, r2)
    \<and> net_committed (snd (run net_step (max_body_bytes n write next r) w)) 413"
proof -
  let ?ew = "error_writer_or_default write"
  let ?f = "\<lparr>fl_status = 413, fl_code = error_code_payload_too_large,
     fl_message = ''Request body too large'', fl_request_id = request_id_from r2\<rparr>"
  let ?w3 = "w2\<lparr>wd_header := hset (wd_header w2) ''Connection'' ''close''\<rparr>"
  have un: "netw.rec_uncommitted (s, ?w3)"
    using state by (simp add: netw.rec_uncommitted_def net_uncommitted_def)
  have x: "fst (run (over status_recorder net_step) (?ew r2 ?f) (s, ?w3)) = (Returned, r2)"
    "netw.rec_committed (snd (run (over status_recorder net_step) (?ew r2 ?f) (s, ?w3))) 413"
    using error_writer_okD [of ?ew "over status_recorder net_step" netw.rec_uncommitted netw.rec_committed
        "(s, ?w3)" ?f r2] ew un by simp_all
  have "over status_recorder net_step (s, w2) (HSet ''Connection'' ''close'') = (RUnit, (s, ?w3))"
    by (simp add: over_def)
  then have "run net_step (max_body_bytes n write next r) w =
      (let (y, (s', w')) = run (over status_recorder net_step) (?ew r2 ?f) (s, ?w3) in (y, w'))"
    using assms(1,2) rec state(1)
    by (simp add: max_body_bytes_def Let_def run_bind run_recorded run_lay write_body_too_large_def case_prod_beta)
  with x show ?thesis by (simp add: case_prod_beta netw.rec_committed_def)
qed

text \<open>
  A handler together with a report, in the request it leaves, of the number of body bytes it was given.
\<close>

definition reading_report :: "handler \<Rightarrow> handler" where
  "reading_report h = (\<lambda>r. bindP (counted False (h r)) (\<lambda>((out, r'), k). Ret (out, r'\<lparr>rq_content_length := k\<rparr>)))"

definition reading_inv :: "int \<Rightarrow> int \<times> bool \<times> maxreader \<times> 'w \<Rightarrow> bool" where
  "reading_inv n st = (case st of (c, b, s, w) \<Rightarrow> 0 \<le> mx_left s \<and> c + mx_left s \<le> n)"

lemma reading_step:
  "reading_inv n st \<Longrightarrow>
   reading_inv n (snd (over counting_body (over body_limit_reader (over max_bytes_reader m)) st e))"
proof -
  assume inv: "reading_inv n st"
  obtain c b s w where st: "st = (c, b, s, w)" by (metis surj_pair)
  show ?thesis
  proof (cases e)
    case (BRead len)
    let ?len = "if int len - 1 > mx_left s then nat (mx_left s + 1) else len"
    obtain q w' where q: "m w (BRead ?len) = (q, w')" by fastforce
    show ?thesis using inv q
      by (cases q)
        (auto simp: BRead st over_def cb_read_def bl_read_def mx_read_def reading_inv_def Let_def split: option.split)
  qed (use inv in \<open>auto simp: st over_def reading_inv_def split: prod.split\<close>)
qed

interpretation reading: machine_invariant
  "over counting_body (over body_limit_reader (over max_bytes_reader m))" "\<lambda>e. True" "reading_inv n" for m n
  by unfold_locales (rule reading_step)

text \<open>
  C15.  Below \<open>MaxBodyBytes(n)\<close> a handler is never given more than \<open>n\<close> bytes of body, whatever it does and
  whatever arrives on the wire.
\<close>

theorem max_body_bounds_reads:
  assumes "0 < n" "rq_content_length r \<le> n"
  shows "rq_content_length (snd (fst (run net_step (max_body_bytes n None (reading_report h) r) w))) \<le> n"
proof -
  let ?m = "over body_limit_reader (over max_bytes_reader (over status_recorder net_step))"
  let ?st = "(False, (new_max_bytes_reader n, (new_recorder, w)))"
  let ?r = "r\<lparr>rq_body_nil := False\<rparr>"
  obtain o2 r2 k b s sr w2 where q: "run (over counting_body ?m) (h ?r) (0, ?st) = ((o2, r2), (k, (b, (s, (sr, w2)))))"
    by (metis surj_pair)
  have "reading_inv n (0 :: int, ?st)"
    using assms(1) by (simp add: reading_inv_def new_max_bytes_reader_def)
  then have "reading_inv n (snd (run (over counting_body ?m) (h ?r) (0, ?st)))"
    by (intro reading.run_inv ops_ok_all)
  then have k: "k \<le> n" by (simp add: q reading_inv_def)
  have rec: "recorded (limited n (reading_report h ?r)) w = (((o2, r2\<lparr>rq_content_length := k\<rparr>), b), (sr, w2))"
    by (simp add: run_limited reading_report_def counted_def run_bind run_lay q)
  have w413: "rq_content_length (snd (fst (run (over status_recorder net_step)
      (write_body_too_large default_error_writer r') sw))) = rq_content_length r'" for r' sw
    by (simp add: write_body_too_large_def default_error_writer_def run_bind case_prod_beta Let_def)
  show ?thesis
    using assms rec k w413 [of "r2\<lparr>rq_content_length := k\<rparr>" "(sr, w2)"]
    by (cases o2)
      (simp_all add: max_body_bytes_def Let_def run_bind run_recorded run_lay error_writer_or_default_def case_prod_beta)
qed

text \<open>The part of the world a body read depends on, and a body script without read errors.\<close>

definition body_view :: "world \<Rightarrow> (string \<times> gerr option) list \<times> gerr \<times> bool" where
  "body_view w = (wd_reads w, wd_final w, wd_body_nil w)"

definition clean_body :: "int \<Rightarrow> world \<Rightarrow> bool" where
  "clean_body n w \<longleftrightarrow> \<not> wd_body_nil w \<and> \<not> is_body_too_large (wd_final w)
     \<and> list_all (\<lambda>(chunk, err). err = None) (wd_reads w)
     \<and> int (length (concat (map fst (wd_reads w)))) \<le> n"

definition no_read :: "op \<Rightarrow> bool" where
  "no_read e \<longleftrightarrow> (case e of BRead n \<Rightarrow> False | _ \<Rightarrow> True)"

definition reads_some :: "op \<Rightarrow> bool" where
  "reads_some e \<longleftrightarrow> (case e of BRead n \<Rightarrow> 0 < n | _ \<Rightarrow> True)"

lemma no_read_view: "no_read e \<Longrightarrow> body_view (snd (net_step w e)) = body_view w"
  by (cases e)
    (auto simp: no_read_def body_view_def net_write_header_def net_write_def net_hijack_def on_meters_def Let_def
      case_prod_beta split: option.splits)

interpretation noread: machine_invariant net_step no_read "\<lambda>w. body_view w = v" for v
  by unfold_locales (simp add: no_read_view)

lemma no_read_recorder: "layer_ok no_read status_recorder"
  unfolding layer_ok_def
  by (intro allI impI, rename_tac s e, case_tac e;
      auto simp: no_read_def sr_write_header_def sr_write_def sr_flush_def sr_hijack_def sr_push_def Let_def
        split: res.split)

interpretation norec: machine_invariant "over status_recorder net_step" no_read "\<lambda>sw. body_view (snd sw) = v" for v
  by (rule noread.over_invariant [OF no_read_recorder])

text \<open>The limited body and the plain one, side by side.\<close>

definition limit_rel :: "bool \<times> maxreader \<times> srec \<times> world \<Rightarrow> srec \<times> world \<Rightarrow> bool" where
  "limit_rel a sw \<longleftrightarrow> (case a of (b, s, sw') \<Rightarrow>
     sw' = sw \<and> \<not> b \<and> clean_body (mx_left s) (snd sw)
     \<and> (mx_err s = None \<or> (mx_err s = Some (wd_final (snd sw)) \<and> wd_reads (snd sw) = [])))"

lemma limit_rel_read:
  assumes "limit_rel a sw" "0 < len"
  shows "fst (over body_limit_reader (over max_bytes_reader (over status_recorder net_step)) a (BRead len))
      = fst (over status_recorder net_step sw (BRead len))
    \<and> limit_rel (snd (over body_limit_reader (over max_bytes_reader (over status_recorder net_step)) a (BRead len)))
      (snd (over status_recorder net_step sw (BRead len)))"
proof -
  obtain s sr w where a: "a = (False, s, sr, w)" and sw: "sw = (sr, w)"
    using assms(1) by (cases a) (auto simp: limit_rel_def)
  have c: "clean_body (mx_left s) w" using assms(1) by (simp add: a sw limit_rel_def)
  show ?thesis
  proof (cases "wd_reads w")
    case Nil
    then show ?thesis using assms c
      by (auto simp: a sw limit_rel_def over_def bl_read_def mx_read_def net_read_def clean_body_def Let_def)
  next
    case (Cons x rest)
    then obtain chunk where x: "x = (chunk, None)" using c by (cases x) (auto simp: clean_body_def)
    have "mx_err s = None" using assms(1) Cons by (auto simp: a sw limit_rel_def)
    moreover have "int (length chunk) + int (length (concat (map fst rest))) \<le> mx_left s"
      using c by (simp add: clean_body_def Cons x)
    ultimately show ?thesis using assms(2) c
      by (auto simp: a sw limit_rel_def over_def bl_read_def mx_read_def net_read_def clean_body_def Cons x Let_def)
  qed
qed

lemma limit_rel_other:
  assumes "limit_rel a sw" "no_read e"
  shows "fst (over body_limit_reader (over max_bytes_reader (over status_recorder net_step)) a e)
      = fst (over status_recorder net_step sw e)
    \<and> limit_rel (snd (over body_limit_reader (over max_bytes_reader (over status_recorder net_step)) a e))
      (snd (over status_recorder net_step sw e))"
proof -
  obtain s where a: "a = (False, s, sw)"
    using assms(1) by (cases a) (auto simp: limit_rel_def)
  obtain r sw' where st: "over status_recorder net_step sw e = (r, sw')" by (metis surj_pair)
  have "over body_limit_reader (over max_bytes_reader (over status_recorder net_step)) a e = (r, (False, s, sw'))"
    using assms(2) st by (cases e) (simp_all add: a over_def [of body_limit_reader] over_def [of max_bytes_reader] no_read_def)
  moreover have "body_view (snd sw') = body_view (snd sw)"
    using norec.step [OF assms(2), of sw "body_view (snd sw)"] st by simp
  ultimately show ?thesis using assms(1) st
    by (simp add: a limit_rel_def clean_body_def body_view_def)
qed

interpretation limitsim: machine_simulation
  "over body_limit_reader (over max_bytes_reader (over status_recorder net_step))"
  "over status_recorder net_step" reads_some limit_rel
proof
  fix e a sw
  assume "reads_some e" "limit_rel a sw"
  then show "fst (over body_limit_reader (over max_bytes_reader (over status_recorder net_step)) a e)
      = fst (over status_recorder net_step sw e)
    \<and> limit_rel (snd (over body_limit_reader (over max_bytes_reader (over status_recorder net_step)) a e))
      (snd (over status_recorder net_step sw e))"
    using limit_rel_read limit_rel_other by (cases "no_read e") (auto simp: no_read_def reads_some_def split: op.splits)
qed

text \<open>
  What a handler does that a recorder and a limited body do not change: it reads into buffers that are not
  empty, sends no informational status (1xx other than 101) and no invalid one, and does not ask for
  \<open>http.Pusher\<close>, which the recorder claims to be whatever is below.
\<close>

definition plain_seen :: "op \<Rightarrow> bool" where
  "plain_seen e \<longleftrightarrow> (case e of BRead k \<Rightarrow> 0 < k | WHeader c \<Rightarrow> c = 101 \<or> 200 \<le> c \<and> c \<le> 999
     | WHas i \<Rightarrow> i \<noteq> IPusher | _ \<Rightarrow> True)"

text \<open>The recorder over a writer and the bare writer, side by side.\<close>

definition seen_rel :: "srec \<times> world \<Rightarrow> world \<Rightarrow> bool" where
  "seen_rel sw v \<longleftrightarrow> (case sw of (s, w) \<Rightarrow>
     w = v \<and> wd_caps w IFlusher \<and> wd_caps w IHijacker \<and> (sr_committed s \<longrightarrow> wd_wrote w \<or> wd_hijacked w))"

lemma net_step_caps: "wd_caps (snd (net_step w e)) = wd_caps w"
  by (cases e)
    (simp_all add: net_write_header_def net_write_def net_hijack_def net_read_def on_meters_def Let_def case_prod_beta
      split: option.split list.split)

lemma net_step_taken:
  "wd_wrote w \<or> wd_hijacked w \<Longrightarrow> wd_wrote (snd (net_step w e)) \<or> wd_hijacked (snd (net_step w e))"
  by (cases e)
    (auto simp: net_write_header_def net_write_def net_hijack_def net_read_def on_meters_def Let_def case_prod_beta
      split: option.split list.split)

lemma net_write_header_final:
  assumes "c = 101 \<or> 200 \<le> c \<and> c \<le> 999"
  shows "fst (net_write_header c w) = RUnit"
    "wd_wrote (snd (net_write_header c w)) \<or> wd_hijacked (snd (net_write_header c w))"
    "wd_wrote w \<or> wd_hijacked w \<Longrightarrow> net_write_header c w = (RUnit, w)"
  using assms by (auto simp: net_write_header_def)

lemma net_write_takes: "wd_wrote (snd (net_write p w)) \<or> wd_hijacked (snd (net_write p w))"
  using net_write_header_final(2) [of 200 w]
  by (auto simp: net_write_def Let_def split: option.split)

lemma net_write_wrote: "\<exists>n err. fst (net_write p w) = RWrote n err"
  by (simp add: net_write_def Let_def split: option.split)

lemma seen_rel_step:
  assumes "plain_seen e" "seen_rel sw v"
  shows "fst (over status_recorder net_step sw e) = fst (net_step v e)
    \<and> seen_rel (snd (over status_recorder net_step sw e)) (snd (net_step v e))"
proof -
  obtain s where sw: "sw = (s, v)" and caps: "wd_caps v IFlusher" "wd_caps v IHijacker"
    and c: "sr_committed s \<Longrightarrow> wd_wrote v \<or> wd_hijacked v"
    using assms(2) by (cases sw) (auto simp: seen_rel_def)
  have keep: "seen_rel (s, snd (net_step v e)) (snd (net_step v e))"
    using caps c net_step_caps [of v e] net_step_taken [of v e] by (auto simp: seen_rel_def)
  show ?thesis
  proof (cases e)
    case (WHeader k)
    with assms(1) have k: "k = 101 \<or> 200 \<le> k \<and> k \<le> 999" by (simp add: plain_seen_def)
    show ?thesis
      using keep net_write_header_final [OF k, of v] c caps net_step_caps [of v e]
      by (auto simp: WHeader sw over_def sr_write_header_def seen_rel_def case_prod_beta)
  next
    case (WWrite p)
    obtain n err w' where w: "net_write p v = (RWrote n err, w')" using net_write_wrote [of p v] by (metis prod.collapse)
    show ?thesis
      using w net_write_takes [of p v] caps net_step_caps [of v e]
      by (auto simp: WWrite sw over_def sr_write_def seen_rel_def Let_def)
  next
    case (WHas i)
    with assms(1) caps have "wd_caps v i" by (cases i) (simp_all add: plain_seen_def)
    with keep show ?thesis by (simp add: WHas sw over_def)
  qed (use keep caps in \<open>auto simp: sw over_def sr_flush_def sr_hijack_def sr_push_def case_prod_beta\<close>)
qed

interpretation seensim: machine_simulation "over status_recorder net_step" net_step plain_seen seen_rel
  by unfold_locales (rule seen_rel_step)

text \<open>A handler of that kind does not see a recorder, and neither does the world.\<close>

lemma recorder_unseen:
  assumes "ops_ok plain_seen p" "wd_caps w IFlusher" "wd_caps w IHijacker" "recorded p w = (x, (s, w'))"
  shows "run net_step p w = (x, w')"
proof -
  have "seen_rel (new_recorder, w) w" using assms(2,3) by (simp add: seen_rel_def new_recorder_def)
  from seensim.run_sim [OF assms(1) this] assms(4) show ?thesis
    by (simp add: seen_rel_def prod_eq_iff)
qed

text \<open>
  C16.  A body of at most \<open>n\<close> bytes, delivered without a read error, passes through \<open>MaxBodyBytes(n)\<close> as if the
  middleware were not there: the run under it is the run of the handler itself - result, request,
  response, logs, meters, everything - for a handler that reads into non-empty buffers, sends no
  informational or invalid status and does not ask for \<open>http.Pusher\<close>, over a writer that can flush and hijack.
\<close>

theorem max_body_transparent:
  assumes "0 < n" "rq_content_length r \<le> n" "\<not> rq_body_nil r" "clean_body n w"
    and "wd_caps w IFlusher" "wd_caps w IHijacker" "ops_ok plain_seen (next r)"
  shows "run net_step (max_body_bytes n write next r) w = run net_step (next r) w"
proof -
  let ?a = "(False, (new_max_bytes_reader n, (new_recorder, w)))"
  let ?m = "over body_limit_reader (over max_bytes_reader (over status_recorder net_step))"
  have r: "r\<lparr>rq_body_nil := False\<rparr> = r" using assms(3) by simp
  have some: "ops_ok reads_some (next r)"
    using assms(7) by (rule ops_ok_mono) (auto simp: plain_seen_def reads_some_def split: op.splits)
  have "limit_rel ?a (new_recorder, w)"
    using assms(1,4) by (simp add: limit_rel_def new_max_bytes_reader_def)
  from limitsim.run_sim [OF some this]
  have x: "fst (run ?m (next r) ?a) = fst (recorded (next r) w)"
    and rel: "limit_rel (snd (run ?m (next r) ?a)) (snd (recorded (next r) w))" by auto
  obtain out r2 b s sw where q: "run ?m (next r) ?a = ((out, r2), (b, (s, sw)))" by (metis surj_pair)
  obtain sr w2 where sw: "sw = (sr, w2)" by fastforce
  have b: "\<not> b" "recorded (next r) w = ((out, r2), (sr, w2))"
    using x rel q sw by (auto simp: limit_rel_def prod_eq_iff)
  have "recorded (limited n (next r)) w = (((out, r2), False), (sr, w2))"
    using q sw b(1) by (simp add: run_limited)
  moreover have "run net_step (next r) w = ((out, r2), w2)"
    using recorder_unseen [OF assms(7,5,6) b(2)] .
  ultimately show ?thesis using assms(1,2)
    by (cases out) (simp_all add: max_body_bytes_def Let_def run_bind run_recorded r)
qed

text \<open>What evaluates a concrete handler under the middlewares.\<close>

lemmas eval_simps = run_bind run_recorded run_lay over_def sr_write_header_def sr_write_def net_write_header_def
  net_write_def net_read_def has_http_meter_def fresh_world_def new_meters_def new_recorder_def blank_request_def
  get_route_pattern_def unless_panic_def on_meters_def Let_def case_prod_beta payload_len_def frame_size_def
  body_allowed_def parse_digits_def

subsection \<open>Where the route is seen\<close>

text \<open>\<open>http.ServeMux\<close> sets the pattern on the request it is given, then calls the handler of the route.\<close>

definition mux_route :: "string \<Rightarrow> handler \<Rightarrow> handler" where
  "mux_route pat h = (\<lambda>r. h (r\<lparr>rq_pattern := pat\<rparr>))"

definition no_content :: handler where
  "no_content = (\<lambda>r. Op (WHeader 204) (\<lambda>x. bindP (unless_panic x (Ret Returned)) (\<lambda>out. Ret (out, r))))"

definition sample_keys :: "world \<Rightarrow> string list option" where
  "sample_keys w = map_option (\<lambda>m. map fst (mt_total m)) (http_meter w)"

text \<open>
  The documented order \<open>Chain(Metrics, RequestID, ...)\<close> in front of a \<open>ServeMux\<close> records every route as
  \<open>unknown\<close>: \<open>RequestID\<close> serves a copy of the request, so the pattern the mux sets never reaches \<open>Metrics\<close>.
  With \<open>Metrics\<close> inside \<open>RequestID\<close> the pattern is recorded.
\<close>

theorem metrics_outside_request_id_loses_route:
  "sample_keys (snd (run net_step (chain [metrics, request_id] (mux_route pat no_content) blank_request) fresh_world))
     = Some [''unknown'' @ [key_sep] @ ''middleware'']
   \<and> sample_keys (snd (run net_step (chain [request_id, metrics] (mux_route pat no_content) blank_request) fresh_world))
     = Some [(if pat = [] then ''unknown'' else pat) @ [key_sep] @ ''middleware'']"
  by (simp add: eval_simps chain_foldr metrics_def request_id_def mux_route_def no_content_def serve_copy_def
      generate_request_id_def record_http_from_middleware_def record_http_def http_instr_middleware_def
      sample_keys_def http_meter_def in_flight_add_def meter_add_def new_request_meter_def classes_of_def)

subsection \<open>Concrete runs\<close>

definition missing_page :: handler where
  "missing_page = (\<lambda>r. Op (WHeader 404) (\<lambda>_. Op (WWrite (Raw ''no'')) (\<lambda>_. Ret (Returned, r))))"

lemma missing_page_ok: "ops_ok quiet_op (missing_page r)" "ops_ok plain_op (missing_page r)"
  by (simp_all add: missing_page_def quiet_op_def)

lemma fresh_facts: "net_uncommitted fresh_world" "wd_body fresh_world = []" "http_meter fresh_world = Some new_request_meter"
  by (simp_all add: fresh_world_def net_uncommitted_def http_meter_def new_meters_def)

theorem metrics_one_sample_witness:
  "\<exists>w' d. run net_step (metrics missing_page blank_request) fresh_world = ((Returned, blank_request), w')
     \<and> http_meter w' = Some (meter_add new_request_meter (''unknown'' @ [key_sep] @ ''middleware'')
          (status_class (wd_status (net_finish Returned w'))) d)"
proof -
  have "fst (run net_step (metrics missing_page blank_request) fresh_world) = (Returned, blank_request)"
    by (simp add: eval_simps metrics_def missing_page_def)
  then obtain w' where r: "run net_step (metrics missing_page blank_request) fresh_world = ((Returned, blank_request), w')"
    by (metis prod.collapse)
  from metrics_one_sample [OF missing_page_ok(1) fresh_facts r] r
  show ?thesis by (auto simp: get_route_pattern_def blank_request_def)
qed

definition plain_logs :: logs_api where
  "plain_logs = \<lparr>la_client_ip = (\<lambda>addr mode. addr), la_partial = ''partial''\<rparr>"

theorem request_log_truth_witness:
  "\<exists>w' logs lg attrs. run net_step (request_log True plain_logs missing_page blank_request) fresh_world
       = ((Returned, blank_request), w')
     \<and> wd_logs w' = logs @ [(lg, log_level (wd_status (net_finish Returned w')), ''http request'', attrs)]
     \<and> map_of attrs ''status'' = Some (AInt (wd_status (net_finish Returned w')))"
proof -
  have "fst (run net_step (request_log True plain_logs missing_page blank_request) fresh_world) = (Returned, blank_request)"
    by (simp add: eval_simps request_log_def request_log_with_def missing_page_def counted_def)
  then obtain w' where r: "run net_step (request_log_with True plain_logs default_log_config missing_page blank_request) fresh_world
      = ((Returned, blank_request), w')"
    unfolding request_log_def by (metis prod.collapse)
  from request_log_truth [OF missing_page_ok(2) fresh_facts(1,2) r] r
  show ?thesis unfolding request_log_def by blast
qed

theorem recover_contains_panic_witness:
  "fst (run net_step (recover False None (panicking ''boom'') blank_request) fresh_world) = (Returned, blank_request)
   \<and> net_committed (snd (run net_step (recover False None (panicking ''boom'') blank_request) fresh_world)) 500"
proof -
  have r: "recorded (panicking ''boom'' blank_request) fresh_world =
      ((Panicked ''boom'', blank_request), (new_recorder, fresh_world))"
    by (simp add: panicking_def)
  have l: "False \<longrightarrow> wd_logger fresh_world" by simp
  have "\<not> sr_committed new_recorder" by (simp add: new_recorder_def)
  then show ?thesis
    using recover_contains_panic [of False fresh_world "panicking ''boom''" blank_request, OF l r default_ok default_returns]
      fresh_facts(1) by auto
qed

definition big_request :: request where
  "big_request = blank_request\<lparr>rq_content_length := 100\<rparr>"

theorem max_body_declared_too_large_witness:
  "wd_status (snd (run net_step (max_body_bytes 8 None missing_page big_request) fresh_world)) = 413"
  using max_body_declared_too_large [of 8 big_request fresh_world missing_page] fresh_facts(1)
  by (simp add: big_request_def case_prod_beta)

text \<open>A handler that reads once and gives up on an error, and a body longer than its limit.\<close>

definition read_once :: handler where
  "read_once = (\<lambda>r. Op (BRead 16) (\<lambda>x. case x of
      RRead bs None \<Rightarrow> Op (WHeader 200) (\<lambda>_. Ret (Returned, r))
    | _ \<Rightarrow> Ret (Returned, r)))"

definition long_body :: world where
  "long_body = fresh_world\<lparr>wd_reads := [(''abcdefgh'', None)]\<rparr>"

lemma default_rec_ok: "error_writer_ok (error_writer_or_default None) (over status_recorder net_step)
    netw.rec_uncommitted netw.rec_committed"
  using recw.default_error_writer_ok by (simp add: error_writer_or_default_def)

theorem max_body_overrun_witness:
  "net_committed (snd (run net_step (max_body_bytes 4 None read_once blank_request) long_body)) 413"
proof -
  have nb: "blank_request\<lparr>rq_body_nil := False\<rparr> = blank_request" by (simp add: blank_request_def)
  have "recorded (limited 4 (read_once (blank_request\<lparr>rq_body_nil := False\<rparr>))) long_body =
      (((Returned, blank_request), True), (new_recorder, snd (snd (recorded (limited 4 (read_once blank_request)) long_body))))"
    and "net_uncommitted (snd (snd (recorded (limited 4 (read_once blank_request)) long_body)))"
    unfolding nb by (simp_all add: eval_simps run_limited read_once_def long_body_def bl_read_def mx_read_def
        new_max_bytes_reader_def net_uncommitted_def)
  from max_body_overrun [of 4 blank_request read_once long_body, OF _ _ this(1) _ this(2) default_rec_ok] show ?thesis
    by (simp add: blank_request_def new_recorder_def)
qed

theorem max_body_bounds_reads_witness:
  "rq_content_length (snd (fst (run net_step (max_body_bytes 4 None (reading_report read_once) blank_request) long_body))) \<le> 4"
  by (rule max_body_bounds_reads) (simp_all add: blank_request_def)

theorem max_body_transparent_witness:
  "run net_step (max_body_bytes 9 None read_once blank_request) long_body = run net_step (read_once blank_request) long_body"
proof (rule max_body_transparent)
  show "clean_body 9 long_body" by (simp add: clean_body_def long_body_def fresh_world_def)
  show "ops_ok plain_seen (read_once blank_request)"
    by (auto simp: read_once_def plain_seen_def split: res.split option.split)
qed (simp_all add: blank_request_def long_body_def fresh_world_def)

end
