(* ===== verification/GoMime.thy ===== *)
theory GoMime imports GoStrings begin

text \<open>
  \<open>mime.ParseMediaType\<close> of the standard library, as far as the module uses its results: the media type
  and whether there was an error.  (The values of parameters matter only for the rule that a repeated
  parameter must repeat its value.)
\<close>

definition mime_token_char :: "char \<Rightarrow> bool" where
  "mime_token_char c \<longleftrightarrow> char_code c > 32 \<and> char_code c < 127 \<and> c \<notin> set ''()<>@,;:/[]?=''
     \<and> char_code c \<noteq> 34 \<and> char_code c \<noteq> 92"

definition is_tspecial :: "char \<Rightarrow> bool" where
  "is_tspecial c \<longleftrightarrow> c \<in> set ''()<>@,;:/[]?='' \<or> char_code c = 34 \<or> char_code c = 92"

definition consume_token :: "string \<Rightarrow> string \<times> string" where
  "consume_token v = (takeWhile mime_token_char v, dropWhile mime_token_char v)"

text \<open>Inside a quoted string, after the opening quote; \<open>None\<close> when the string does not end.\<close>

fun consume_quoted :: "string \<Rightarrow> (string \<times> string) option" where
  "consume_quoted [] = None"
| "consume_quoted (c # cs) =
     (if char_code c = 34 then Some ([], cs)
      else case cs of
        d # ds \<Rightarrow>
          if char_code c = 92 \<and> is_tspecial d then map_option (\<lambda>(v, rest). (d # v, rest)) (consume_quoted ds)
          else if char_code c = 13 \<or> char_code c = 10 then None
          else map_option (\<lambda>(v, rest). (c # v, rest)) (consume_quoted cs)
      | [] \<Rightarrow> None)"

definition consume_value :: "string \<Rightarrow> string \<times> string" where
  "consume_value v =
     (case v of
        [] \<Rightarrow> ([], [])
      | c # cs \<Rightarrow>
          if char_code c \<noteq> 34 then consume_token v
          else (case consume_quoted cs of None \<Rightarrow> ([], v) | Some p \<Rightarrow> p))"

text \<open>\<open>TrimLeftFunc(_, unicode.IsSpace)\<close>\<close>

definition trim_left_space :: "string \<Rightarrow> string" where
  "trim_left_space s = trim_head False s"

text \<open>\<open>consumeMediaParam\<close>: \<open>None\<close> is the empty parameter name.\<close>

definition consume_media_param :: "string \<Rightarrow> (string \<times> string \<times> string) option" where
  "consume_media_param v =
     (case trim_left_space v of
        [] \<Rightarrow> None
      | c # rest1 \<Rightarrow>
          if c \<noteq> CHR '';'' then None
          else
            let (param, rest2) = consume_token (trim_left_space rest1) in
            if param = [] then None
            else case trim_left_space rest2 of
              [] \<Rightarrow> None
            | d # rest3 \<Rightarrow>
                if d \<noteq> CHR ''='' then None
                else
                  let rest4 = trim_left_space rest3;
                      (value, rest5) = consume_value rest4
                  in if value = [] \<and> rest5 = rest4 then None
                     else Some (to_lower param, value, rest5))"

text \<open>\<open>checkMediaTypeDisposition\<close>: whether the type is well formed.\<close>

definition check_media_type :: "string \<Rightarrow> bool" where
  "check_media_type s =
     (let (typ, rest) = consume_token s in
      if typ = [] then False
      else case rest of
        [] \<Rightarrow> True
      | c # rest' \<Rightarrow>
          c = CHR ''/'' \<and> (let (sub, rest2) = consume_token rest' in sub \<noteq> [] \<and> rest2 = []))"

text \<open>
  The parameter loop.  Every round consumes at least the semicolon, so the length of the text is enough
  fuel.
\<close>

datatype media_error = MNone | MInvalidParam | MDuplicate

fun media_params :: "nat \<Rightarrow> (string \<times> string) list \<Rightarrow> string \<Rightarrow> media_error" where
  "media_params 0 seen v = MNone"
| "media_params (Suc fuel) seen v0 =
     (let v = trim_left_space v0 in
      if v = [] then MNone
      else case consume_media_param v of
        None \<Rightarrow> if trim_space v = '';'' then MNone else MInvalidParam
      | Some (key, value, rest) \<Rightarrow>
          (case map_of seen key of
             Some value' \<Rightarrow> if value' \<noteq> value then MDuplicate else media_params fuel seen rest
           | None \<Rightarrow> media_params fuel ((key, value) # seen) rest))"

text \<open>The media type and whether there is an error.\<close>

definition parse_media_type :: "string \<Rightarrow> string \<times> bool" where
  "parse_media_type v =
     (let base = takeWhile (\<lambda>c. c \<noteq> CHR '';'') v;
          mediatype = trim_space (to_lower base)
      in if \<not> check_media_type mediatype then ([], True)
         else (case media_params (Suc (length v)) [] (drop (length base) v) of
                 MNone \<Rightarrow> (mediatype, False)
               | MInvalidParam \<Rightarrow> (mediatype, True)
               | MDuplicate \<Rightarrow> ([], True)))"

end
