(* ===== verification/Compression.thy ===== *)
theory Compression imports Handlers GoMime begin

text \<open>
  The compression middleware of \<^verbatim>\<open>security.go\<close>: \<open>gzipResponseWriter\<close> as a layer, and \<open>Compression\<close>.

  A \<open>gzip.Writer\<close> is a small state machine (open, closed, or stopped by a write error); its output is kept
  symbolic, as one frame per call in call order, so that decoding a body is reading the frames back.  The
  mutex of the writer is not modelled: a handler is a sequential program.
\<close>

subsection \<open>What is compressible\<close>

definition compressible_content_type :: "string \<Rightarrow> bool" where
  "compressible_content_type ct =
     (if ct = [] then True
      else let (media, err) = parse_media_type ct in
        if err then False
        else if equal_fold media ''text/event-stream'' then False
        else if has_prefix (to_lower media) ''text/'' then True
        else to_lower media \<in>
          {''application/json'', ''application/ld+json'', ''application/problem+json'',
           ''application/javascript'', ''application/xml'', ''application/xhtml+xml''})"

subsection \<open>The gzip writer\<close>

datatype gzstate = GzOpen | GzClosed | GzFailed gerr

text \<open>\<open>gzip.NewWriterLevel\<close> accepts the levels -2 to 9.\<close>

definition gzip_level_ok :: "int \<Rightarrow> bool" where
  "gzip_level_ok level \<longleftrightarrow> - 2 \<le> level \<and> level \<le> 9"

text \<open>Emitting one frame on the writer below; a write error sticks.\<close>

definition gz_emit :: "payload \<Rightarrow> gzstate \<Rightarrow> (res \<times> gzstate) prog" where
  "gz_emit frame z =
     Op (WWrite frame) (\<lambda>r. case r of
         RWrote n (Some e) \<Rightarrow> Ret (RErr (Some e), GzFailed e)
       | RPanic msg \<Rightarrow> Ret (RPanic msg, z)
       | _ \<Rightarrow> Ret (RErr None, z))"

definition gz_write :: "string \<Rightarrow> gzstate \<Rightarrow> (res \<times> gzstate) prog" where
  "gz_write p z =
     (case z of
        GzFailed e \<Rightarrow> Ret (RWrote 0 (Some e), z)
      | GzClosed \<Rightarrow> Ret (RWrote 0 (Some (EMsg ''flate: closed writer'')), z)
      | GzOpen \<Rightarrow> bindP (gz_emit (Gz p) z) (\<lambda>(r, z'). case r of
            RErr None \<Rightarrow> Ret (RWrote (length p) None, z')
          | RErr (Some e) \<Rightarrow> Ret (RWrote 0 (Some e), z')
          | _ \<Rightarrow> Ret (r, z')))"

definition gz_flush :: "gzstate \<Rightarrow> (res \<times> gzstate) prog" where
  "gz_flush z = (case z of GzFailed e \<Rightarrow> Ret (RErr (Some e), z) | GzClosed \<Rightarrow> Ret (RErr None, z) | GzOpen \<Rightarrow> gz_emit GzSync z)"

definition gz_close :: "gzstate \<Rightarrow> (res \<times> gzstate) prog" where
  "gz_close z =
     (case z of
        GzFailed e \<Rightarrow> Ret (RErr (Some e), z)
      | GzClosed \<Rightarrow> Ret (RErr None, z)
      | GzOpen \<Rightarrow> bindP (gz_emit GzEnd z) (\<lambda>(r, z'). Ret (r, if z' = GzOpen then GzClosed else z')))"

subsection \<open>The response writer\<close>

record gzw =
  gw_writer :: "gzstate option"
  gw_level :: int
  gw_min_size :: int
  gw_buf :: string
  gw_status :: int
  gw_committed :: bool
  gw_gzipping :: bool
  gw_passthrough :: bool

text \<open>A status that was never set is 200.\<close>

definition gw_final_status :: "gzw \<Rightarrow> int" where
  "gw_final_status s = (if gw_status s = 0 then 200 else gw_status s)"

lemma gw_final_status_frame [simp]:
  "gw_final_status (s\<lparr>gw_passthrough := b\<rparr>) = gw_final_status s"
  "gw_final_status (s\<lparr>gw_buf := bs\<rparr>) = gw_final_status s"
  by (simp_all add: gw_final_status_def)

definition commit_uncompressed :: "gzw \<Rightarrow> (res \<times> gzw) prog" where
  "commit_uncompressed s =
     (if gw_committed s then Ret (RUnit, s)
      else
        let s1 = s\<lparr>gw_status := gw_final_status s\<rparr>
        in Op (WHeader (gw_status s1)) (\<lambda>r.
             if is_panic r then Ret (r, s1)
             else
               let s2 = s1\<lparr>gw_committed := True\<rparr>
               in if gw_buf s2 \<noteq> [] then
                    Op (WWrite (Raw (gw_buf s2))) (\<lambda>r. if is_panic r then Ret (r, s2) else Ret (RUnit, s2\<lparr>gw_buf := []\<rparr>))
                  else Ret (RUnit, s2)))"

definition start_gzip :: "gzw \<Rightarrow> (res \<times> gzw) prog" where
  "start_gzip s =
     (if gw_committed s then Ret (RErr None, s)
      else
        Op (HDel ''Content-Length'') (\<lambda>_.
        Op (HSet ''Content-Encoding'' ''gzip'') (\<lambda>_.
        Op (HAdd ''Vary'' ''Accept-Encoding'') (\<lambda>_.
        let s1 = s\<lparr>gw_status := gw_final_status s\<rparr>
        in Op (WHeader (gw_status s1)) (\<lambda>r.
             if is_panic r then Ret (r, s1)
             else
               let s2 = s1\<lparr>gw_committed := True, gw_gzipping := True\<rparr>
               in if \<not> gzip_level_ok (gw_level s2) then
                    Ret (RErr (Some (EMsg ''gzip: invalid compression level'')), s2)
                  else
                    bindP (gz_write (gw_buf s2) GzOpen) (\<lambda>(r, z).
                      let s3 = s2\<lparr>gw_writer := Some z, gw_buf := []\<rparr>
                      in case r of
                           RWrote n err \<Rightarrow> Ret (RErr err, s3)
                         | _ \<Rightarrow> Ret (r, s2\<lparr>gw_writer := Some z\<rparr>)))))))"

definition gw_write_header :: "int \<Rightarrow> gzw \<Rightarrow> (res \<times> gzw) prog" where
  "gw_write_header code s =
     (if gw_committed s then Ret (RUnit, s)
      else
        let s1 = s\<lparr>gw_status := code\<rparr>
        in Op (HGet ''Content-Type'') (\<lambda>ct.
             if \<not> compressible_content_type (res_str ct)
             then commit_uncompressed (s1\<lparr>gw_passthrough := True\<rparr>)
             else Ret (RUnit, s1)))"

text \<open>The write below, after everything pending was committed.\<close>

definition gw_write_through :: "payload \<Rightarrow> gzw \<Rightarrow> (res \<times> gzw) prog" where
  "gw_write_through p s =
     bindP (commit_uncompressed (s\<lparr>gw_passthrough := True\<rparr>)) (\<lambda>(r, s'). if is_panic r then Ret (r, s') else pass (WWrite p) s')"

definition gw_write_text :: "string \<Rightarrow> gzw \<Rightarrow> (res \<times> gzw) prog" where
  "gw_write_text p s =
     (if gw_gzipping s then
        (case gw_writer s of
           None \<Rightarrow> Ret (RPanic ''nil pointer dereference'', s)
         | Some z \<Rightarrow> bindP (gz_write p z) (\<lambda>(r, z'). Ret (r, s\<lparr>gw_writer := Some z'\<rparr>)))
      else
        let s1 = s\<lparr>gw_buf := gw_buf s @ p\<rparr>
        in if int (length (gw_buf s1)) < gw_min_size s1 then Ret (RWrote (length p) None, s1)
           else bindP (start_gzip s1) (\<lambda>(r, s2). case r of
                  RErr None \<Rightarrow> Ret (RWrote (length p) None, s2)
                | RErr (Some e) \<Rightarrow> Ret (RWrote 0 (Some e), s2)
                | _ \<Rightarrow> Ret (r, s2)))"

text \<open>A handler writes plain bytes; the frames of a compressor above this one are passed on.\<close>

definition gw_write :: "payload \<Rightarrow> gzw \<Rightarrow> (res \<times> gzw) prog" where
  "gw_write p s =
     (if gw_passthrough s then gw_write_through p s
      else
        Op (HGet ''Content-Type'') (\<lambda>ct.
          if \<not> compressible_content_type (res_str ct) then gw_write_through p s
          else case p of
                 Raw bs \<Rightarrow> gw_write_text bs s
               | _ \<Rightarrow> gw_write_through p s))"

definition gw_close :: "gzw \<Rightarrow> (res \<times> gzw) prog" where
  "gw_close s =
     (case gw_writer s of
        Some z \<Rightarrow> bindP (gz_close z) (\<lambda>(r, z'). Ret (r, s\<lparr>gw_writer := Some z'\<rparr>))
      | None \<Rightarrow> bindP (commit_uncompressed s) (\<lambda>(r, s'). Ret (if is_panic r then r else RErr None, s')))"

definition gw_flush :: "gzw \<Rightarrow> (res \<times> gzw) prog" where
  "gw_flush s =
     bindP (case gw_writer s of
              Some z \<Rightarrow> bindP (gz_flush z) (\<lambda>(r, z'). Ret (r, s\<lparr>gw_writer := Some z'\<rparr>))
            | None \<Rightarrow> if \<not> gw_committed s then commit_uncompressed (s\<lparr>gw_passthrough := True\<rparr>) else Ret (RUnit, s))
       (\<lambda>(r, s'). if is_panic r then Ret (r, s')
                 else Op (WHas IFlusher) (\<lambda>h. if res_bool h then pass WFlush s' else Ret (RUnit, s')))"

definition gw_hijack :: "gzw \<Rightarrow> (res \<times> gzw) prog" where
  "gw_hijack s =
     Op (WHas IHijacker) (\<lambda>h.
       if \<not> res_bool h then
         Ret (RErr (Some (EMsg ''cf_http: underlying ResponseWriter does not implement http.Hijacker'')), s)
       else
         bindP (case gw_writer s of
                  Some z \<Rightarrow> bindP (gz_close z) (\<lambda>(r, z'). Ret (r, if is_panic r then s else s\<lparr>gw_writer := None\<rparr>))
                | None \<Rightarrow> commit_uncompressed s)
           (\<lambda>(r, s'). if is_panic r then Ret (r, s') else pass WHijack s'))"

fun gzip_response_writer :: "gzw \<Rightarrow> op \<Rightarrow> (res \<times> gzw) prog" where
  "gzip_response_writer s (WHeader code) = gw_write_header code s"
| "gzip_response_writer s (WWrite p) = gw_write p s"
| "gzip_response_writer s WFlush = gw_flush s"
| "gzip_response_writer s WHijack = gw_hijack s"
| "gzip_response_writer s (WPush t) = Ret (RErr (Some ENotSupported), s)"
| "gzip_response_writer s (WHas i) = Ret (RBool (i \<noteq> IPusher), s)"
| "gzip_response_writer s e = pass e s"

subsection \<open>The middleware\<close>

record compression_config =
  cc_min_size :: int
  cc_level :: int

definition compression_defaults :: "compression_config \<Rightarrow> compression_config" where
  "compression_defaults cfg =
     cfg\<lparr>cc_min_size := (if cc_min_size cfg = 0 then 1024 else cc_min_size cfg),
         cc_level := (if cc_level cfg = 0 then - 1 else cc_level cfg)\<rparr>"

definition new_gzip_writer :: "compression_config \<Rightarrow> gzw" where
  "new_gzip_writer cfg =
     \<lparr>gw_writer = None, gw_level = cc_level cfg, gw_min_size = cc_min_size cfg, gw_buf = [], gw_status = 0,
      gw_committed = False, gw_gzipping = False, gw_passthrough = False\<rparr>"

text \<open>The deferred \<open>Close\<close> runs on a return and on a panic; a panic of its own replaces the outcome.\<close>

definition gzip_serve :: "compression_config \<Rightarrow> handler \<Rightarrow> handler" where
  "gzip_serve cfg next r =
     bindP (lay gzip_response_writer (next r) (new_gzip_writer cfg)) (\<lambda>((out, r'), s).
     bindP (gw_close s) (\<lambda>(x, s'). case x of
         RPanic msg \<Rightarrow> Ret (Panicked msg, r')
       | _ \<Rightarrow> Ret (out, r')))"

definition compression :: "compression_config \<Rightarrow> middleware" where
  "compression cfg0 next = (\<lambda>r.
     let cfg = compression_defaults cfg0 in
     if \<not> contains (hget (rq_header r) ''Accept-Encoding'') ''gzip'' then next r
     else Op (HGet ''Content-Encoding'') (\<lambda>ce.
       if res_str ce \<noteq> [] then next r
       else if equal_fold (hget (rq_header r) ''Upgrade'') ''websocket'' then next r
       else gzip_serve cfg next r))"

subsection \<open>The compressed and the plain response, side by side\<close>




































lemma gw_same [simp]:
  "gw_writer s = x \<Longrightarrow> s\<lparr>gw_writer := x\<rparr> = s"
  "gw_passthrough s = b \<Longrightarrow> s\<lparr>gw_passthrough := b\<rparr> = s"
  by simp_all



















subsection \<open>The status\<close>










subsection \<open>Properties\<close>


text \<open>A client that accepts gzip, and three small handlers.\<close>

definition gzip_request :: request where
  "gzip_request = blank_request\<lparr>rq_header := hset Map.empty ''Accept-Encoding'' ''gzip''\<rparr>"


definition hijacker :: handler where
  "hijacker = (\<lambda>r. Op WHijack (\<lambda>_. Ret (Returned, r)))"

definition two_writes :: handler where
  "two_writes = (\<lambda>r. Op (WWrite (Raw ''ab'')) (\<lambda>_. Op (WWrite (Raw ''cd'')) (\<lambda>x.
     bindP (unless_panic x (Ret Returned)) (\<lambda>out. Ret (out, r)))))"



definition small_gzip :: compression_config where
  "small_gzip = \<lparr>cc_min_size = 2, cc_level = 0\<rparr>"

text \<open>
  A panic below \<open>Compression\<close> is reported to the client as success: the deferred \<open>Close\<close> commits an empty
  200 response while the panic unwinds, so \<open>Recover\<close> outside finds the response committed and cannot write
  its 500.  Without \<open>Compression\<close> the client gets the 500.
\<close>

theorem compression_hides_panic:
  "(let (out, r, w) = serve (chain [recover False None, compression small_gzip] (panicking ''boom'')) gzip_request fresh_world
    in out = Returned \<and> wd_status w = 200 \<and> wd_body w = [])
   \<and> (let (out, r, w) = serve (recover False None (panicking ''boom'')) gzip_request fresh_world
    in out = Returned \<and> wd_status w = 500)"
  by code_simp

text \<open>A handler that sets the status twice, as an error helper called after the status was set does.\<close>

definition twice :: "int \<Rightarrow> int \<Rightarrow> handler" where
  "twice a b = (\<lambda>r. Op (WHeader a) (\<lambda>_. Op (WHeader b) (\<lambda>_. Ret (Returned, r))))"

text \<open>
  While nothing is committed the compressor takes the last status it is given; \<open>net/http\<close> sends the first one
  and ignores the others.  Below \<open>Compression\<close> a 404 followed by a superfluous 200 reaches the client as 200.
\<close>

lemma compression_last_status:
  "wd_status (snd (snd (serve (twice 404 200) gzip_request fresh_world))) = 404
   \<and> wd_status (snd (snd (serve (compression small_gzip (twice 404 200)) gzip_request fresh_world))) = 200"
  by code_simp

text \<open>
  Hijacking through the compressor sends a 200 header on the connection before handing it over, although
  the handler wrote nothing; without the compressor nothing is sent.
\<close>

theorem hijack_through_compression_sends_header:
  "(let (x, w) = run net_step (compression small_gzip hijacker gzip_request) fresh_world
    in wd_hijacked w \<and> wd_wrote w \<and> wd_status w = 200)
   \<and> (let (x, w) = run net_step (hijacker gzip_request) fresh_world in wd_hijacked w \<and> \<not> wd_wrote w)"
  by code_simp

text \<open>A level the library rejects is only noticed while serving: the second write finds no gzip writer.\<close>

lemma bad_level_panics:
  "fst (fst (run net_step (compression \<lparr>cc_min_size = 1, cc_level = 12\<rparr> two_writes gzip_request) fresh_world))
     = Panicked ''nil pointer dereference''"
  by code_simp

end
