(* ===== verification/Cors.thy ===== *)
theory Cors imports Handlers begin

text \<open>
  The first part of \<^verbatim>\<open>security.go\<close>: \<open>CORSConfig\<close>, its validation and the CORS middleware, and
  \<open>SecurityHeaders\<close>.  A constructor that panics on an invalid configuration is a sum: the error, or the
  middleware.
\<close>

datatype security_error =
    ErrCORSCredentialsWildcard
  | ErrCSRFUnknownMode string
  | ErrCSRFExposeTokenOriginOnly
  | ErrCSRFInvalidTrustedHost string
  | ErrSecurityHeadersHSTSMaxAge

subsection \<open>CORS\<close>

record cors_config =
  co_origins :: "string list"
  co_methods :: "string list"
  co_headers :: "string list"
  co_exposed :: "string list"
  co_credentials :: bool
  co_max_age :: int

fun has_star :: "string list \<Rightarrow> bool" where
  "has_star [] = False"
| "has_star (o1 # os) = (if o1 = ''*'' then True else has_star os)"

definition cors_validate :: "cors_config \<Rightarrow> security_error option" where
  "cors_validate cfg =
     (if \<not> co_credentials cfg then None
      else if has_star (co_origins cfg) then Some ErrCORSCredentialsWildcard else None)"

text \<open>The loop over the allowed origins: whether one matched, and whether that was the wildcard.\<close>

fun cors_match :: "string list \<Rightarrow> string \<Rightarrow> bool \<times> bool" where
  "cors_match [] origin = (False, False)"
| "cors_match (o1 # os) origin =
     (if o1 = ''*'' then (True, True)
      else if o1 = origin then (True, False)
      else cors_match os origin)"

definition cors_defaults :: "cors_config \<Rightarrow> cors_config" where
  "cors_defaults cfg =
     (if co_methods cfg = [] then cfg\<lparr>co_methods := [''GET'', ''POST'', ''HEAD'']\<rparr> else cfg)"

text \<open>The headers of an actual or a preflight response, in the order they are set.\<close>

definition cors_common :: "cors_config \<Rightarrow> bool \<Rightarrow> string \<Rightarrow> (outcome \<times> request) prog \<Rightarrow> (outcome \<times> request) prog" where
  "cors_common cfg has_wildcard origin cont =
     Op (HAdd ''Vary'' ''Origin'') (\<lambda>_.
     Op (HSet ''Access-Control-Allow-Origin'' (if has_wildcard \<and> \<not> co_credentials cfg then ''*'' else origin)) (\<lambda>_.
     let c1 = (if co_exposed cfg \<noteq> []
               then Op (HSet ''Access-Control-Expose-Headers'' (join '', '' (co_exposed cfg))) (\<lambda>_. cont) else cont)
     in if co_credentials cfg then Op (HSet ''Access-Control-Allow-Credentials'' ''true'') (\<lambda>_. c1) else c1))"

definition cors_preflight :: "cors_config \<Rightarrow> request \<Rightarrow> (outcome \<times> request) prog" where
  "cors_preflight cfg r =
     (let finish = Op (WHeader 204) (\<lambda>x. bindP (unless_panic x (Ret Returned)) (\<lambda>out. Ret (out, r)));
          age = (if co_max_age cfg > 0
                 then Op (HSet ''Access-Control-Max-Age'' (itoa (co_max_age cfg))) (\<lambda>_. finish) else finish);
          hdrs = (if co_headers cfg \<noteq> []
                  then Op (HSet ''Access-Control-Allow-Headers'' (join '', '' (co_headers cfg))) (\<lambda>_. age) else age)
      in Op (HSet ''Access-Control-Allow-Methods'' (join '', '' (co_methods cfg))) (\<lambda>_. hdrs))"

definition cors_handler :: "cors_config \<Rightarrow> middleware" where
  "cors_handler cfg next = (\<lambda>r.
     let origin = hget (rq_header r) ''Origin'' in
     if origin = [] then next r
     else
       let (allowed, has_wildcard) = cors_match (co_origins cfg) origin in
       if \<not> allowed then next r
       else cors_common cfg has_wildcard origin
              (if rq_method r = ''OPTIONS'' then cors_preflight cfg r else next r))"

definition cors :: "cors_config \<Rightarrow> security_error + middleware" where
  "cors cfg = (case cors_validate cfg of Some e \<Rightarrow> Inl e | None \<Rightarrow> Inr (cors_handler (cors_defaults cfg)))"

subsection \<open>Security headers\<close>

record security_headers_config =
  sh_hsts_max_age :: int
  sh_include_subdomains :: bool
  sh_preload :: bool
  sh_no_sniff :: "bool option"

definition security_headers_validate :: "security_headers_config \<Rightarrow> security_error option" where
  "security_headers_validate cfg = (if sh_hsts_max_age cfg < 0 then Some ErrSecurityHeadersHSTSMaxAge else None)"

definition hsts_value :: "security_headers_config \<Rightarrow> string" where
  "hsts_value cfg =
     (if sh_hsts_max_age cfg > 0 then
        ''max-age='' @ itoa (sh_hsts_max_age cfg)
        @ (if sh_include_subdomains cfg then ''; includeSubDomains'' else [])
        @ (if sh_preload cfg then ''; preload'' else [])
      else [])"

definition security_headers :: "security_headers_config \<Rightarrow> security_error + middleware" where
  "security_headers cfg =
     (case security_headers_validate cfg of
        Some e \<Rightarrow> Inl e
      | None \<Rightarrow>
          let nosniff = (case sh_no_sniff cfg of None \<Rightarrow> True | Some b \<Rightarrow> b);
              hsts = hsts_value cfg
          in Inr (\<lambda>next r.
               let c1 = (if hsts \<noteq> [] then Op (HSet ''Strict-Transport-Security'' hsts) (\<lambda>_. next r) else next r)
               in if nosniff then Op (HSet ''X-Content-Type-Options'' ''nosniff'') (\<lambda>_. c1) else c1))"

subsection \<open>Lemmas\<close>

lemma has_star_iff [simp]: "has_star os \<longleftrightarrow> ''*'' \<in> set os"
  by (induction os) auto

lemma cors_match_iff:
  "cors_match os origin = (a, w) \<Longrightarrow>
   (a \<longleftrightarrow> ''*'' \<in> set os \<or> origin \<in> set os) \<and> (w \<longrightarrow> ''*'' \<in> set os)"
  by (induction os) (auto split: if_splits)

lemma cors_match_not: "fst (cors_match os origin) \<longleftrightarrow> ''*'' \<in> set os \<or> origin \<in> set os"
  by (induction os) auto

text \<open>What the middleware has put into the header map before anything else runs.\<close>

definition cors_header_map :: "cors_config \<Rightarrow> bool \<Rightarrow> string \<Rightarrow> header \<Rightarrow> header" where
  "cors_header_map cfg has_wildcard origin h =
     (let h1 = hset (hadd h ''Vary'' ''Origin'') ''Access-Control-Allow-Origin''
                 (if has_wildcard \<and> \<not> co_credentials cfg then ''*'' else origin);
          h2 = (if co_credentials cfg then hset h1 ''Access-Control-Allow-Credentials'' ''true'' else h1)
      in if co_exposed cfg \<noteq> [] then hset h2 ''Access-Control-Expose-Headers'' (join '', '' (co_exposed cfg)) else h2)"

lemma run_cors_common:
  "run net_step (cors_common cfg wild origin cont) w =
     run net_step cont (w\<lparr>wd_header := cors_header_map cfg wild origin (wd_header w)\<rparr>)"
  by (simp add: cors_common_def cors_header_map_def Let_def)

lemma cors_handler_defaults_origins [simp]:
  "co_origins (cors_defaults cfg) = co_origins cfg" "co_credentials (cors_defaults cfg) = co_credentials cfg"
  by (simp_all add: cors_defaults_def)

subsection \<open>Properties\<close>

text \<open>
  A request whose origin is absent or not allowed is handed to the inner handler untouched: no CORS
  header is set and no preflight is answered for it.
\<close>

theorem cors_denied_untouched:
  assumes "cors cfg = Inr mw"
    and "hget (rq_header r) ''Origin'' = []
       \<or> (''*'' \<notin> set (co_origins cfg) \<and> hget (rq_header r) ''Origin'' \<notin> set (co_origins cfg))"
  shows "mw next r = next r"
proof -
  have mw: "mw = cors_handler (cors_defaults cfg)"
    using assms(1) by (auto simp: cors_def split: option.splits)
  show ?thesis
  proof (cases "hget (rq_header r) ''Origin'' = []")
    case True
    then show ?thesis by (simp add: mw cors_handler_def)
  next
    case False
    with assms(2) have "\<not> fst (cors_match (co_origins cfg) (hget (rq_header r) ''Origin''))"
      by (simp add: cors_match_not)
    with False show ?thesis by (simp add: mw cors_handler_def Let_def case_prod_beta)
  qed
qed

text \<open>
  The header map the common part leaves, key by key: the origin that is answered is the wildcard exactly when
  it stands before the origin itself in the list.
\<close>

lemma cors_match_star:
  "''*'' \<in> set os \<or> origin \<in> set os \<Longrightarrow> origin \<noteq> ''*'' \<Longrightarrow>
   cors_match os origin = (True, ''*'' \<in> set (takeWhile (\<lambda>o1. o1 \<noteq> origin) os))"
  by (induction os) auto

lemma cors_match_of_star: "''*'' \<in> set os \<Longrightarrow> cors_match os ''*'' = (True, True)"
  by (induction os) auto

lemma cors_answer:
  assumes "cors cfg = Inr mw" "''*'' \<in> set (co_origins cfg) \<or> origin \<in> set (co_origins cfg)"
  shows "\<exists>wild. cors_match (co_origins cfg) origin = (True, wild)
     \<and> (if wild \<and> \<not> co_credentials cfg then ''*'' else origin) =
         (if ''*'' \<in> set (takeWhile (\<lambda>o1. o1 \<noteq> origin) (co_origins cfg)) then ''*'' else origin)"
proof -
  have v: "co_credentials cfg \<Longrightarrow> ''*'' \<notin> set (co_origins cfg)"
    using assms(1) by (auto simp: cors_def cors_validate_def split: option.splits if_splits)
  then have t: "co_credentials cfg \<Longrightarrow> ''*'' \<notin> set (takeWhile (\<lambda>o1. o1 \<noteq> origin) (co_origins cfg))"
    by (meson set_takeWhileD)
  show ?thesis
  proof (cases "origin = ''*''")
    case True
    then show ?thesis using assms(2) cors_match_of_star [of "co_origins cfg"] by auto
  next
    case False
    with assms(2) t show ?thesis by (auto simp: cors_match_star)
  qed
qed

lemma cors_header_map_apply:
  "cors_header_map cfg wild origin h k =
     (if k = ''Vary'' then Some (hvalues h ''Vary'' @ [''Origin''])
      else if k = ''Access-Control-Allow-Origin'' then Some [if wild \<and> \<not> co_credentials cfg then ''*'' else origin]
      else if k = ''Access-Control-Allow-Credentials'' \<and> co_credentials cfg then Some [''true'']
      else if k = ''Access-Control-Expose-Headers'' \<and> co_exposed cfg \<noteq> [] then Some [join '', '' (co_exposed cfg)]
      else h k)"
  by (simp add: cors_header_map_def Let_def hset_apply hadd_apply)

lemma cors_defaults_simps [simp]:
  "co_exposed (cors_defaults cfg) = co_exposed cfg" "co_headers (cors_defaults cfg) = co_headers cfg"
  "co_max_age (cors_defaults cfg) = co_max_age cfg"
  "co_methods (cors_defaults cfg) = (if co_methods cfg = [] then [''GET'', ''POST'', ''HEAD''] else co_methods cfg)"
  by (simp_all add: cors_defaults_def)

text \<open>
  C17.  For an allowed origin the inner handler runs, on any method but \<open>OPTIONS\<close>, with exactly the
  configured CORS headers set and nothing else changed: \<open>Origin\<close> added to \<open>Vary\<close>;
  \<open>Access-Control-Allow-Origin\<close> the wildcard when it stands before the origin in the list, else the origin
  itself, and the wildcard never together with credentials; \<open>Access-Control-Allow-Credentials: true\<close> exactly
  with credentials; \<open>Access-Control-Expose-Headers\<close> exactly when headers to expose are configured; every
  other key of the header map as it was.
\<close>

theorem cors_allowed_headers:
  assumes "cors cfg = Inr mw"
    and "hget (rq_header r) ''Origin'' = origin" "origin \<noteq> []" "rq_method r \<noteq> ''OPTIONS''"
    and "''*'' \<in> set (co_origins cfg) \<or> origin \<in> set (co_origins cfg)"
  shows "\<exists>h. run net_step (mw next r) w = run net_step (next r) (w\<lparr>wd_header := h\<rparr>)
     \<and> h ''Vary'' = Some (hvalues (wd_header w) ''Vary'' @ [''Origin''])
     \<and> h ''Access-Control-Allow-Origin'' =
         Some [if ''*'' \<in> set (takeWhile (\<lambda>o1. o1 \<noteq> origin) (co_origins cfg)) then ''*'' else origin]
     \<and> (h ''Access-Control-Allow-Origin'' = Some [''*''] \<longrightarrow> ''*'' \<in> set (co_origins cfg) \<and> \<not> co_credentials cfg)
     \<and> (co_credentials cfg \<longrightarrow> origin \<in> set (co_origins cfg))
     \<and> h ''Access-Control-Allow-Credentials'' =
         (if co_credentials cfg then Some [''true''] else wd_header w ''Access-Control-Allow-Credentials'')
     \<and> h ''Access-Control-Expose-Headers'' =
         (if co_exposed cfg \<noteq> [] then Some [join '', '' (co_exposed cfg)]
          else wd_header w ''Access-Control-Expose-Headers'')
     \<and> (\<forall>k. k \<notin> {''Vary'', ''Access-Control-Allow-Origin'', ''Access-Control-Allow-Credentials'',
                 ''Access-Control-Expose-Headers''} \<longrightarrow> h k = wd_header w k)"
proof -
  have mw: "mw = cors_handler (cors_defaults cfg)"
    using assms(1) by (auto simp: cors_def split: option.splits)
  have v: "co_credentials cfg \<Longrightarrow> ''*'' \<notin> set (co_origins cfg)"
    using assms(1) by (auto simp: cors_def cors_validate_def split: option.splits if_splits)
  obtain wild where m: "cors_match (co_origins cfg) origin = (True, wild)"
    and val: "(if wild \<and> \<not> co_credentials cfg then ''*'' else origin) =
      (if ''*'' \<in> set (takeWhile (\<lambda>o1. o1 \<noteq> origin) (co_origins cfg)) then ''*'' else origin)"
    using cors_answer [OF assms(1,5)] by blast
  let ?h = "cors_header_map (cors_defaults cfg) wild origin (wd_header w)"
  have 1: "run net_step (mw next r) w = run net_step (next r) (w\<lparr>wd_header := ?h\<rparr>)"
    using assms(2-4) m by (simp add: mw cors_handler_def run_cors_common Let_def)
  have 2: "origin = ''*'' \<Longrightarrow> ''*'' \<in> set (co_origins cfg)" using assms(5) by auto
  have 3: "''*'' \<in> set (takeWhile (\<lambda>o1. o1 \<noteq> origin) (co_origins cfg)) \<Longrightarrow> ''*'' \<in> set (co_origins cfg)"
    by (meson set_takeWhileD)
  show ?thesis
  proof (intro exI [of _ ?h] conjI)
    show "run net_step (mw next r) w = run net_step (next r) (w\<lparr>wd_header := ?h\<rparr>)" by (rule 1)
    show "?h ''Access-Control-Allow-Origin'' = Some [''*''] \<longrightarrow> ''*'' \<in> set (co_origins cfg) \<and> \<not> co_credentials cfg"
      using 2 3 v by (auto simp: cors_header_map_apply val split: if_splits)
  qed (use assms(5) v in \<open>auto simp: cors_header_map_apply val\<close>)
qed

text \<open>
  C18.  A preflight from an allowed origin is answered 204 without a body, and the inner handler plays no part
  in it.  The headers sent are exactly the configured ones on top of those already set: the common ones,
  \<open>Access-Control-Allow-Methods\<close> with the configured methods (the simple methods when none are),
  \<open>Access-Control-Allow-Headers\<close> when configured, \<open>Access-Control-Max-Age\<close> when positive; every other key is
  as it was, and nothing else of the world changes.
\<close>

theorem cors_preflight_answered:
  assumes "cors cfg = Inr mw"
    and "hget (rq_header r) ''Origin'' = origin" "origin \<noteq> []" "rq_method r = ''OPTIONS''"
    and "''*'' \<in> set (co_origins cfg) \<or> origin \<in> set (co_origins cfg)"
    and "net_uncommitted w"
  shows "\<exists>h cl. (\<forall>next. run net_step (mw next r) w = ((Returned, r),
       w\<lparr>wd_header := h, wd_sent := h, wd_wrote := True, wd_status := 204, wd_cl := cl\<rparr>))
     \<and> h ''Vary'' = Some (hvalues (wd_header w) ''Vary'' @ [''Origin''])
     \<and> h ''Access-Control-Allow-Origin'' =
         Some [if ''*'' \<in> set (takeWhile (\<lambda>o1. o1 \<noteq> origin) (co_origins cfg)) then ''*'' else origin]
     \<and> h ''Access-Control-Allow-Credentials'' =
         (if co_credentials cfg then Some [''true''] else wd_header w ''Access-Control-Allow-Credentials'')
     \<and> h ''Access-Control-Expose-Headers'' =
         (if co_exposed cfg \<noteq> [] then Some [join '', '' (co_exposed cfg)]
          else wd_header w ''Access-Control-Expose-Headers'')
     \<and> h ''Access-Control-Allow-Methods'' =
         Some [join '', '' (if co_methods cfg = [] then [''GET'', ''POST'', ''HEAD''] else co_methods cfg)]
     \<and> h ''Access-Control-Allow-Headers'' =
         (if co_headers cfg \<noteq> [] then Some [join '', '' (co_headers cfg)]
          else wd_header w ''Access-Control-Allow-Headers'')
     \<and> h ''Access-Control-Max-Age'' =
         (if co_max_age cfg > 0 then Some [itoa (co_max_age cfg)] else wd_header w ''Access-Control-Max-Age'')
     \<and> (\<forall>k. k \<notin> {''Vary'', ''Access-Control-Allow-Origin'', ''Access-Control-Allow-Credentials'',
                 ''Access-Control-Expose-Headers'', ''Access-Control-Allow-Methods'', ''Access-Control-Allow-Headers'',
                 ''Access-Control-Max-Age''} \<longrightarrow> h k = wd_header w k)"
proof -
  let ?cfg = "cors_defaults cfg"
  have mw: "mw = cors_handler ?cfg"
    using assms(1) by (auto simp: cors_def split: option.splits)
  obtain wild where m: "cors_match (co_origins cfg) origin = (True, wild)"
    and val: "(if wild \<and> \<not> co_credentials cfg then ''*'' else origin) =
      (if ''*'' \<in> set (takeWhile (\<lambda>o1. o1 \<noteq> origin) (co_origins cfg)) then ''*'' else origin)"
    using cors_answer [OF assms(1,5)] by blast
  let ?h0 = "cors_header_map ?cfg wild origin (wd_header w)"
  let ?h1 = "hset ?h0 ''Access-Control-Allow-Methods'' (join '', '' (co_methods ?cfg))"
  let ?h2 = "if co_headers ?cfg \<noteq> [] then hset ?h1 ''Access-Control-Allow-Headers'' (join '', '' (co_headers ?cfg)) else ?h1"
  let ?h3 = "if co_max_age ?cfg > 0 then hset ?h2 ''Access-Control-Max-Age'' (itoa (co_max_age ?cfg)) else ?h2"
  let ?cl = "parse_digits (hget ?h3 ''Content-Length'')"
  have un: "\<not> wd_wrote w" "\<not> wd_hijacked w" using assms(6) by (simp_all add: net_uncommitted_def)
  have 1: "run net_step (mw nx r) w = ((Returned, r),
      w\<lparr>wd_header := ?h3, wd_sent := ?h3, wd_wrote := True, wd_status := 204, wd_cl := ?cl\<rparr>)" for nx
    using assms(2-4) m un
    by (simp add: mw cors_handler_def run_cors_common cors_preflight_def Let_def run_bind net_write_header_def
        unless_panic_def del: cors_defaults_simps)
  show ?thesis
    by (intro exI [of _ ?h3] exI [of _ ?cl] conjI allI, rule 1)
      (simp_all add: hset_apply cors_header_map_apply val)
qed

definition example_cors :: cors_config where
  "example_cors = \<lparr>co_origins = [''https://a.test''], co_methods = [], co_headers = [], co_exposed = [''ETag'', ''Link''],
     co_credentials = True, co_max_age = 60\<rparr>"

definition origin_request :: "string \<Rightarrow> request" where
  "origin_request o1 = blank_request\<lparr>rq_header := hset Map.empty ''Origin'' o1\<rparr>"

lemma example_cors_ok: "cors example_cors = Inr (cors_handler (cors_defaults example_cors))"
  by (simp add: cors_def cors_validate_def example_cors_def)

theorem cors_denied_untouched_witness:
  "cors_handler (cors_defaults example_cors) missing_page (origin_request ''https://b.test'') =
     missing_page (origin_request ''https://b.test'')"
  by (rule cors_denied_untouched [OF example_cors_ok]) (simp add: example_cors_def origin_request_def header_simps)

theorem cors_allowed_headers_witness:
  "\<exists>h. run net_step (cors_handler (cors_defaults example_cors) missing_page (origin_request ''https://a.test'')) fresh_world
     = run net_step (missing_page (origin_request ''https://a.test'')) (fresh_world\<lparr>wd_header := h\<rparr>)
     \<and> h ''Access-Control-Allow-Credentials'' = Some [''true'']
     \<and> h ''Access-Control-Expose-Headers'' = Some [''ETag, Link'']"
proof -
  have h: "hget (rq_header (origin_request ''https://a.test'')) ''Origin'' = ''https://a.test''"
    and m: "rq_method (origin_request ''https://a.test'') \<noteq> ''OPTIONS''"
    and o: "''*'' \<in> set (co_origins example_cors) \<or> ''https://a.test'' \<in> set (co_origins example_cors)"
    by (simp_all add: origin_request_def header_simps blank_request_def example_cors_def)
  have e: "co_credentials example_cors" "join '', '' (co_exposed example_cors) = ''ETag, Link''" "co_exposed example_cors \<noteq> []"
    by (simp_all add: example_cors_def)
  from cors_allowed_headers [OF example_cors_ok h _ m o, of missing_page fresh_world] show ?thesis
    unfolding e(2) using e(1,3) by auto
qed

theorem cors_preflight_answered_witness:
  "let w' = snd (run net_step (cors_handler (cors_defaults example_cors) missing_page
       (origin_request ''https://a.test''\<lparr>rq_method := ''OPTIONS''\<rparr>)) fresh_world)
   in wd_status w' = 204 \<and> wd_sent w' ''Access-Control-Allow-Methods'' = Some [''GET, POST, HEAD'']"
proof -
  let ?r = "origin_request ''https://a.test''\<lparr>rq_method := ''OPTIONS''\<rparr>"
  have h: "hget (rq_header ?r) ''Origin'' = ''https://a.test''" and m: "rq_method ?r = ''OPTIONS''"
    and o: "''*'' \<in> set (co_origins example_cors) \<or> ''https://a.test'' \<in> set (co_origins example_cors)"
    by (simp_all add: origin_request_def header_simps example_cors_def)
  have j: "join '', '' (if co_methods example_cors = [] then [''GET'', ''POST'', ''HEAD''] else co_methods example_cors)
      = ''GET, POST, HEAD''"
    by (simp add: example_cors_def)
  have "''https://a.test'' \<noteq> []" by simp
  from cors_preflight_answered [OF example_cors_ok h this m o fresh_facts(1)] obtain h cl where
    "run net_step (cors_handler (cors_defaults example_cors) missing_page ?r) fresh_world = ((Returned, ?r),
       fresh_world\<lparr>wd_header := h, wd_sent := h, wd_wrote := True, wd_status := 204, wd_cl := cl\<rparr>)"
    "h ''Access-Control-Allow-Methods'' = Some [''GET, POST, HEAD'']"
    unfolding j by (elim exE conjE) blast
  then show ?thesis by (simp add: Let_def)
qed

text \<open>
  \<open>SecurityHeaders\<close> rejects exactly the negative ages; an accepted configuration serves the inner handler
  with \<open>X-Content-Type-Options: nosniff\<close> unless it was switched off, and with a
  \<open>Strict-Transport-Security\<close> header exactly when the age is positive.
\<close>

theorem security_headers_spec:
  "case security_headers cfg of
     Inl e \<Rightarrow> e = ErrSecurityHeadersHSTSMaxAge \<and> sh_hsts_max_age cfg < 0
   | Inr mw \<Rightarrow> sh_hsts_max_age cfg \<ge> 0 \<and>
       (\<forall>next r w. \<exists>h. run net_step (mw next r) w = run net_step (next r) (w\<lparr>wd_header := h\<rparr>)
         \<and> hvalues h ''X-Content-Type-Options'' =
             (if sh_no_sniff cfg = Some False then hvalues (wd_header w) ''X-Content-Type-Options'' else [''nosniff''])
         \<and> hvalues h ''Strict-Transport-Security'' =
             (if sh_hsts_max_age cfg > 0
              then [''max-age='' @ itoa (sh_hsts_max_age cfg)
                    @ (if sh_include_subdomains cfg then ''; includeSubDomains'' else [])
                    @ (if sh_preload cfg then ''; preload'' else [])]
              else hvalues (wd_header w) ''Strict-Transport-Security''))"
proof (cases "sh_hsts_max_age cfg < 0")
  case True
  then show ?thesis by (simp add: security_headers_def security_headers_validate_def)
next
  case False
  let ?sniff = "case sh_no_sniff cfg of None \<Rightarrow> True | Some b \<Rightarrow> b"
  have sniff: "?sniff \<longleftrightarrow> sh_no_sniff cfg \<noteq> Some False" by (auto split: option.split)
  define hsts where "hsts = hsts_value cfg"
  have hv: "hsts \<noteq> [] \<longleftrightarrow> sh_hsts_max_age cfg > 0" by (simp add: hsts_def hsts_value_def)
  define h :: "world \<Rightarrow> header" where "h w = (let h1 = (if ?sniff then hset (wd_header w) ''X-Content-Type-Options'' ''nosniff'' else wd_header w)
      in if hsts \<noteq> [] then hset h1 ''Strict-Transport-Security'' hsts else h1)" for w
  obtain mw where mw: "security_headers cfg = Inr mw"
    using False by (simp add: security_headers_def security_headers_validate_def Let_def)
  have 1: "run net_step (mw nx r) w = run net_step (nx r) (w\<lparr>wd_header := h w\<rparr>)" for nx r w
  proof -
    have "mw = (\<lambda>next r. let c1 = (if hsts \<noteq> [] then Op (HSet ''Strict-Transport-Security'' hsts) (\<lambda>_. next r) else next r)
               in if ?sniff then Op (HSet ''X-Content-Type-Options'' ''nosniff'') (\<lambda>_. c1) else c1)"
      using mw False unfolding security_headers_def security_headers_validate_def hsts_def Let_def by auto
    then show ?thesis by (auto simp: h_def Let_def)
  qed
  have 2: "hvalues (h w) ''X-Content-Type-Options'' =
      (if sh_no_sniff cfg = Some False then hvalues (wd_header w) ''X-Content-Type-Options'' else [''nosniff''])" for w
    using sniff by (simp add: h_def Let_def header_simps)
  have 3: "hvalues (h w) ''Strict-Transport-Security'' =
      (if sh_hsts_max_age cfg > 0
       then [''max-age='' @ itoa (sh_hsts_max_age cfg)
             @ (if sh_include_subdomains cfg then ''; includeSubDomains'' else [])
             @ (if sh_preload cfg then ''; preload'' else [])]
       else hvalues (wd_header w) ''Strict-Transport-Security'')" for w
    using hv by (simp add: h_def Let_def header_simps) (simp add: hsts_def hsts_value_def)
  have 4: "sh_hsts_max_age cfg \<ge> 0" using False by simp
  show ?thesis
    unfolding mw sum.case by (intro conjI allI 4 exI) (rule 1 2 3)+
qed

end
