(* ===== verification/GoUrl.thy ===== *)
theory GoUrl imports GoNet begin

text \<open>
  \<open>url.Parse\<close> of the standard library as far as the module reads its result: the scheme and the host, or an
  error; and \<open>url.ParseQuery\<close>.
\<close>

subsection \<open>Percent decoding\<close>

definition is_alnum :: "char \<Rightarrow> bool" where
  "is_alnum c \<longleftrightarrow> is_lower c \<or> is_upper c \<or> is_digit c"

datatype esc_mode = EncPath | EncHost | EncZone | EncUser | EncQuery

text \<open>The bytes a host may contain unescaped (\<open>shouldEscape\<close> is false for them).\<close>

definition host_byte :: "char \<Rightarrow> bool" where
  "host_byte c \<longleftrightarrow> is_alnum c \<or> c \<in> set ''!$&()*+,;=:[]<>-_.~'' \<or> char_code c = 39 \<or> char_code c = 34
     \<or> char_code c \<ge> 128"

definition unhex :: "char \<Rightarrow> nat" where
  "unhex c = (case hex_val c of None \<Rightarrow> 0 | Some n \<Rightarrow> n)"

fun unescape :: "esc_mode \<Rightarrow> string \<Rightarrow> string option" where
  "unescape m [] = Some []"
| "unescape m (c # cs) =
     (if c = CHR 0x25 then
        (case cs of
           a # b # rest \<Rightarrow>
             if \<not> (is_hex_digit a \<and> is_hex_digit b) then None
             else if m = EncHost \<and> unhex a < 8 \<and> \<not> (a = CHR ''2'' \<and> b = CHR ''5'') then None
             else map_option ((#) (char_of (unhex a * 16 + unhex b))) (unescape m rest)
         | _ \<Rightarrow> None)
      else if m \<in> {EncHost, EncZone} \<and> \<not> host_byte c then None
      else map_option ((#) (if m = EncQuery \<and> c = CHR ''+'' then CHR '' '' else c)) (unescape m cs))"

subsection \<open>Parsing\<close>

text \<open>\<open>getScheme\<close>: \<open>None\<close> is the missing scheme error; the position counts from the start.\<close>

fun get_scheme :: "bool \<Rightarrow> string \<Rightarrow> (string \<times> string) option option" where
  "get_scheme first [] = Some None"
| "get_scheme first (c # cs) =
     (if is_lower c \<or> is_upper c \<or> (is_digit c \<or> c \<in> set ''+-.'') \<and> \<not> first then
        (case get_scheme False cs of
           Some (Some (s, rest)) \<Rightarrow> Some (Some (c # s, rest))
         | other \<Rightarrow> other)
      else if c = CHR '':'' then (if first then None else Some (Some ([], cs)))
      else Some None)"

definition valid_optional_port :: "string \<Rightarrow> bool" where
  "valid_optional_port p = (case p of [] \<Rightarrow> True | c # ds \<Rightarrow> c = CHR '':'' \<and> list_all is_digit ds)"

definition valid_userinfo :: "string \<Rightarrow> bool" where
  "valid_userinfo s = list_all (\<lambda>c. is_alnum c \<or> c \<in> set ''-._:~!$&()*+,;=@'' \<or> char_code c = 37 \<or> char_code c = 39) s"

text \<open>\<open>parseHost\<close>; what stands in brackets must be an IPv6 address (a zone is split off at \<open>%25\<close>).\<close>

definition parse_host :: "string \<Rightarrow> string option" where
  "parse_host host =
     (case last_index_byte CHR ''['' host of
        Some i \<Rightarrow>
          (case last_index_byte CHR '']'' host of
             None \<Rightarrow> None
           | Some j \<Rightarrow>
               let port = drop (j + 1) host;
                   inner = take (j - (i + 1)) (drop (i + 1) host);
                   (addr, zone) = (case cut_byte CHR 0x25 inner of None \<Rightarrow> (inner, []) | Some (a, z) \<Rightarrow> (a, CHR 0x25 # z))
               in if \<not> valid_optional_port port \<or> j < i then None
                  else (case (unescape EncHost addr, unescape EncZone zone) of
                          (Some a, Some z) \<Rightarrow>
                            if parse_ip a \<noteq> None \<and> CHR '':'' \<in> set a then Some (''['' @ a @ z @ '']'' @ port) else None
                        | _ \<Rightarrow> None))
      | None \<Rightarrow>
          (case last_index_byte CHR '':'' host of
             Some i \<Rightarrow> if valid_optional_port (drop i host) then unescape EncHost host else None
           | None \<Rightarrow> unescape EncHost host))"

definition parse_authority :: "string \<Rightarrow> string option" where
  "parse_authority a =
     (case last_index_byte CHR ''@'' a of
        None \<Rightarrow> parse_host a
      | Some i \<Rightarrow>
          (case parse_host (drop (i + 1) a) of
             None \<Rightarrow> None
           | Some h \<Rightarrow> if valid_userinfo (take i a) \<and> unescape EncUser (take i a) \<noteq> None then Some h else None))"

definition ctl_byte :: "char \<Rightarrow> bool" where
  "ctl_byte c \<longleftrightarrow> char_code c < 32 \<or> char_code c = 127"

text \<open>\<open>url.Parse\<close>: scheme and host.\<close>

definition url_parse :: "string \<Rightarrow> (string \<times> string) option" where
  "url_parse raw =
     (let (u, frag) = (case cut_byte CHR ''#'' raw of None \<Rightarrow> (raw, []) | Some p \<Rightarrow> p) in
      if list_ex ctl_byte u then None
      else if unescape EncPath frag = None then None
      else if u = ''*'' then Some ([], [])
      else case get_scheme True u of
        None \<Rightarrow> None
      | Some sr \<Rightarrow>
          let (scheme, rest0) = (case sr of None \<Rightarrow> ([], u) | Some (s, r) \<Rightarrow> (to_lower s, r));
              rest = (case cut_byte CHR ''?'' rest0 of None \<Rightarrow> rest0 | Some (a, q) \<Rightarrow> a)
          in if \<not> has_prefix rest ''/'' \<and> scheme \<noteq> [] then Some (scheme, [])
             else if \<not> has_prefix rest ''/'' \<and> CHR '':'' \<in> set (takeWhile (\<lambda>c. c \<noteq> CHR ''/'') rest) then None
             else if (scheme \<noteq> [] \<or> \<not> has_prefix rest ''///'') \<and> has_prefix rest ''//'' then
               (let a = drop 2 rest;
                    authority = takeWhile (\<lambda>c. c \<noteq> CHR ''/'') a;
                    path = dropWhile (\<lambda>c. c \<noteq> CHR ''/'') a
                in case parse_authority authority of
                     None \<Rightarrow> None
                   | Some h \<Rightarrow> if unescape EncPath path = None then None else Some (scheme, h))
             else if unescape EncPath rest = None then None
             else Some (scheme, []))"

text \<open>\<open>url.ParseQuery\<close>: the values that parse, in order (parts in error are skipped).\<close>

definition query_part :: "string \<Rightarrow> (string \<times> string) option" where
  "query_part part =
     (if CHR '';'' \<in> set part \<or> part = [] then None
      else
        let (k, v) = (case cut_byte CHR ''='' part of None \<Rightarrow> (part, []) | Some p \<Rightarrow> p)
        in case (unescape EncQuery k, unescape EncQuery v) of
             (Some k', Some v') \<Rightarrow> Some (k', v')
           | _ \<Rightarrow> None)"

definition parse_query :: "string \<Rightarrow> (string \<times> string) list" where
  "parse_query q = List.map_filter query_part (split_byte CHR ''&'' q)"

definition query_get :: "(string \<times> string) list \<Rightarrow> string \<Rightarrow> string" where
  "query_get vs k = (case map_of vs k of None \<Rightarrow> [] | Some v \<Rightarrow> v)"

subsection \<open>Serialized origins\<close>

text \<open>What a browser sends as \<open>Origin\<close>: scheme, \<open>://\<close>, a host name and perhaps a port.\<close>

definition name_char :: "char \<Rightarrow> bool" where
  "name_char c \<longleftrightarrow> is_alnum c \<or> c = CHR ''-'' \<or> c = CHR ''.''"

definition origin_text :: "string \<Rightarrow> string \<Rightarrow> string \<Rightarrow> bool" where
  "origin_text scheme name port \<longleftrightarrow>
     scheme \<noteq> [] \<and> list_all is_lower scheme \<and> list_all name_char name
     \<and> (case port of [] \<Rightarrow> True | c # ds \<Rightarrow> c = CHR '':'' \<and> list_all is_digit ds)"

lemma name_char_code: "name_char c \<Longrightarrow> 45 \<le> char_code c \<and> char_code c \<le> 122"
  by (elim name_char_def [THEN iffD1, elim_format] disjE)
    (simp_all add: is_alnum_def is_lower_def is_upper_def is_digit_def char_code_def, linarith)

lemma name_char_host: "name_char c \<Longrightarrow> host_byte c"
  by (auto simp: name_char_def host_byte_def)

lemma not_name_chars:
  "\<not> name_char CHR ''#''" "\<not> name_char CHR ''?''" "\<not> name_char CHR ''/''" "\<not> name_char CHR ''@''"
  "\<not> name_char CHR '':''" "\<not> name_char CHR ''[''" "\<not> name_char CHR 0x25" "\<not> name_char CHR ''*''"
  by code_simp+

lemma name_char_ne: "name_char c \<Longrightarrow> \<not> name_char d \<Longrightarrow> c \<noteq> d"
  by blast

lemma name_char_not_in: "list_all name_char s \<Longrightarrow> \<not> name_char d \<Longrightarrow> d \<notin> set s"
  by (auto simp: list_all_iff)

lemma name_char_ctl: "name_char c \<Longrightarrow> \<not> ctl_byte c"
  using name_char_code [of c] unfolding ctl_byte_def by linarith

lemma lower_name: "is_lower c \<Longrightarrow> name_char c" and digit_name: "is_digit c \<Longrightarrow> name_char c"
  by (simp_all add: name_char_def is_alnum_def)

lemma colon_facts: "\<not> ctl_byte CHR '':''" "host_byte CHR '':''" "\<not> ctl_byte CHR ''/''"
  by code_simp+

lemma get_scheme_lower:
  "list_all is_lower s \<Longrightarrow> s \<noteq> [] \<or> \<not> first \<Longrightarrow> get_scheme first (s @ CHR '':'' # rest) = Some (Some (s, rest))"
proof (induction s arbitrary: first)
  case Nil
  then show ?case by (simp add: is_lower_def is_upper_def is_digit_def char_code_def)
next
  case (Cons c s)
  then show ?case by simp
qed

lemma to_lower_lower: "list_all is_lower s \<Longrightarrow> to_lower s = s"
  by (induction s) (auto simp: to_lower_def lower_char_def is_lower_def is_upper_def)

lemma unescape_host: "list_all (\<lambda>c. host_byte c \<and> c \<noteq> CHR 0x25) s \<Longrightarrow> unescape EncHost s = Some s"
  by (induction s) auto

lemma unescape_Nil [simp]: "unescape m [] = Some []" by simp

lemma parse_origin_host:
  assumes "list_all name_char name" "port = [] \<or> (\<exists>ds. port = CHR '':'' # ds \<and> list_all is_digit ds)"
  shows "parse_authority (name @ port) = Some (name @ port)"
proof -
  have digits: "list_all name_char ds" if "list_all is_digit ds" for ds
    using that digit_name by (rule list.pred_mono_strong)
  have host: "list_all (\<lambda>c. host_byte c \<and> c \<noteq> CHR 0x25) s" if "list_all name_char s" for s
    using that name_char_host name_char_ne [OF _ not_name_chars(7)] by (auto elim!: list.pred_mono_strong)
  have u: "unescape EncHost (name @ port) = Some (name @ port)"
    using assms host digits colon_facts(2) by (intro unescape_host) auto
  have at: "CHR ''@'' \<notin> set (name @ port)" and br: "CHR ''['' \<notin> set (name @ port)"
    using assms digits name_char_not_in [OF _ not_name_chars(4)] name_char_not_in [OF _ not_name_chars(6)] by auto
  have "parse_host (name @ port) = Some (name @ port)"
  proof (cases "port = []")
    case True
    then have "CHR '':'' \<notin> set (name @ port)" using assms(1) name_char_not_in [OF _ not_name_chars(5)] by auto
    then have "last_index_byte CHR '':'' (name @ port) = None" by simp
    moreover have "last_index_byte CHR ''['' (name @ port) = None" using br by simp
    ultimately show ?thesis using u by (simp add: parse_host_def del: last_index_byte_None)
  next
    case False
    then obtain ds where ds: "port = CHR '':'' # ds" "list_all is_digit ds" using assms(2) by blast
    have "CHR '':'' \<notin> set ds" using digits [OF ds(2)] name_char_not_in [OF _ not_name_chars(5)] by auto
    then have "last_index_byte CHR '':'' (name @ port) = Some (length name)"
      unfolding ds(1) by (rule last_index_byte_append)
    moreover have "last_index_byte CHR ''['' (name @ port) = None" using br by simp
    moreover have "valid_optional_port (drop (length name) (name @ port))" using ds by (simp add: valid_optional_port_def)
    ultimately show ?thesis using u by (simp add: parse_host_def del: last_index_byte_None)
  qed
  moreover have "last_index_byte CHR ''@'' (name @ port) = None" using at by simp
  ultimately show ?thesis by (simp add: parse_authority_def del: last_index_byte_None)
qed

lemma url_parse_origin:
  assumes "origin_text scheme name port"
  shows "url_parse (scheme @ ''://'' @ name @ port) = Some (scheme, name @ port)"
proof -
  let ?u = "scheme @ ''://'' @ name @ port"
  have s: "scheme \<noteq> []" "list_all is_lower scheme" "list_all name_char name"
    and p: "port = [] \<or> (\<exists>ds. port = CHR '':'' # ds \<and> list_all is_digit ds)"
    using assms by (auto simp: origin_text_def split: list.splits)
  have digits: "list_all name_char ds" if "list_all is_digit ds" for ds
    using that digit_name by (rule list.pred_mono_strong)
  have sch: "list_all name_char scheme" using s(2) lower_name by (rule list.pred_mono_strong)
  have port: "port = [] \<or> (\<exists>ds. port = CHR '':'' # ds \<and> list_all name_char ds)" using p digits by blast
  have not_in: "d \<notin> set ?u" if "\<not> name_char d" "d \<noteq> CHR '':''" "d \<noteq> CHR ''/''" for d
    using name_char_not_in [OF sch that(1)] name_char_not_in [OF s(3) that(1)] port name_char_not_in [OF _ that(1)] that(2,3)
    by auto
  have h: "CHR ''#'' \<notin> set ?u" and q: "CHR ''?'' \<notin> set ?u" and star: "CHR ''*'' \<notin> set ?u"
    by (rule not_in; simp add: not_name_chars)+
  have ctl: "\<not> list_ex ctl_byte ?u"
    using sch s(3) port name_char_ctl colon_facts by (auto simp: list_ex_iff list_all_iff)
  have sl: "CHR ''/'' \<notin> set (name @ port)"
    using name_char_not_in [OF s(3) not_name_chars(3)] port name_char_not_in [OF _ not_name_chars(3)] by auto
  have cutf: "cut_byte CHR ''#'' ?u = None" using h by simp
  have cutq: "cut_byte CHR ''?'' (''//'' @ name @ port) = None" using q by simp
  have gs: "get_scheme True ?u = Some (Some (scheme, ''//'' @ name @ port))"
    using get_scheme_lower [OF s(2), of True "''//'' @ name @ port"] s(1) by simp
  have tw: "takeWhile (\<lambda>c. c \<noteq> CHR ''/'') (name @ port) = name @ port"
    "dropWhile (\<lambda>c. c \<noteq> CHR ''/'') (name @ port) = []"
    using sl by (auto simp: takeWhile_eq_all_conv dropWhile_eq_Nil_conv)
  have ne: "?u \<noteq> ''*''" using star by auto
  have pre: "has_prefix (''//'' @ name @ port) ''/''" "has_prefix (''//'' @ name @ port) ''//''"
    by (simp_all add: has_prefix_def)
  show ?thesis
    using ne ctl pre
    by (simp only: url_parse_def Let_def cutf option.case case_prod_conv ctl if_False unescape_Nil gs cutq to_lower_lower [OF s(2)]
        pre s(1) simp_thms if_True)
      (simp add: tw parse_origin_host [OF s(3) p])
qed

end
