(* ===== verification/GoForm.thy ===== *)
theory GoForm imports GoHttp GoMime GoUrl begin

text \<open>
  Cookies and form bodies of \<open>net/http\<close>, and \<open>io.ReadAll\<close>, as far as the module uses them.

  \<open>io.ReadAll\<close> reads until the body reports an error or its end, which an endless body never does: it is
  given fuel, and \<open>read_all_complete\<close> shows how much is enough for a finite body.
\<close>

subsection \<open>Reading a body to its end\<close>

text \<open>\<open>io.ReadAll\<close> of a body, or of \<open>io.LimitReader(body, n)\<close> when a limit is given.\<close>

fun read_all :: "nat \<Rightarrow> nat option \<Rightarrow> string \<Rightarrow> (string \<times> gerr option) prog" where
  "read_all 0 limit acc = Ret (acc, Some (EMsg ''read budget exhausted''))"
| "read_all (Suc fuel) limit acc =
     (if limit = Some 0 then Ret (acc, None)
      else
        let len = (case limit of None \<Rightarrow> 512 | Some l \<Rightarrow> min 512 l)
        in Op (BRead len) (\<lambda>r. case r of
             RRead bs err \<Rightarrow>
               (case err of
                  None \<Rightarrow> read_all fuel (map_option (\<lambda>l. l - length bs) limit) (acc @ bs)
                | Some e \<Rightarrow> Ret (acc @ bs, if e = EEOF then None else Some e))
           | _ \<Rightarrow> Ret (acc, Some (EMsg ''nil body''))))"

text \<open>The bytes a body script still holds.\<close>

definition body_rest :: "world \<Rightarrow> string" where
  "body_rest w = concat (map fst (wd_reads w))"

lemma net_read_script:
  assumes "\<not> wd_body_nil w" "list_all (\<lambda>(c, e). e = None) (wd_reads w)" "wd_reads w \<noteq> []" "0 < n"
  shows "\<exists>bs w'. net_step w (BRead n) = (RRead bs None, w') \<and> body_rest w = bs @ body_rest w' \<and> length bs \<le> n
     \<and> \<not> wd_body_nil w' \<and> list_all (\<lambda>(c, e). e = None) (wd_reads w') \<and> wd_final w' = wd_final w
     \<and> length (body_rest w') + length (wd_reads w') < length (body_rest w) + length (wd_reads w)
     \<and> w' = w\<lparr>wd_reads := wd_reads w'\<rparr>"
proof -
  obtain chunk rest where r: "wd_reads w = (chunk, None) # rest"
    using assms(2,3) by (cases "wd_reads w") auto
  show ?thesis
  proof (cases "n < length chunk")
    case True
    then show ?thesis using assms r by (simp add: net_read_def body_rest_def)
  next
    case False
    then show ?thesis using assms r by (simp add: net_read_def body_rest_def)
  qed
qed

text \<open>With a read per chunk and one per byte, plus one for the end, a clean body is read completely.\<close>

lemma read_all_complete:
  assumes "\<not> wd_body_nil w" "list_all (\<lambda>(c, e). e = None) (wd_reads w)" "wd_final w = EEOF"
    and "length (body_rest w) + length (wd_reads w) < fuel"
  shows "run net_step (read_all fuel None acc) w = ((acc @ body_rest w, None), w\<lparr>wd_reads := []\<rparr>)"
  using assms
proof (induction fuel arbitrary: w acc)
  case 0
  then show ?case by simp
next
  case (Suc fuel)
  show ?case
  proof (cases "wd_reads w = []")
    case True
    then show ?thesis using Suc.prems by (simp add: net_read_def body_rest_def)
  next
    case False
    obtain bs w' where s: "net_step w (BRead 512) = (RRead bs None, w')" "body_rest w = bs @ body_rest w'"
      "\<not> wd_body_nil w'" "list_all (\<lambda>(c, e). e = None) (wd_reads w')" "wd_final w' = wd_final w"
      "length (body_rest w') + length (wd_reads w') < length (body_rest w) + length (wd_reads w)"
      "w' = w\<lparr>wd_reads := wd_reads w'\<rparr>"
      using net_read_script [OF Suc.prems(1,2) False, of 512] by auto
    have "w'\<lparr>wd_reads := []\<rparr> = w\<lparr>wd_reads := []\<rparr>" by (subst s(7)) simp
    with Suc.IH [of w' "acc @ bs"] s Suc.prems show ?thesis by simp
  qed
qed

subsection \<open>Cookies\<close>

definition ows :: "char \<Rightarrow> bool" where
  "ows c \<longleftrightarrow> char_code c = 32 \<or> char_code c = 9 \<or> char_code c = 10 \<or> char_code c = 13"

definition trim_ows :: "string \<Rightarrow> string" where
  "trim_ows s = rev (dropWhile ows (rev (dropWhile ows s)))"

definition cookie_token :: "string \<Rightarrow> bool" where
  "cookie_token s \<longleftrightarrow> s \<noteq> [] \<and> list_all token_byte s"

definition cookie_value_byte :: "char \<Rightarrow> bool" where
  "cookie_value_byte c \<longleftrightarrow> 32 \<le> char_code c \<and> char_code c < 127 \<and> char_code c \<noteq> 34 \<and> c \<noteq> CHR '';'' \<and> char_code c \<noteq> 92"

definition strip_quotes :: "string \<Rightarrow> string" where
  "strip_quotes s =
     (if length s > 1 \<and> char_code (hd s) = 34 \<and> char_code (last s) = 34 then butlast (tl s) else s)"

definition cookie_part :: "string \<Rightarrow> (string \<times> string) option" where
  "cookie_part part0 =
     (let part = trim_ows part0 in
      if part = [] then None
      else
        let (name0, val) = (case cut_byte CHR ''='' part of None \<Rightarrow> (part, []) | Some p \<Rightarrow> p);
            name = trim_ows name0;
            v = strip_quotes val
        in if \<not> cookie_token name \<or> \<not> list_all cookie_value_byte v then None else Some (name, v))"

definition read_cookies :: "header \<Rightarrow> (string \<times> string) list" where
  "read_cookies h = List.map_filter cookie_part (concat (map (\<lambda>l. split_byte CHR '';'' (trim_ows l)) (hvalues h ''Cookie'')))"

text \<open>\<open>r.Cookie(name)\<close>: the value of the first cookie of that name.\<close>

definition request_cookie :: "request \<Rightarrow> string \<Rightarrow> string option" where
  "request_cookie r name = (if name = [] then None else map_of (read_cookies (rq_header r)) name)"

definition sanitize_cookie_value :: "string \<Rightarrow> string" where
  "sanitize_cookie_value v0 =
     (let v = filter cookie_value_byte v0
      in if v = [] then [] else if CHR '' '' \<in> set v \<or> CHR '','' \<in> set v then [CHR 0x22] @ v @ [CHR 0x22] else v)"

definition sanitize_cookie_name :: "string \<Rightarrow> string" where
  "sanitize_cookie_name n = map (\<lambda>c. if char_code c = 10 \<or> char_code c = 13 then CHR ''-'' else c) n"

text \<open>\<open>r.AddCookie\<close> on the request's own header map.\<close>

definition add_cookie :: "request \<Rightarrow> string \<Rightarrow> string \<Rightarrow> request" where
  "add_cookie r name value =
     (let s = sanitize_cookie_name name @ ''='' @ sanitize_cookie_value value;
          c = hget (rq_header r) ''Cookie''
      in r\<lparr>rq_header := hset (rq_header r) ''Cookie'' (if c \<noteq> [] then c @ ''; '' @ s else s)\<rparr>)"

record cookie =
  ck_name :: string
  ck_value :: string
  ck_path :: string
  ck_secure :: bool
  ck_http_only :: bool
  ck_same_site :: int

definition cookie_string :: "cookie \<Rightarrow> string" where
  "cookie_string c =
     (if \<not> cookie_token (ck_name c) then []
      else ck_name c @ ''='' @ sanitize_cookie_value (ck_value c)
        @ (if ck_path c \<noteq> [] then ''; Path='' @ ck_path c else [])
        @ (if ck_http_only c then ''; HttpOnly'' else [])
        @ (if ck_secure c then ''; Secure'' else [])
        @ (if ck_same_site c = 4 then ''; SameSite=None'' else if ck_same_site c = 2 then ''; SameSite=Lax''
           else if ck_same_site c = 3 then ''; SameSite=Strict'' else []))"

text \<open>\<open>http.SetCookie\<close>\<close>

definition set_cookie :: "cookie \<Rightarrow> 'a prog \<Rightarrow> 'a prog" where
  "set_cookie c k = (if cookie_string c \<noteq> [] then Op (HAdd ''Set-Cookie'' (cookie_string c)) (\<lambda>_. k) else k)"

subsection \<open>Form bodies\<close>

text \<open>How many reads a form body is given (10 MB is the library's own limit on its size).\<close>

definition max_form_size :: nat where
  "max_form_size = 10 * 1024 * 1024"

definition form_values :: "(string \<times> string) list \<Rightarrow> (string \<times> string list) list" where
  "form_values kvs = map (\<lambda>k. (k, map snd (filter (\<lambda>(k', v). k' = k) kvs))) (remdups (map fst kvs))"

text \<open>\<open>parsePostForm\<close>: \<open>None\<close> leaves \<open>PostForm\<close> nil.\<close>

definition parse_post_form :: "nat \<Rightarrow> request \<Rightarrow> (string \<times> string list) list option prog" where
  "parse_post_form fuel r =
     (if rq_body_nil r then Ret None
      else
        let ct0 = hget (rq_header r) ''Content-Type'';
            ct = fst (parse_media_type (if ct0 = [] then ''application/octet-stream'' else ct0))
        in if ct \<noteq> ''application/x-www-form-urlencoded'' then Ret None
           else bindP (read_all fuel (Some (max_form_size + 1)) []) (\<lambda>(b, err).
                  if err \<noteq> None then Ret None
                  else if length b > max_form_size then Ret None
                  else Ret (Some (form_values (parse_query b)))))"

definition parse_form :: "nat \<Rightarrow> request \<Rightarrow> request prog" where
  "parse_form fuel r =
     (if rq_post_form r \<noteq> None then Ret r
      else
        bindP (if rq_method r \<in> {''POST'', ''PUT'', ''PATCH''} then parse_post_form fuel r else Ret None)
          (\<lambda>pf. Ret (r\<lparr>rq_post_form := Some (case pf of None \<Rightarrow> [] | Some vs \<Rightarrow> vs)\<rparr>)))"

text \<open>\<open>r.PostFormValue\<close> once \<open>PostForm\<close> is set, as it is after \<open>ParseForm\<close>.\<close>

definition post_form_value :: "request \<Rightarrow> string \<Rightarrow> string" where
  "post_form_value r key =
     (case rq_post_form r of
        None \<Rightarrow> []
      | Some pf \<Rightarrow> (case map_of pf key of Some (v # vs) \<Rightarrow> v | _ \<Rightarrow> []))"

subsection \<open>A cookie of hexadecimal digits survives the trip\<close>

lemma token_byte_code: "token_byte c \<Longrightarrow> 33 \<le> char_code c"
  by (auto simp: token_byte_def is_digit_def is_upper_def is_lower_def char_code_def)

lemma token_byte_not: "\<not> token_byte CHR '';''" "\<not> token_byte CHR ''=''"
  by code_simp+

lemma hex_char_code: "is_hex_char c \<Longrightarrow> 48 \<le> char_code c \<and> char_code c \<le> 102 \<and> char_code c \<noteq> 92"
  by (auto simp: is_hex_char_def is_digit_def)

lemma hex_char_not: "\<not> is_hex_char CHR '';''" "\<not> is_hex_char CHR ''=''" "\<not> is_hex_char CHR '',''" "\<not> is_hex_char CHR '' ''"
  by code_simp+

lemma hex_cookie_byte: "is_hex_char c \<Longrightarrow> cookie_value_byte c"
  using hex_char_code [of c] hex_char_not(1) by (auto simp: cookie_value_byte_def)

lemma trim_ows_id: "list_all (\<lambda>c. \<not> ows c) s \<Longrightarrow> trim_ows s = s"
proof -
  have d: "list_all (\<lambda>c. \<not> ows c) t \<Longrightarrow> dropWhile ows t = t" for t by (cases t) auto
  assume s: "list_all (\<lambda>c. \<not> ows c) s"
  then have "list_all (\<lambda>c. \<not> ows c) (rev s)" by simp
  with s show ?thesis by (simp add: trim_ows_def d)
qed

lemma not_ows: "33 \<le> char_code c \<Longrightarrow> \<not> ows c"
  by (auto simp: ows_def)

lemma hex_not_ows: "is_hex_char c \<Longrightarrow> \<not> ows c"
  by (rule not_ows) (use hex_char_code [of c] in simp)

lemma token_not_ows: "token_byte c \<Longrightarrow> \<not> ows c"
  by (rule not_ows) (use token_byte_code [of c] in simp)

lemma cookie_part_hex:
  assumes "cookie_token name" "list_all is_hex_char v" "v \<noteq> []"
  shows "cookie_part (name @ ''='' @ v) = Some (name, v)"
    and "trim_ows (name @ ''='' @ v) = name @ ''='' @ v" and "CHR '';'' \<notin> set (name @ ''='' @ v)"
proof -
  have n: "list_all token_byte name" "name \<noteq> []" using assms(1) by (simp_all add: cookie_token_def)
  have no: "list_all (\<lambda>c. \<not> ows c) name" "list_all (\<lambda>c. \<not> ows c) v"
    using n(1) assms(2) by (auto simp: list_all_iff hex_not_ows token_not_ows)
  have eq: "\<not> ows CHR ''=''" by (simp add: ows_def char_code_def)
  show t: "trim_ows (name @ ''='' @ v) = name @ ''='' @ v" using no eq by (intro trim_ows_id) simp
  show "CHR '';'' \<notin> set (name @ ''='' @ v)"
    using n(1) assms(2) token_byte_not hex_char_not by (auto simp: list_all_iff)
  have neq: "CHR ''='' \<notin> set name" using n(1) token_byte_not by (auto simp: list_all_iff)
  have c: "cut_byte CHR ''='' (name @ ''='' @ v) = Some (name, v)"
    using cut_byte_append [OF neq, of v] by simp
  have "char_code (hd v) \<noteq> 34" using assms(2,3) hex_char_code by (cases v) fastforce+
  then have q: "strip_quotes v = v" by (simp add: strip_quotes_def)
  have b: "list_all cookie_value_byte v" using assms(2) hex_cookie_byte by (auto simp: list_all_iff)
  have "name @ ''='' @ v \<noteq> []" using n(2) by simp
  then show "cookie_part (name @ ''='' @ v) = Some (name, v)"
    unfolding cookie_part_def t Let_def c
    using assms(1) trim_ows_id [OF no(1)] q b by simp
qed

lemma request_cookie_hex:
  assumes "cookie_token name" "list_all is_hex_char v" "v \<noteq> []"
    and "hvalues (rq_header r) ''Cookie'' = [name @ ''='' @ v]"
  shows "request_cookie r name = Some v"
proof -
  note p = cookie_part_hex [OF assms(1-3)]
  have "split_byte CHR '';'' (trim_ows (name @ ''='' @ v)) = [name @ ''='' @ v]"
    unfolding p(2) using p(3) by (rule split_byte_no_sep)
  then have "read_cookies (rq_header r) = [(name, v)]"
    using p(1) unfolding read_cookies_def assms(4) by (simp add: List.map_filter_simps)
  moreover have "name \<noteq> []" using assms(1) by (simp add: cookie_token_def)
  ultimately show ?thesis by (simp add: request_cookie_def)
qed

lemma sanitize_hex: "list_all is_hex_char v \<Longrightarrow> sanitize_cookie_value v = v"
proof -
  assume v: "list_all is_hex_char v"
  then have f: "filter cookie_value_byte v = v" by (simp add: hex_cookie_byte list_all_iff)
  have "CHR '' '' \<notin> set v" "CHR '','' \<notin> set v" using v hex_char_not by (auto simp: list_all_iff)
  then show ?thesis unfolding sanitize_cookie_value_def Let_def f by simp
qed

end
