(* ===== verification/Csrf.thy ===== *)
theory Csrf imports Cors GoForm begin

text \<open>
  The CSRF part of \<^verbatim>\<open>security.go\<close>: configuration and validation, the origin check, tokens, and the
  middleware.  The number of reads a form body is given is a parameter (see \<open>read_all\<close>).
\<close>

subsection \<open>Configuration\<close>

definition csrf_synchronizer :: string where "csrf_synchronizer = ''synchronizer''"
definition csrf_double_submit :: string where "csrf_double_submit = ''double_submit''"
definition csrf_origin_only :: string where "csrf_origin_only = ''origin_only''"

record csrf_config =
  cs_mode :: string
  cs_cookie_name :: string
  cs_header_name :: string
  cs_form_field :: string
  cs_token_length :: int
  cs_secure :: "bool option"
  cs_same_site :: int
  cs_trusted_hosts :: "string list"
  cs_has_source :: bool             \<comment> \<open>whether \<open>TrustedHostsSource\<close> is set\<close>
  cs_expose :: bool
  cs_write :: "error_writer option"

definition validate_trusted_host :: "string \<Rightarrow> security_error option" where
  "validate_trusted_host h0 =
     (let h = trim_space h0
      in if h = [] \<or> contains h ''://'' \<or> contains h ''/'' then Some (ErrCSRFInvalidTrustedHost h) else None)"

fun validate_trusted_hosts :: "string list \<Rightarrow> security_error option" where
  "validate_trusted_hosts [] = None"
| "validate_trusted_hosts (h # hs) =
     (case validate_trusted_host h of Some e \<Rightarrow> Some e | None \<Rightarrow> validate_trusted_hosts hs)"

definition csrf_validate :: "csrf_config \<Rightarrow> security_error option" where
  "csrf_validate cfg =
     (if cs_mode cfg \<notin> {[], csrf_synchronizer, csrf_double_submit, csrf_origin_only}
      then Some (ErrCSRFUnknownMode (cs_mode cfg))
      else if cs_expose cfg \<and> cs_mode cfg = csrf_origin_only then Some ErrCSRFExposeTokenOriginOnly
      else validate_trusted_hosts (cs_trusted_hosts cfg))"

definition or_default :: "string \<Rightarrow> string \<Rightarrow> string" where
  "or_default s d = (if s = [] then d else s)"

definition csrf_defaults :: "csrf_config \<Rightarrow> csrf_config" where
  "csrf_defaults cfg =
     cfg\<lparr>cs_mode := or_default (cs_mode cfg) csrf_synchronizer,
         cs_cookie_name := or_default (cs_cookie_name cfg) ''_csrf'',
         cs_header_name := or_default (cs_header_name cfg) ''X-CSRF-Token'',
         cs_form_field := or_default (cs_form_field cfg) ''csrf_token'',
         cs_token_length := (if cs_token_length cfg = 0 then 32 else cs_token_length cfg),
         cs_same_site := (if cs_same_site cfg = 0 then 2 else cs_same_site cfg)\<rparr>"

definition csrf_secure :: "csrf_config \<Rightarrow> bool" where
  "csrf_secure cfg = (case cs_secure cfg of None \<Rightarrow> True | Some b \<Rightarrow> b)"

definition csrf_http_only :: "csrf_config \<Rightarrow> bool" where
  "csrf_http_only cfg \<longleftrightarrow> cs_mode cfg \<noteq> csrf_double_submit"

subsection \<open>The origin check\<close>

fun host_listed :: "string \<Rightarrow> string list \<Rightarrow> bool" where
  "host_listed got [] = False"
| "host_listed got (h # hs) = (if equal_fold got h then True else host_listed got hs)"

definition origin_host_allowed :: "string \<Rightarrow> string \<Rightarrow> string list \<Rightarrow> bool" where
  "origin_host_allowed got request_host trusted =
     (if trusted = [] then equal_fold got request_host else host_listed got trusted)"

definition validate_origin_header :: "string \<Rightarrow> string \<Rightarrow> bool \<Rightarrow> string list \<Rightarrow> bool" where
  "validate_origin_header origin host secure trusted =
     (case url_parse origin of
        None \<Rightarrow> False
      | Some (scheme, uhost) \<Rightarrow>
          if secure \<and> scheme \<noteq> ''https'' then False else origin_host_allowed uhost host trusted)"

definition validate_referer_header :: "string \<Rightarrow> string \<Rightarrow> bool \<Rightarrow> string list \<Rightarrow> bool" where
  "validate_referer_header referer host secure trusted =
     (case url_parse referer of
        None \<Rightarrow> False
      | Some (scheme, uhost) \<Rightarrow>
          if secure \<and> scheme \<noteq> ''https'' then False else origin_host_allowed uhost host trusted)"

definition validate_origin :: "request \<Rightarrow> bool \<Rightarrow> string list \<Rightarrow> bool" where
  "validate_origin r secure trusted =
     (let origin = hget (rq_header r) ''Origin'' in
      if origin \<noteq> [] then validate_origin_header origin (rq_host r) secure trusted
      else let referer = hget (rq_header r) ''Referer'' in
        if referer \<noteq> [] then validate_referer_header referer (rq_host r) secure trusted
        else False)"

subsection \<open>Tokens\<close>

definition csrf_token_from :: "request option \<Rightarrow> string" where
  "csrf_token_from ro =
     (case ro of None \<Rightarrow> [] | Some r \<Rightarrow> (case rq_ctx r CSRFTokenKey of None \<Rightarrow> [] | Some t \<Rightarrow> t))"

definition with_csrf_token :: "request \<Rightarrow> string \<Rightarrow> request" where
  "with_csrf_token r token = r\<lparr>rq_ctx := (rq_ctx r)(CSRFTokenKey \<mapsto> token)\<rparr>"

datatype token_result = Token string | TokenError | TokenPanic string

text \<open>\<open>make([]byte, length)\<close> panics on a negative length.\<close>

definition generate_csrf_token :: "int \<Rightarrow> token_result prog" where
  "generate_csrf_token len =
     (if len < 0 then Ret (TokenPanic ''makeslice: len out of range'')
      else Op (Rand (nat len)) (\<lambda>x. let (bs, failed) = res_rand x in
             if failed then Ret TokenError else Ret (Token (hex_encode bs))))"

definition csrf_cookie :: "csrf_config \<Rightarrow> bool \<Rightarrow> bool \<Rightarrow> string \<Rightarrow> cookie" where
  "csrf_cookie cfg secure http_only token =
     \<lparr>ck_name = cs_cookie_name cfg, ck_value = token, ck_path = ''/'', ck_secure = secure,
      ck_http_only = http_only, ck_same_site = cs_same_site cfg\<rparr>"

definition csrf_ensure_token :: "request \<Rightarrow> csrf_config \<Rightarrow> bool \<Rightarrow> bool \<Rightarrow> token_result prog" where
  "csrf_ensure_token r cfg secure http_only =
     (case request_cookie r (cs_cookie_name cfg) of
        Some v \<Rightarrow> if v \<noteq> [] then Ret (Token v)
                  else bindP (generate_csrf_token (cs_token_length cfg)) (\<lambda>t. case t of
                    Token token \<Rightarrow> set_cookie (csrf_cookie cfg secure http_only token) (Ret (Token token)) | _ \<Rightarrow> Ret t)
      | None \<Rightarrow> bindP (generate_csrf_token (cs_token_length cfg)) (\<lambda>t. case t of
                    Token token \<Rightarrow> set_cookie (csrf_cookie cfg secure http_only token) (Ret (Token token)) | _ \<Rightarrow> Ret t))"

text \<open>The submitted token, and the request as the form parser leaves it.\<close>

definition submitted_csrf_token :: "nat \<Rightarrow> request \<Rightarrow> string \<Rightarrow> string \<Rightarrow> (string \<times> request) prog" where
  "submitted_csrf_token fuel r header_name form_field =
     (let t = hget (rq_header r) header_name;
          ct = hget (rq_header r) ''Content-Type''
      in if t \<noteq> [] then Ret (t, r)
         else if form_field = [] then Ret ([], r)
         else if ct = [] then Ret ([], r)
         else let (media, err) = parse_media_type ct in
           if err then Ret ([], r)
           else if to_lower media \<in> {''application/x-www-form-urlencoded'', ''multipart/form-data''} then
             bindP (parse_form fuel r) (\<lambda>r'. Ret (post_form_value r' form_field, r'))
           else Ret ([], r))"

definition csrf_write :: "error_writer option \<Rightarrow> request \<Rightarrow> string \<Rightarrow> int \<Rightarrow> string \<Rightarrow> (outcome \<times> request) prog" where
  "csrf_write write r code status message =
     error_writer_or_default write r
       \<lparr>fl_status = status, fl_code = code, fl_message = message, fl_request_id = request_id_from r\<rparr>"

subsection \<open>The middleware\<close>

definition csrf_trusted_hosts :: "csrf_config \<Rightarrow> string list prog" where
  "csrf_trusted_hosts cfg =
     (if cs_has_source cfg then Op TrustedHosts (\<lambda>x. Ret (res_strs x)) else Ret (cs_trusted_hosts cfg))"

definition csrf_safe :: "csrf_config \<Rightarrow> handler \<Rightarrow> handler" where
  "csrf_safe cfg next r =
     (if cs_mode cfg = csrf_origin_only then next r
      else
        bindP (csrf_ensure_token r cfg (csrf_secure cfg) (csrf_http_only cfg)) (\<lambda>t. case t of
          TokenPanic msg \<Rightarrow> Ret (Panicked msg, r)
        | TokenError \<Rightarrow> csrf_write (cs_write cfg) r error_code_internal 500 ''CSRF token generation failed''
        | Token token \<Rightarrow>
            let r1 = with_csrf_token r token;
                r2 = (if request_cookie r1 (cs_cookie_name cfg) = None then add_cookie r1 (cs_cookie_name cfg) token else r1);
                cont = serve_copy next r r2
            in if cs_expose cfg \<and> rq_method r \<in> {''GET'', ''HEAD''}
               then Op (HSet (cs_header_name cfg) token) (\<lambda>_. cont) else cont))"

definition csrf_unsafe :: "nat \<Rightarrow> csrf_config \<Rightarrow> handler \<Rightarrow> handler" where
  "csrf_unsafe fuel cfg next r =
     bindP (csrf_trusted_hosts cfg) (\<lambda>trusted.
       if \<not> validate_origin r (csrf_secure cfg) trusted then
         csrf_write (cs_write cfg) r ''CSRF_ORIGIN_VALIDATION_FAILED'' 403 ''CSRF origin validation failed''
       else if cs_mode cfg = csrf_origin_only then next r
       else case request_cookie r (cs_cookie_name cfg) of
         None \<Rightarrow> csrf_write (cs_write cfg) r ''CSRF_TOKEN_MISSING'' 403 ''CSRF token missing''
       | Some cookie \<Rightarrow>
           bindP (submitted_csrf_token fuel r (cs_header_name cfg) (cs_form_field cfg)) (\<lambda>(submitted, r').
             if submitted = [] then csrf_write (cs_write cfg) r' ''CSRF_TOKEN_MISSING'' 403 ''CSRF token missing''
             else if cookie \<noteq> submitted then csrf_write (cs_write cfg) r' ''CSRF_TOKEN_MISMATCH'' 403 ''CSRF token mismatch''
             else serve_copy next r' (with_csrf_token r' cookie)))"

definition csrf_handler :: "nat \<Rightarrow> csrf_config \<Rightarrow> middleware" where
  "csrf_handler fuel cfg next = (\<lambda>r.
     if rq_method r \<in> {''GET'', ''HEAD'', ''OPTIONS''} then csrf_safe cfg next r
     else csrf_unsafe fuel cfg next r)"

definition csrf :: "nat \<Rightarrow> csrf_config \<Rightarrow> security_error + middleware" where
  "csrf fuel cfg = (case csrf_validate cfg of Some e \<Rightarrow> Inl e | None \<Rightarrow> Inr (csrf_handler fuel (csrf_defaults cfg)))"

subsection \<open>Lemmas\<close>

definition trusted_now :: "csrf_config \<Rightarrow> world \<Rightarrow> string list" where
  "trusted_now cfg w = (if cs_has_source cfg then wd_hosts w (wd_asks w) else cs_trusted_hosts cfg)"

lemma run_trusted:
  "run net_step (csrf_trusted_hosts cfg) w =
     (trusted_now cfg w, if cs_has_source cfg then w\<lparr>wd_asks := wd_asks w + 1\<rparr> else w)"
  by (simp add: csrf_trusted_hosts_def trusted_now_def)

lemma csrf_defaults_simps [simp]:
  "cs_write (csrf_defaults cfg) = cs_write cfg" "csrf_secure (csrf_defaults cfg) = csrf_secure cfg"
  "trusted_now (csrf_defaults cfg) w = trusted_now cfg w" "cs_has_source (csrf_defaults cfg) = cs_has_source cfg"
  "cs_expose (csrf_defaults cfg) = cs_expose cfg"
  by (simp_all add: csrf_defaults_def csrf_secure_def trusted_now_def)

lemma origin_only_default [simp]: "cs_mode (csrf_defaults cfg) = csrf_origin_only \<longleftrightarrow> cs_mode cfg = csrf_origin_only"
  by (simp add: csrf_defaults_def or_default_def csrf_origin_only_def csrf_synchronizer_def)

lemma csrf_Inr: "csrf fuel cfg = Inr mw \<Longrightarrow> mw = csrf_handler fuel (csrf_defaults cfg)"
  by (auto simp: csrf_def split: option.splits)

text \<open>The world in which the checks after the host list run.\<close>

definition asked :: "csrf_config \<Rightarrow> world \<Rightarrow> world" where
  "asked cfg w = (if cs_has_source cfg then w\<lparr>wd_asks := wd_asks w + 1\<rparr> else w)"

lemma run_csrf_unsafe:
  assumes "csrf fuel cfg = Inr mw" "rq_method r \<notin> {''GET'', ''HEAD'', ''OPTIONS''}"
  shows "run net_step (mw next r) w =
    (let cfg' = csrf_defaults cfg; w1 = asked cfg w in
     if \<not> validate_origin r (csrf_secure cfg) (trusted_now cfg w) then
       run net_step (csrf_write (cs_write cfg) r ''CSRF_ORIGIN_VALIDATION_FAILED'' 403 ''CSRF origin validation failed'') w1
     else if cs_mode cfg = csrf_origin_only then run net_step (next r) w1
     else case request_cookie r (cs_cookie_name cfg') of
       None \<Rightarrow> run net_step (csrf_write (cs_write cfg) r ''CSRF_TOKEN_MISSING'' 403 ''CSRF token missing'') w1
     | Some cookie \<Rightarrow>
         (let ((submitted, r'), w2) = run net_step (submitted_csrf_token fuel r (cs_header_name cfg') (cs_form_field cfg')) w1 in
          if submitted = [] then run net_step (csrf_write (cs_write cfg) r' ''CSRF_TOKEN_MISSING'' 403 ''CSRF token missing'') w2
          else if cookie \<noteq> submitted then run net_step (csrf_write (cs_write cfg) r' ''CSRF_TOKEN_MISMATCH'' 403 ''CSRF token mismatch'') w2
          else run net_step (serve_copy next r' (with_csrf_token r' cookie)) w2))"
  using assms(2)
  by (simp add: csrf_Inr [OF assms(1)] csrf_handler_def csrf_unsafe_def run_bind run_trusted asked_def Let_def
      case_prod_beta split: option.split)

subsection \<open>Properties\<close>

text \<open>
  C20.  On an unsafe method the inner handler is reached only through the checks.  If it makes any difference
  which handler is inside, then the \<open>Origin\<close> (or else the \<open>Referer\<close>) passed against the host list in force,
  and, unless the mode is \<open>origin_only\<close>, the CSRF cookie is present and equal to a non-empty submitted token.
\<close>

theorem csrf_inner_reached_only_if:
  assumes "csrf fuel cfg = Inr mw" "rq_method r \<notin> {''GET'', ''HEAD'', ''OPTIONS''}"
    and "run net_step (mw next1 r) w \<noteq> run net_step (mw next2 r) w"
  shows "validate_origin r (csrf_secure cfg) (trusted_now cfg w)
    \<and> (cs_mode cfg = csrf_origin_only
       \<or> (\<exists>token. token \<noteq> [] \<and> request_cookie r (cs_cookie_name (csrf_defaults cfg)) = Some token
            \<and> fst (fst (run net_step (submitted_csrf_token fuel r (cs_header_name (csrf_defaults cfg))
                  (cs_form_field (csrf_defaults cfg))) (asked cfg w))) = token))"
proof (rule ccontr)
  assume "\<not> ?thesis"
  then have "run net_step (mw next1 r) w = run net_step (mw next2 r) w"
    unfolding run_csrf_unsafe [OF assms(1,2)] Let_def
    by (auto simp: case_prod_beta split: option.split)
  with assms(3) show False ..
qed

text \<open>
  C21.  CSRF fails closed: an unsafe request whose \<open>Origin\<close> and \<open>Referer\<close> do not pass - in particular one that has
  neither - is answered 403 through the error writer, whatever the mode, the cookie and the token.
\<close>

theorem csrf_fails_closed:
  assumes "csrf fuel cfg = Inr mw" "rq_method r \<notin> {''GET'', ''HEAD'', ''OPTIONS''}"
    and "error_writer_ok (error_writer_or_default (cs_write cfg)) net_step net_uncommitted net_committed"
    and "net_uncommitted w"
    and "(hget (rq_header r) ''Origin'' = [] \<and> hget (rq_header r) ''Referer'' = [])
         \<or> \<not> validate_origin r (csrf_secure cfg) (trusted_now cfg w)"
  shows "fst (run net_step (mw next r) w) = (Returned, r) \<and> net_committed (snd (run net_step (mw next r) w)) 403"
proof -
  have "\<not> validate_origin r (csrf_secure cfg) (trusted_now cfg w)"
    using assms(5) by (auto simp: validate_origin_def Let_def)
  then have "run net_step (mw next r) w = run net_step
      (csrf_write (cs_write cfg) r ''CSRF_ORIGIN_VALIDATION_FAILED'' 403 ''CSRF origin validation failed'') (asked cfg w)"
    by (simp add: run_csrf_unsafe [OF assms(1,2)] Let_def)
  moreover have "net_uncommitted (asked cfg w)"
    using assms(4) by (simp add: asked_def net_uncommitted_def)
  ultimately show ?thesis
    using error_writer_okD [OF assms(3), of "asked cfg w" "\<lparr>fl_status = 403, fl_code = ''CSRF_ORIGIN_VALIDATION_FAILED'',
        fl_message = ''CSRF origin validation failed'', fl_request_id = request_id_from r\<rparr>" r]
    by (simp add: csrf_write_def)
qed

text \<open>
  Tokens are read from the header or from an urlencoded \<open>POST\<close>, \<open>PUT\<close> or \<open>PATCH\<close> body only.  For a
  \<open>multipart/form-data\<close> body, or any other method, a token in the form is never found, whatever the body holds.
\<close>

theorem multipart_token_never_read:
  assumes "hget (rq_header r) header_name = []" "rq_post_form r = None"
    and "fst (parse_media_type (hget (rq_header r) ''Content-Type'')) = ''multipart/form-data''
         \<or> rq_method r \<notin> {''POST'', ''PUT'', ''PATCH''}"
  shows "fst (fst (run m (submitted_csrf_token fuel r header_name form_field) w)) = []"
proof (cases "hget (rq_header r) ''Content-Type'' = []")
  case True
  then show ?thesis using assms(1) by (simp add: submitted_csrf_token_def)
next
  case False
  then have "parse_post_form fuel r = Ret None \<or> rq_method r \<notin> {''POST'', ''PUT'', ''PATCH''}"
    using assms(3) by (auto simp: parse_post_form_def Let_def)
  then have "parse_form fuel r = Ret (r\<lparr>rq_post_form := Some []\<rparr>)"
    using assms(2) by (auto simp: parse_form_def)
  then show ?thesis using assms(1)
    by (simp add: submitted_csrf_token_def Let_def case_prod_beta post_form_value_def)
qed

text \<open>
  A padded entry of the host list passes \<open>Validate\<close>, which trims it, but not the comparison, which does
  not: the host it names is refused.
\<close>

theorem padded_trusted_host_never_matches:
  "validate_trusted_host '' api.test'' = None
   \<and> \<not> validate_origin_header ''https://api.test'' ''api.test'' True ['' api.test'']
   \<and> validate_origin_header ''https://api.test'' ''api.test'' True [''api.test'']"
  by code_simp


subsection \<open>The origin of a browser\<close>

lemma host_listed_iff: "host_listed got hs \<longleftrightarrow> (\<exists>h\<in>set hs. equal_fold got h)"
  by (induction hs) auto

text \<open>
  C22.  The decision on a serialised origin.  For an origin as a browser sends it - a scheme, a host of name
  characters and an optional numeric port - the header passes exactly when the scheme is https or the
  configuration is not secure, and host and port equal, up to case, the request's own host or, when a host
  list is configured, one of its entries.
\<close>

theorem origin_header_decision:
  assumes "origin_text scheme name port"
  shows "validate_origin_header (scheme @ ''://'' @ name @ port) host secure trusted \<longleftrightarrow>
    (secure \<longrightarrow> scheme = ''https'')
    \<and> (if trusted = [] then equal_fold (name @ port) host else \<exists>h\<in>set trusted. equal_fold (name @ port) h)"
  unfolding validate_origin_header_def url_parse_origin [OF assms]
  by (simp add: origin_host_allowed_def host_listed_iff)

lemma origin_header_decision_witness:
  "validate_origin_header (''https'' @ ''://'' @ ''App.example'' @ '':8443'') ''app.example:8443'' True []
   \<and> \<not> validate_origin_header (''http'' @ ''://'' @ ''app.example'' @ []) ''app.example'' True []"
proof -
  have o: "origin_text ''https'' ''App.example'' '':8443''" "origin_text ''http'' ''app.example'' []" by code_simp+
  have e: "equal_fold (''App.example'' @ '':8443'') ''app.example:8443''" by code_simp
  show ?thesis
    using origin_header_decision [OF o(1), of "''app.example:8443''" True "[]"]
      origin_header_decision [OF o(2), of "''app.example''" True "[]"] e by simp
qed

subsection \<open>The life of a token\<close>

lemma hex_encode_nonempty: "0 < n \<Longrightarrow> hex_encode (fill n bs) \<noteq> []"
  using hex_encode_length [of "fill n bs"] by (metis length_0_conv length_fill mult_is_0 neq0_conv zero_neq_numeral)

lemma run_generate:
  assumes "0 < len" "wd_random w (wd_rands w) = (bs, False)"
  shows "run net_step (generate_csrf_token len) w =
    (Token (hex_encode (fill (nat len) bs)), w\<lparr>wd_rands := wd_rands w + 1\<rparr>)"
  using assms by (simp add: generate_csrf_token_def)

lemma run_ensure_mints:
  assumes "request_cookie r (cs_cookie_name cfg) = None" "0 < cs_token_length cfg" "cookie_token (cs_cookie_name cfg)"
    and "wd_random w (wd_rands w) = (bs, False)"
  defines "token \<equiv> hex_encode (fill (nat (cs_token_length cfg)) bs)"
  shows "run net_step (csrf_ensure_token r cfg secure ho) w =
    (Token token, w\<lparr>wd_rands := wd_rands w + 1,
       wd_header := hadd (wd_header w) ''Set-Cookie'' (cookie_string (csrf_cookie cfg secure ho token))\<rparr>)"
proof -
  have "cookie_string (csrf_cookie cfg secure ho token) \<noteq> []"
    using assms(3) by (simp add: cookie_string_def csrf_cookie_def)
  then show ?thesis
    using assms(1) run_generate [OF assms(2,4)]
    by (simp add: csrf_ensure_token_def run_bind set_cookie_def token_def)
qed

text \<open>The cookie the middleware sets, as a browser reads it back: its name and value come first.\<close>

lemma csrf_cookie_string:
  assumes "cookie_token (cs_cookie_name cfg)" "list_all is_hex_char token"
  shows "\<exists>attributes. cookie_string (csrf_cookie cfg secure ho token)
           = cs_cookie_name cfg @ ''='' @ token @ ''; Path=/'' @ attributes"
  using assms by (simp add: cookie_string_def csrf_cookie_def sanitize_hex)

definition minted :: "csrf_config \<Rightarrow> world \<Rightarrow> string" where
  "minted cfg w = hex_encode (fill (nat (cs_token_length (csrf_defaults cfg))) (fst (wd_random w (wd_rands w))))"

lemma run_safe_mints:
  assumes "csrf fuel cfg = Inr mw" "cs_mode cfg \<noteq> csrf_origin_only" "cookie_token (cs_cookie_name (csrf_defaults cfg))"
    and "rq_method r \<in> {''GET'', ''HEAD'', ''OPTIONS''}" "request_cookie r (cs_cookie_name (csrf_defaults cfg)) = None"
    and "0 < cs_token_length (csrf_defaults cfg)" "\<not> snd (wd_random w (wd_rands w))"
    and "canonical (cs_header_name (csrf_defaults cfg)) \<noteq> ''Set-Cookie''"
  shows "\<exists>r1 w1. run net_step (mw next r) w = run net_step (serve_copy next r r1) w1
    \<and> csrf_token_from (Some r1) = minted cfg w
    \<and> hvalues (wd_header w1) ''Set-Cookie'' = hvalues (wd_header w) ''Set-Cookie''
        @ [cookie_string (csrf_cookie (csrf_defaults cfg) (csrf_secure cfg) (csrf_http_only (csrf_defaults cfg)) (minted cfg w))]"
proof -
  let ?c = "csrf_defaults cfg"
  obtain bs where bs: "wd_random w (wd_rands w) = (bs, False)" using assms(7) by (metis prod.collapse)
  note e = run_ensure_mints [OF assms(5,6,3) bs, of "csrf_secure cfg" "csrf_http_only ?c", folded minted_def]
  have m: "hex_encode (fill (nat (cs_token_length ?c)) bs) = minted cfg w" by (simp add: minted_def bs)
  have c: "canonical ''Set-Cookie'' \<noteq> canonical (cs_header_name ?c)" using assms(8) by simp
  let ?r1 = "with_csrf_token r (minted cfg w)"
  let ?r2 = "if request_cookie ?r1 (cs_cookie_name ?c) = None then add_cookie ?r1 (cs_cookie_name ?c) (minted cfg w) else ?r1"
  let ?w = "w\<lparr>wd_rands := wd_rands w + 1, wd_header := hadd (wd_header w) ''Set-Cookie''
      (cookie_string (csrf_cookie ?c (csrf_secure cfg) (csrf_http_only ?c) (minted cfg w)))\<rparr>"
  let ?w1 = "if cs_expose cfg \<and> rq_method r \<in> {''GET'', ''HEAD''}
      then ?w\<lparr>wd_header := hset (wd_header ?w) (cs_header_name ?c) (minted cfg w)\<rparr> else ?w"
  have "run net_step (mw next r) w = run net_step (serve_copy next r ?r2) ?w1"
    using assms(2,4) e unfolding m
    by (auto simp: csrf_Inr [OF assms(1)] csrf_handler_def csrf_safe_def run_bind Let_def)
  moreover have "csrf_token_from (Some ?r2) = minted cfg w"
    by (simp add: csrf_token_from_def with_csrf_token_def add_cookie_def Let_def)
  moreover have "hvalues (wd_header ?w1) ''Set-Cookie'' = hvalues (wd_header w) ''Set-Cookie''
        @ [cookie_string (csrf_cookie ?c (csrf_secure cfg) (csrf_http_only ?c) (minted cfg w))]"
    using c by (simp add: header_simps)
  ultimately show ?thesis by blast
qed

text \<open>
  C23.  The life of a token.  A safe request without a CSRF cookie reaches the inner handler with a fresh token of
  twice the configured length in hexadecimal digits in its context, and the response carries a \<open>Set-Cookie\<close>
  line that begins with the cookie's name and this token.  A later unsafe request of an accepted origin that
  sends the cookie and the token header back reaches the inner handler with the same token in its context.
\<close>

theorem csrf_minted_token_accepted:
  assumes "csrf fuel cfg = Inr mw" "cs_mode cfg \<noteq> csrf_origin_only" "cookie_token (cs_cookie_name (csrf_defaults cfg))"
    and "rq_method r \<in> {''GET'', ''HEAD'', ''OPTIONS''}" "request_cookie r (cs_cookie_name (csrf_defaults cfg)) = None"
    and "0 < cs_token_length (csrf_defaults cfg)" "\<not> snd (wd_random w (wd_rands w))"
    and "canonical (cs_header_name (csrf_defaults cfg)) \<noteq> ''Set-Cookie''"
    and "rq_method r' \<notin> {''GET'', ''HEAD'', ''OPTIONS''}" "validate_origin r' (csrf_secure cfg) (trusted_now cfg w')"
    and "hvalues (rq_header r') ''Cookie'' = [cs_cookie_name (csrf_defaults cfg) @ ''='' @ minted cfg w]"
    and "hget (rq_header r') (cs_header_name (csrf_defaults cfg)) = minted cfg w"
  shows "length (minted cfg w) = 2 * nat (cs_token_length (csrf_defaults cfg)) \<and> list_all is_hex_char (minted cfg w)
    \<and> (\<exists>r1 w1 attributes. run net_step (mw next r) w = run net_step (serve_copy next r r1) w1
         \<and> csrf_token_from (Some r1) = minted cfg w
         \<and> hvalues (wd_header w1) ''Set-Cookie'' = hvalues (wd_header w) ''Set-Cookie''
             @ [cs_cookie_name (csrf_defaults cfg) @ ''='' @ minted cfg w @ ''; Path=/'' @ attributes])
    \<and> run net_step (mw next r') w' = run net_step (serve_copy next r' (with_csrf_token r' (minted cfg w))) (asked cfg w')"
proof -
  let ?c = "csrf_defaults cfg"
  have hex: "list_all is_hex_char (minted cfg w)" by (simp add: minted_def hex_encode_chars)
  have len: "length (minted cfg w) = 2 * nat (cs_token_length ?c)" by (simp add: minted_def hex_encode_length)
  have ne: "minted cfg w \<noteq> []" using assms(6) by (simp add: minted_def hex_encode_nonempty)
  obtain attributes where a: "cookie_string (csrf_cookie ?c (csrf_secure cfg) (csrf_http_only ?c) (minted cfg w))
      = cs_cookie_name ?c @ ''='' @ minted cfg w @ ''; Path=/'' @ attributes"
    using csrf_cookie_string [OF assms(3) hex] by blast
  have "run net_step (mw next r') w' = run net_step (serve_copy next r' (with_csrf_token r' (minted cfg w))) (asked cfg w')"
    unfolding run_csrf_unsafe [OF assms(1,9)] Let_def
    using assms(2,10,12) ne request_cookie_hex [OF assms(3) hex ne assms(11)]
    by (simp add: submitted_csrf_token_def Let_def)
  with len hex run_safe_mints [OF assms(1-8), of "next", unfolded a] show ?thesis by blast
qed

subsection \<open>Witnesses\<close>

definition plain_csrf :: csrf_config where
  "plain_csrf = \<lparr>cs_mode = [], cs_cookie_name = [], cs_header_name = [], cs_form_field = [], cs_token_length = 4,
     cs_secure = None, cs_same_site = 0, cs_trusted_hosts = [], cs_has_source = False, cs_expose = False, cs_write = None\<rparr>"

definition token_hex :: string where
  "token_hex = ''72727272''"

definition same_origin_post :: request where
  "same_origin_post = blank_request\<lparr>rq_method := ''POST'',
     rq_header := [''Origin'' \<mapsto> [''https://example.com''], ''Cookie'' \<mapsto> [''_csrf='' @ token_hex],
                   ''X-Csrf-Token'' \<mapsto> [token_hex]]\<rparr>"

lemma plain_csrf_ok: "csrf 9 plain_csrf = Inr (csrf_handler 9 (csrf_defaults plain_csrf))"
proof -
  have "csrf_validate plain_csrf = None" by code_simp
  then show ?thesis by (simp add: csrf_def)
qed

lemma csrf_inner_reached_only_if_witness:
  "validate_origin same_origin_post (csrf_secure plain_csrf) (trusted_now plain_csrf fresh_world)
    \<and> (cs_mode plain_csrf = csrf_origin_only
       \<or> (\<exists>token. token \<noteq> [] \<and> request_cookie same_origin_post (cs_cookie_name (csrf_defaults plain_csrf)) = Some token
            \<and> fst (fst (run net_step (submitted_csrf_token 9 same_origin_post (cs_header_name (csrf_defaults plain_csrf))
                  (cs_form_field (csrf_defaults plain_csrf))) (asked plain_csrf fresh_world))) = token))"
proof (rule csrf_inner_reached_only_if [OF plain_csrf_ok])
  show "rq_method same_origin_post \<notin> {''GET'', ''HEAD'', ''OPTIONS''}" by code_simp
  have "fst (fst (run net_step (csrf_handler 9 (csrf_defaults plain_csrf) (panicking ''a'') same_origin_post) fresh_world))
      \<noteq> fst (fst (run net_step (csrf_handler 9 (csrf_defaults plain_csrf) (panicking ''b'') same_origin_post) fresh_world))"
    by code_simp
  then show "run net_step (csrf_handler 9 (csrf_defaults plain_csrf) (panicking ''a'') same_origin_post) fresh_world
      \<noteq> run net_step (csrf_handler 9 (csrf_defaults plain_csrf) (panicking ''b'') same_origin_post) fresh_world"
    by metis
qed

lemma csrf_fails_closed_witness:
  "net_committed (snd (run net_step (csrf_handler 9 (csrf_defaults plain_csrf) (panicking ''never'')
     (blank_request\<lparr>rq_method := ''DELETE''\<rparr>)) fresh_world)) 403"
proof -
  have w: "cs_write plain_csrf = None" by code_simp
  show ?thesis
    using csrf_fails_closed [OF plain_csrf_ok, of "blank_request\<lparr>rq_method := ''DELETE''\<rparr>" fresh_world "panicking ''never''"]
      default_ok fresh_facts(1) by (simp add: w blank_request_def)
qed

lemma multipart_token_never_read_witness:
  "fst (fst (run net_step (submitted_csrf_token 9
     (blank_request\<lparr>rq_method := ''POST'', rq_header := [''Content-Type'' \<mapsto> [''multipart/form-data; boundary=b'']]\<rparr>)
     ''X-CSRF-Token'' ''csrf_token'') fresh_world)) = []"
proof (rule multipart_token_never_read)
  let ?r = "blank_request\<lparr>rq_method := ''POST'', rq_header := [''Content-Type'' \<mapsto> [''multipart/form-data; boundary=b'']]\<rparr>"
  show "hget (rq_header ?r) ''X-CSRF-Token'' = []" by code_simp
  show "rq_post_form ?r = None" by code_simp
  have "fst (parse_media_type (hget (rq_header ?r) ''Content-Type'')) = ''multipart/form-data''" by code_simp
  then show "fst (parse_media_type (hget (rq_header ?r) ''Content-Type'')) = ''multipart/form-data''
      \<or> rq_method ?r \<notin> {''POST'', ''PUT'', ''PATCH''}" by blast
qed

lemma csrf_minted_token_accepted_witness:
  "minted plain_csrf fresh_world = token_hex
   \<and> run net_step (csrf_handler 9 (csrf_defaults plain_csrf) (panicking ''inside'') same_origin_post) fresh_world
     = run net_step (serve_copy (panicking ''inside'') same_origin_post (with_csrf_token same_origin_post token_hex)) fresh_world"
proof -
  have m: "minted plain_csrf fresh_world = token_hex" by code_simp
  have a: "asked plain_csrf fresh_world = fresh_world" by (simp add: asked_def plain_csrf_def)
  have h: "cs_mode plain_csrf \<noteq> csrf_origin_only" "cookie_token (cs_cookie_name (csrf_defaults plain_csrf))"
    "rq_method blank_request \<in> {''GET'', ''HEAD'', ''OPTIONS''}"
    "request_cookie blank_request (cs_cookie_name (csrf_defaults plain_csrf)) = None"
    "0 < cs_token_length (csrf_defaults plain_csrf)" "\<not> snd (wd_random fresh_world (wd_rands fresh_world))"
    "canonical (cs_header_name (csrf_defaults plain_csrf)) \<noteq> ''Set-Cookie''"
    "rq_method same_origin_post \<notin> {''GET'', ''HEAD'', ''OPTIONS''}"
    "validate_origin same_origin_post (csrf_secure plain_csrf) (trusted_now plain_csrf fresh_world)"
    "hvalues (rq_header same_origin_post) ''Cookie'' = [cs_cookie_name (csrf_defaults plain_csrf) @ ''='' @ token_hex]"
    "hget (rq_header same_origin_post) (cs_header_name (csrf_defaults plain_csrf)) = token_hex"
    by code_simp+
  from csrf_minted_token_accepted [OF plain_csrf_ok h(1-9), unfolded m, OF h(10,11), of "panicking ''inside''"] a m
  show ?thesis by simp
qed

end
