(* ===== verification/Problem.thy ===== *)
theory Problem imports GoJson Handlers "HOL-Library.AList" "HOL-Library.List_Lexorder" "HOL-Library.Char_ord" begin

text \<open>
  \<^verbatim>\<open>problem/problem.go\<close> and \<^verbatim>\<open>problem/writer.go\<close>: RFC 9457 problem details and the error writer built on them.

  The extensions of a problem are a Go map, so a reference: copies of the struct share it.  A problem holds
  the address of its map in a store of maps (\<open>None\<close> is the nil map); \<open>WithExtension\<close> writes through it.
\<close>

subsection \<open>Problems and their extensions\<close>

text \<open>A value of type \<open>any\<close>: one \<open>encoding/json\<close> can encode, or one it cannot (a channel, a function, NaN).\<close>

datatype any_value = Encodable json | Unencodable

type_synonym ext_store = "(string \<times> any_value) list list"

record problem =
  pb_type :: string
  pb_title :: string
  pb_status :: int
  pb_detail :: string
  pb_instance :: string
  pb_request_id :: string
  pb_extensions :: "nat option"

definition extensions :: "ext_store \<Rightarrow> problem \<Rightarrow> (string \<times> any_value) list" where
  "extensions st p = (case pb_extensions p of Some a \<Rightarrow> if a < length st then st ! a else [] | None \<Rightarrow> [])"

subsection \<open>Encoding\<close>

text \<open>
  \<open>json.Marshal(Alias(p))\<close>: the fields in declaration order, empty ones omitted.
\<close>

definition alias_members :: "problem \<Rightarrow> (string \<times> json) list" where
  "alias_members p =
     (if pb_type p = [] then [] else [(''type'', JStr (pb_type p))])
     @ (if pb_title p = [] then [] else [(''title'', JStr (pb_title p))])
     @ (if pb_status p = 0 then [] else [(''status'', JNum (itoa (pb_status p)))])
     @ (if pb_detail p = [] then [] else [(''detail'', JStr (pb_detail p))])
     @ (if pb_instance p = [] then [] else [(''instance'', JStr (pb_instance p))])
     @ (if pb_request_id p = [] then [] else [(''request_id'', JStr (pb_request_id p))])"

definition marshal_alias :: "problem \<Rightarrow> string" where
  "marshal_alias p = json_encode (JObj (alias_members p))"

text \<open>
  The keys of a map are written in byte order; one value that cannot be encoded fails the whole call.
\<close>

definition marshal_map :: "(string \<times> any_value) list \<Rightarrow> string option" where
  "marshal_map m =
     (if list_all (\<lambda>(k, v). v \<noteq> Unencodable) m
      then Some (json_encode (JObj (map (\<lambda>k. (k, case map_of m k of Some (Encodable v) \<Rightarrow> v | _ \<Rightarrow> JNull))
                                      (sort (map fst m)))))
      else None)"

text \<open>
  \<open>Problem.MarshalJSON\<close>.  With extensions the plain encoding is read back into a map, which takes the
  status through a \<open>float64\<close>: the model is for statuses of at most 53 bits, where that is exact.
\<close>

definition marshal_json :: "ext_store \<Rightarrow> problem \<Rightarrow> string option" where
  "marshal_json st p =
     (if extensions st p = [] then Some (marshal_alias p)
      else case json_parse (marshal_alias p) of
             Some (JObj kvs) \<Rightarrow>
               let m = foldl (\<lambda>m (k, v). AList.update k (Encodable v) m) [] kvs
               in marshal_map (foldl (\<lambda>m (k, v). AList.update k v m) m (extensions st p))
           | _ \<Rightarrow> None)"

subsection \<open>Constructors\<close>

definition new_problem :: "int \<Rightarrow> string \<Rightarrow> problem" where
  "new_problem status title =
     \<lparr>pb_type = [], pb_title = title, pb_status = status, pb_detail = [], pb_instance = [], pb_request_id = [],
      pb_extensions = None\<rparr>"

definition with_type :: "problem \<Rightarrow> string \<Rightarrow> problem" where
  "with_type p typ = p\<lparr>pb_type := typ\<rparr>"

definition with_detail :: "problem \<Rightarrow> string \<Rightarrow> problem" where
  "with_detail p detail = p\<lparr>pb_detail := detail\<rparr>"

definition with_instance :: "problem \<Rightarrow> string \<Rightarrow> problem" where
  "with_instance p inst = p\<lparr>pb_instance := inst\<rparr>"

definition with_problem_request_id :: "problem \<Rightarrow> string \<Rightarrow> problem" where
  "with_problem_request_id p rid = p\<lparr>pb_request_id := rid\<rparr>"

text \<open>
  \<open>WithExtension\<close> has a value receiver, but writes through the map it shares with every copy of the problem;
  only a nil map is replaced by a fresh one.
\<close>

definition with_extension :: "string \<Rightarrow> any_value \<Rightarrow> problem \<Rightarrow> ext_store \<Rightarrow> problem \<times> ext_store" where
  "with_extension key val p st =
     (case pb_extensions p of
        None \<Rightarrow> (p\<lparr>pb_extensions := Some (length st)\<rparr>, st @ [[(key, val)]])
      | Some a \<Rightarrow> (p, st[a := AList.update key val (st ! a)]))"

definition pb_bad_request :: "string \<Rightarrow> string \<Rightarrow> problem" where
  "pb_bad_request title detail = with_detail (new_problem 400 title) detail"

definition pb_unauthorized :: "string \<Rightarrow> string \<Rightarrow> problem" where
  "pb_unauthorized title detail = with_detail (new_problem 401 title) detail"

definition pb_forbidden :: "string \<Rightarrow> string \<Rightarrow> problem" where
  "pb_forbidden title detail = with_detail (new_problem 403 title) detail"

definition pb_not_found :: "string \<Rightarrow> string \<Rightarrow> problem" where
  "pb_not_found title detail = with_detail (new_problem 404 title) detail"

definition pb_method_not_allowed :: "string \<Rightarrow> string \<Rightarrow> problem" where
  "pb_method_not_allowed title detail = with_detail (new_problem 405 title) detail"

definition pb_conflict :: "string \<Rightarrow> string \<Rightarrow> problem" where
  "pb_conflict title detail = with_detail (new_problem 409 title) detail"

definition pb_too_many_requests :: "string \<Rightarrow> string \<Rightarrow> problem" where
  "pb_too_many_requests title detail = with_detail (new_problem 429 title) detail"

definition pb_internal_server_error :: "string \<Rightarrow> string \<Rightarrow> problem" where
  "pb_internal_server_error title detail = with_detail (new_problem 500 title) detail"

definition pb_service_unavailable :: "string \<Rightarrow> string \<Rightarrow> problem" where
  "pb_service_unavailable title detail = with_detail (new_problem 503 title) detail"

subsection \<open>Writing\<close>

definition with_defaults :: "request \<Rightarrow> problem \<Rightarrow> problem" where
  "with_defaults r p0 =
     (let p1 = (if pb_status p0 = 0 then p0\<lparr>pb_status := 500\<rparr> else p0);
          p2 = (if pb_type p1 = [] then p1\<lparr>pb_type := ''about:blank''\<rparr> else p1)
      in if pb_request_id p2 = [] then p2\<lparr>pb_request_id := request_id_from r\<rparr> else p2)"

text \<open>\<open>Write\<close>: the encoder writes the text and a newline in one call, and nothing when encoding failed.\<close>

definition write_problem :: "ext_store \<Rightarrow> request \<Rightarrow> problem \<Rightarrow> (outcome \<times> gerr option) prog" where
  "write_problem st r p0 =
     (let p = with_defaults r p0 in
      Op (HSet ''Content-Type'' ''application/problem+json'') (\<lambda>_.
      Op (WHeader (pb_status p)) (\<lambda>h. case h of
        RPanic msg \<Rightarrow> Ret (Panicked msg, None)
      | _ \<Rightarrow>
          (case marshal_json st p of
             None \<Rightarrow> Ret (Returned, Some (EMsg ''json: unsupported type''))
           | Some text \<Rightarrow>
               Op (WWrite (Raw (text @ [CHR 0x0A]))) (\<lambda>x. case x of
                 RPanic msg \<Rightarrow> Ret (Panicked msg, None)
               | RWrote n err \<Rightarrow> Ret (Returned, err)
               | _ \<Rightarrow> Ret (Returned, None))))))"

definition problem_of_failure :: "failure \<Rightarrow> problem \<times> ext_store" where
  "problem_of_failure f =
     (let title = (if fl_message f = [] then status_text (fl_status f) else fl_message f);
          (p, st) = (if fl_code f = [] then (new_problem (fl_status f) title, [])
                     else with_extension ''code'' (Encodable (JStr (fl_code f))) (new_problem (fl_status f) title) [])
      in (if fl_request_id f = [] then p else with_problem_request_id p (fl_request_id f), st))"

definition problem_error_writer :: error_writer where
  "problem_error_writer r f =
     (let (p, st) = problem_of_failure f
      in bindP (write_problem st r p) (\<lambda>(out, err). Ret (out, r)))"


subsection \<open>What is encoded\<close>

definition problem_utf8 :: "problem \<Rightarrow> bool" where
  "problem_utf8 p \<longleftrightarrow> list_all valid_utf8
     [pb_type p, pb_title p, pb_detail p, pb_instance p, pb_request_id p]"

lemma member_names_utf8 [simp]:
  "valid_utf8 ''type''" "valid_utf8 ''title''" "valid_utf8 ''status''" "valid_utf8 ''detail''"
  "valid_utf8 ''instance''" "valid_utf8 ''request_id''" "valid_utf8 ''code''"
  by code_simp+

lemma alias_parses: "problem_utf8 p \<Longrightarrow> json_parse (marshal_alias p) = Some (JObj (alias_members p))"
  unfolding marshal_alias_def
  by (rule json_roundtrip) (auto simp: problem_utf8_def alias_members_def number_ok_itoa max_depth_def)

lemma alias_distinct: "distinct (map fst (alias_members p))"
  by (simp add: alias_members_def)

lemma map_of_fold_update:
  "map_of (foldl (\<lambda>m (k, v). AList.update k (f v) m) m0 kvs) k =
     (case map_of (rev kvs) k of Some v \<Rightarrow> Some (f v) | None \<Rightarrow> map_of m0 k)"
  by (induction kvs arbitrary: m0) (auto simp: AList.update_conv' map_add_def split: option.split)

lemma distinct_fold_update:
  "distinct (map fst m0) \<Longrightarrow> distinct (map fst (foldl (\<lambda>m (k, v). AList.update k (f v) m) m0 kvs))"
  by (induction kvs arbitrary: m0) (auto simp: AList.distinct_update)

lemma map_of_rev: "distinct (map fst kvs) \<Longrightarrow> map_of (rev kvs) = map_of kvs"
  by (simp add: map_of_inject_set rev_map [symmetric])

lemma marshal_map_members:
  assumes "distinct (map fst m)" "list_all (\<lambda>(k, v). v \<noteq> Unencodable) m"
  shows "\<exists>ms. marshal_map m = Some (json_encode (JObj ms)) \<and> sorted (map fst ms) \<and> distinct (map fst ms)
    \<and> (\<forall>k. map_of m k = map_option Encodable (map_of ms k))"
proof -
  let ?g = "\<lambda>k. case map_of m k of Some (Encodable v) \<Rightarrow> v | _ \<Rightarrow> JNull"
  let ?ms = "map (\<lambda>k. (k, ?g k)) (sort (map fst m))"
  have "map_of m k = map_option Encodable (map_of ?ms k)" for k
  proof (cases "map_of m k")
    case None
    then have "k \<notin> set (map fst m)" by (simp add: map_of_eq_None_iff)
    then show ?thesis using None by (simp add: map_of_map_restrict)
  next
    case (Some a)
    then have k: "(k, a) \<in> set m" by (rule map_of_SomeD)
    then obtain v where "a = Encodable v" using assms(2) by (cases a) (auto simp: list_all_iff)
    moreover have "k \<in> set (map fst m)" using k by force
    ultimately show ?thesis using Some by (simp add: map_of_map_restrict)
  qed
  moreover have "map fst ?ms = sort (map fst m)" by (simp add: comp_def)
  moreover have "marshal_map m = Some (json_encode (JObj ?ms))" using assms(2) by (simp only: marshal_map_def if_True)
  moreover have "sorted (map fst ?ms)" "distinct (map fst ?ms)" using assms(1) by (simp_all add: comp_def)
  ultimately show ?thesis by (intro exI [of _ ?ms] conjI allI)
qed

text \<open>
  \<open>MarshalJSON\<close> on a problem with extensions that can be encoded: the result is one object with sorted
  keys, in which every extension is present with its value - it wins over the field of the same name - and
  every other key is a non-empty field.
\<close>

lemma marshal_merges_extensions:
  assumes utf8: "problem_utf8 p" and ext: "extensions st p \<noteq> []" "distinct (map fst (extensions st p))"
    and enc: "list_all (\<lambda>(k, v). v \<noteq> Unencodable) (extensions st p)"
  shows "\<exists>ms. marshal_json st p = Some (json_encode (JObj ms)) \<and> sorted (map fst ms) \<and> distinct (map fst ms)
    \<and> (\<forall>k. map_option Encodable (map_of ms k) =
          (case map_of (extensions st p) k of Some v \<Rightarrow> Some v | None \<Rightarrow> map_option Encodable (map_of (alias_members p) k)))"
proof -
  let ?m1 = "foldl (\<lambda>m (k, v). AList.update k (Encodable v) m) [] (alias_members p)"
  let ?m2 = "foldl (\<lambda>m (k, v). AList.update k v m) ?m1 (extensions st p)"
  have m1: "map_of ?m1 k = map_option Encodable (map_of (alias_members p) k)" for k
    unfolding map_of_fold_update [of Encodable] map_of_rev [OF alias_distinct]
    by (simp split: option.split)
  have m2: "map_of ?m2 k = (case map_of (extensions st p) k of Some v \<Rightarrow> Some v | None \<Rightarrow> map_of ?m1 k)" for k
    using map_of_fold_update [of "\<lambda>v. v" ?m1 "extensions st p"] by (simp add: map_of_rev [OF ext(2)])
  have d: "distinct (map fst ?m2)"
    by (rule distinct_fold_update [of _ "\<lambda>v. v"], rule distinct_fold_update) simp
  have "v \<noteq> Unencodable" if "(k, v) \<in> set ?m2" for k v
  proof -
    have "map_of ?m2 k = Some v" using d that by simp
    then show ?thesis
      unfolding m2 m1 using enc by (auto simp: list_all_iff dest!: map_of_SomeD split: option.splits)
  qed
  then have "list_all (\<lambda>(k, v). v \<noteq> Unencodable) ?m2" by (auto simp: list_all_iff)
  from marshal_map_members [OF d this] obtain ms where ms: "marshal_map ?m2 = Some (json_encode (JObj ms))"
    "sorted (map fst ms)" "distinct (map fst ms)" "\<forall>k. map_of ?m2 k = map_option Encodable (map_of ms k)" by blast
  have v: "map_option Encodable (map_of ms k) = (case map_of (extensions st p) k of Some v \<Rightarrow> Some v
      | None \<Rightarrow> map_option Encodable (map_of (alias_members p) k))" for k
    using spec [OF ms(4), of k] by (simp only: m2 m1)
  have "marshal_json st p = marshal_map ?m2"
    using ext(1) by (simp add: marshal_json_def alias_parses [OF utf8] Let_def)
  then show ?thesis using ms(1-3) v by (intro exI [of _ ms]) (simp only: simp_thms)
qed

text \<open>
  \<open>WithExtension\<close> leaks into the problem it was called on: when that problem has extensions already, the
  new key shows up in every problem that shares the map, the receiver included.
\<close>

lemma with_extension_shares_map:
  assumes "pb_extensions p = Some a" "a < length st" "with_extension key val p st = (q, st')"
  shows "map_of (extensions st' p) key = Some val
    \<and> (\<forall>p'. pb_extensions p' = Some a \<longrightarrow> extensions st' p' = extensions st' q)"
  using assms by (auto simp: with_extension_def extensions_def AList.update_conv')

subsection \<open>The error writer\<close>

lemma failure_status: "pb_status (fst (problem_of_failure f)) = fl_status f"
  by (simp add: problem_of_failure_def with_extension_def new_problem_def with_problem_request_id_def Let_def)

lemma defaults_status: "pb_status p \<noteq> 0 \<Longrightarrow> pb_status (with_defaults r p) = pb_status p"
  by (simp add: with_defaults_def Let_def)

context response_writer begin

lemma write_problem_commits:
  assumes "uncommitted w" "200 \<le> pb_status p" "pb_status p \<le> 999"
  shows "fst (fst (run m (write_problem st r p) w)) = Returned"
    and "committed (snd (run m (write_problem st r p) w)) (pb_status p)"
proof -
  let ?w1 = "snd (m w (HSet ''Content-Type'' ''application/problem+json''))"
  let ?w2 = "snd (m ?w1 (WHeader (pb_status p)))"
  have s: "pb_status (with_defaults r p) = pb_status p" using assms(2) by (intro defaults_status) simp
  have "uncommitted ?w1" using assms(1) by (simp add: header_step)
  from commit_step [OF this assms(2,3)] have h: "fst (m ?w1 (WHeader (pb_status p))) = RUnit" "committed ?w2 (pb_status p)"
    by auto
  have x: "\<not> is_panic (fst (m ?w2 (WWrite q)))" "committed (snd (m ?w2 (WWrite q))) (pb_status p)" for q
    using h(2) committed_write committed_step by blast+
  have y: "fst (m ?w2 (WWrite q)) \<noteq> RPanic msg" for q msg using x(1) [of q] by auto
  show "fst (fst (run m (write_problem st r p) w)) = Returned"
    "committed (snd (run m (write_problem st r p) w)) (pb_status p)"
    using h x(2) y
    by (auto simp: write_problem_def Let_def s case_prod_beta split: option.split res.split)
qed

lemma problem_writer_ok: "error_writer_ok problem_error_writer m uncommitted committed"
proof -
  have "fst (run m (problem_error_writer r f) w) = (Returned, r)
      \<and> committed (snd (run m (problem_error_writer r f) w)) (fl_status f)"
    if "uncommitted w" "200 \<le> fl_status f" "fl_status f \<le> 999" for r f w
    using write_problem_commits [of w "fst (problem_of_failure f)" "snd (problem_of_failure f)" r] that
    by (simp add: problem_error_writer_def run_bind case_prod_beta failure_status)
  then show ?thesis by (simp add: error_writer_ok_def)
qed

end

text \<open>
  \<open>problem.ErrorWriter\<close> keeps the contract the middlewares rely on: given an uncommitted response and a
  failure with a final status it returns, the status is sent, and the request is as it was.
\<close>

lemma problem_error_writer_contract:
  "error_writer_ok problem_error_writer net_step net_uncommitted net_committed"
  by (rule netw.problem_writer_ok)


text \<open>What one write sends, on a response without a declared length.\<close>

lemma net_write_all:
  assumes "wd_wrote w" "\<not> wd_hijacked w" "wd_cl w = None" "body_allowed (wd_status w)"
    "wd_write_err w (wd_writes w) = None" "s \<noteq> []"
  shows "fst (net_write (Raw s) w) = RWrote (length s) None"
    "wd_body (snd (net_write (Raw s) w)) = wd_body w @ [Raw s]"
    "wd_sent (snd (net_write (Raw s) w)) = wd_sent w"
  using assms by (simp_all add: net_write_def net_write_header_def payload_len_def frame_size_def Let_def)

definition failure_title :: "failure \<Rightarrow> string" where
  "failure_title f = (if fl_message f = [] then status_text (fl_status f) else fl_message f)"

definition failure_members :: "request \<Rightarrow> failure \<Rightarrow> (string \<rightharpoonup> json)" where
  "failure_members r f =
     (let rid = (if fl_request_id f = [] then request_id_from r else fl_request_id f)
      in map_of
        ((if fl_code f = [] then [] else [(''code'', JStr (fl_code f))])
         @ [(''type'', JStr ''about:blank'')]
         @ (if failure_title f = [] then [] else [(''title'', JStr (failure_title f))])
         @ [(''status'', JNum (itoa (fl_status f)))]
         @ (if rid = [] then [] else [(''request_id'', JStr rid)])))"

definition flat_value :: "json \<Rightarrow> bool" where
  "flat_value v \<longleftrightarrow> json_ok v \<and> json_depth v = 0"

lemma flat_roundtrip:
  assumes "\<forall>(k, v)\<in>set ms. valid_utf8 k \<and> flat_value v"
  shows "json_parse (json_encode (JObj ms)) = Some (JObj ms)"
proof (rule json_roundtrip)
  show "json_ok (JObj ms)" using assms by (auto simp: list_all_iff flat_value_def)
  have "foldr max (map (\<lambda>(k, v). json_depth v) ms) 0 = 0"
    using assms by (induction ms) (auto simp: flat_value_def)
  then show "json_depth (JObj ms) \<le> max_depth" by (simp add: max_depth_def)
qed

lemma alias_flat: "problem_utf8 p \<Longrightarrow> \<forall>(k, v)\<in>set (alias_members p). valid_utf8 k \<and> flat_value v"
  by (auto simp: problem_utf8_def alias_members_def flat_value_def number_ok_itoa)

definition failure_base :: "request \<Rightarrow> failure \<Rightarrow> problem" where
  "failure_base r f =
     \<lparr>pb_type = ''about:blank'', pb_title = failure_title f, pb_status = fl_status f, pb_detail = [], pb_instance = [],
      pb_request_id = (if fl_request_id f = [] then request_id_from r else fl_request_id f),
      pb_extensions = (if fl_code f = [] then None else Some 0)\<rparr>"

lemma failure_problem:
  assumes "fl_status f \<noteq> 0"
  shows "with_defaults r (fst (problem_of_failure f)) = failure_base r f"
    and "extensions (snd (problem_of_failure f)) (failure_base r f) =
       (if fl_code f = [] then [] else [(''code'', Encodable (JStr (fl_code f)))])"
  unfolding problem_of_failure_def failure_title_def [symmetric] Let_def
  using assms
  by (cases "fl_code f = []"; cases "fl_request_id f = []";
      simp add: with_defaults_def extensions_def with_extension_def new_problem_def with_problem_request_id_def
        failure_base_def Let_def)+

lemma failure_marshals:
  assumes "fl_status f \<noteq> 0"
    and "list_all valid_utf8 [failure_title f, fl_code f, fl_request_id f, request_id_from r]"
  shows "\<exists>ms. marshal_json (snd (problem_of_failure f)) (with_defaults r (fst (problem_of_failure f)))
      = Some (json_encode (JObj ms)) \<and> json_parse (json_encode (JObj ms)) = Some (JObj ms)
    \<and> map_of ms = failure_members r f"
proof -
  let ?p = "failure_base r f" and ?st = "snd (problem_of_failure f)"
  note fp = failure_problem [OF assms(1), of r]
  have members: "alias_members ?p = [(''type'', JStr ''about:blank'')]
       @ (if failure_title f = [] then [] else [(''title'', JStr (failure_title f))])
       @ [(''status'', JNum (itoa (fl_status f)))]
       @ (if pb_request_id ?p = [] then [] else [(''request_id'', JStr (pb_request_id ?p))])"
    using assms(1) by (simp add: alias_members_def failure_base_def)
  have rid: "(if fl_request_id f = [] then request_id_from r else fl_request_id f) = pb_request_id ?p"
    by (simp add: failure_base_def)
  have "valid_utf8 ''about:blank''" "valid_utf8 []" by code_simp+
  then have u: "problem_utf8 ?p" using assms(2) by (simp add: problem_utf8_def failure_base_def)
  show ?thesis
  proof (cases "fl_code f = []")
    case True
    then have "marshal_json ?st ?p = Some (json_encode (JObj (alias_members ?p)))"
      using fp(2) by (simp add: marshal_json_def marshal_alias_def del: json_encode.simps)
    moreover have "map_of (alias_members ?p) = failure_members r f"
      unfolding failure_members_def rid members using True by (simp only: Let_def if_True append_Nil simp_thms)
    ultimately show ?thesis unfolding fp(1) using flat_roundtrip [OF alias_flat [OF u]] by blast
  next
    case False
    then have e: "extensions ?st ?p = [(''code'', Encodable (JStr (fl_code f)))]" using fp(2) by simp
    then obtain ms where ms: "marshal_json ?st ?p = Some (json_encode (JObj ms))" "distinct (map fst ms)"
      "\<forall>k. map_option Encodable (map_of ms k) = (case map_of (extensions ?st ?p) k of Some v \<Rightarrow> Some v
         | None \<Rightarrow> map_option Encodable (map_of (alias_members ?p) k))"
      using marshal_merges_extensions [OF u, of ?st] by auto
    have m: "map_of ms k = (if k = ''code'' then Some (JStr (fl_code f)) else map_of (alias_members ?p) k)" for k
      using spec [OF ms(3), of k] by (cases "map_of ms k"; cases "map_of (alias_members ?p) k") (auto simp: e split: if_splits)
    have "valid_utf8 k \<and> flat_value v" if "(k, v) \<in> set ms" for k v
    proof -
      have "map_of ms k = Some v" using ms(2) that by simp
      then have "k = ''code'' \<and> v = JStr (fl_code f) \<or> (k, v) \<in> set (alias_members ?p)"
        unfolding m by (auto split: if_splits dest: map_of_SomeD)
      then show ?thesis using alias_flat [OF u] assms(2) by (auto simp: flat_value_def)
    qed
    then have "json_parse (json_encode (JObj ms)) = Some (JObj ms)" by (intro flat_roundtrip) auto
    moreover have "map_of ms = failure_members r f"
      unfolding failure_members_def rid Let_def members [symmetric] using False m by (intro ext) simp
    ultimately show ?thesis unfolding fp(1) using ms(1) by blast
  qed
qed

text \<open>
  C36.  What a client gets from \<open>problem.ErrorWriter\<close>: the status of the failure and, under the problem media type, a
  body that is one JSON document with exactly its members - \<open>code\<close>, \<open>type\<close>, \<open>title\<close>, \<open>status\<close> and the request
  id.  The writer returns and leaves the request as it was.
\<close>

theorem problem_error_body:
  assumes state: "net_uncommitted w" "hget (wd_header w) ''Content-Length'' = []" "wd_write_err w (wd_writes w) = None"
    and status: "200 \<le> fl_status f" "fl_status f \<le> 999" "body_allowed (fl_status f)"
    and utf8: "list_all valid_utf8 [failure_title f, fl_code f, fl_request_id f, request_id_from r]"
    and run: "run net_step (problem_error_writer r f) w = (x, w')"
  shows "x = (Returned, r) \<and> net_committed w' (fl_status f)
     \<and> (\<exists>ms. wd_body w' = wd_body w @ [Raw (json_encode (JObj ms) @ [CHR 0x0A])]
     \<and> json_parse (json_encode (JObj ms)) = Some (JObj ms) \<and> map_of ms = failure_members r f
     \<and> hget (wd_sent w') ''Content-Type'' = ''application/problem+json'')"
proof -
  have nz: "fl_status f \<noteq> 0" using status(1) by simp
  obtain ms where ms: "marshal_json (snd (problem_of_failure f)) (with_defaults r (fst (problem_of_failure f)))
      = Some (json_encode (JObj ms))" "json_parse (json_encode (JObj ms)) = Some (JObj ms)" "map_of ms = failure_members r f"
    using failure_marshals [OF nz utf8] by blast
  let ?w1 = "w\<lparr>wd_header := hset (wd_header w) ''Content-Type'' ''application/problem+json''\<rparr>"
  let ?w2 = "snd (net_write_header (fl_status f) ?w1)"
  let ?s = "json_encode (JObj ms) @ [CHR 0x0A]"
  have st: "pb_status (with_defaults r (fst (problem_of_failure f))) = fl_status f"
    using nz by (simp add: defaults_status failure_status)
  have h: "fst (net_write_header (fl_status f) ?w1) = RUnit" "wd_wrote ?w2" "\<not> wd_hijacked ?w2" "wd_cl ?w2 = None"
    "wd_status ?w2 = fl_status f" "wd_body ?w2 = wd_body w" "wd_sent ?w2 = wd_header ?w1"
    "wd_write_err ?w2 (wd_writes ?w2) = None"
    using state status by (simp_all add: net_write_header_def net_uncommitted_def header_simps parse_digits_def)
  have b: "fst (net_write (Raw ?s) ?w2) = RWrote (length ?s) None"
    "wd_body (snd (net_write (Raw ?s) ?w2)) = wd_body w @ [Raw ?s]"
    "wd_sent (snd (net_write (Raw ?s) ?w2)) = wd_header ?w1"
    using net_write_all [of ?w2 ?s] h status(3) by simp_all
  have "w' = snd (net_write (Raw ?s) ?w2)"
    using run h(1) b(1)
    by (simp add: problem_error_writer_def run_bind case_prod_beta write_problem_def st ms(1) Let_def del: json_encode.simps)
  moreover have "x = (Returned, r) \<and> net_committed w' (fl_status f)"
    using error_writer_okD [OF netw.problem_writer_ok state(1) status(1,2), of r] run by simp
  ultimately show ?thesis
    using ms(2,3) b(2,3) by (intro conjI exI [of _ ms]) (simp_all add: header_simps del: json_encode.simps)
qed

theorem problem_error_body_witness:
  "let f = with_request_id (payload_too_large error_code_payload_too_large ''Request body too large'') ''req-9'';
       w = snd (run net_step (problem_error_writer blank_request f) fresh_world)
   in \<exists>s ms. wd_body w = [Raw s] \<and> json_parse (json_encode (JObj ms)) = Some (JObj ms)
        \<and> map_of ms ''code'' = Some (JStr ''PAYLOAD_TOO_LARGE'') \<and> map_of ms ''request_id'' = Some (JStr ''req-9'')
        \<and> map_of ms ''status'' = Some (JNum ''413'') \<and> map_of ms ''detail'' = None"
proof -
  define f where "f = with_request_id (payload_too_large error_code_payload_too_large ''Request body too large'') ''req-9''"
  have f: "fl_status f = 413" "fl_code f = ''PAYLOAD_TOO_LARGE''" "fl_message f = ''Request body too large''"
    "fl_request_id f = ''req-9''"
    by (simp_all add: f_def with_request_id_def payload_too_large_def new_failure_def error_code_payload_too_large_def)
  have u: "list_all valid_utf8 [failure_title f, fl_code f, fl_request_id f, request_id_from blank_request]"
    unfolding failure_title_def f request_id_from_def by code_simp
  have s: "net_uncommitted fresh_world" "hget (wd_header fresh_world) ''Content-Length'' = []"
    "wd_write_err fresh_world (wd_writes fresh_world) = None" "wd_body fresh_world = []"
    by (simp_all add: net_uncommitted_def fresh_world_def)
  obtain x w' where run: "run net_step (problem_error_writer blank_request f) fresh_world = (x, w')" by fastforce
  have st: "200 \<le> fl_status f" "fl_status f \<le> 999" "body_allowed (fl_status f)"
    by (simp_all add: f body_allowed_def)
  from problem_error_body [OF s(1-3) st u run] obtain ms where
    ms: "wd_body w' = [Raw (json_encode (JObj ms) @ [CHR 0x0A])]" "json_parse (json_encode (JObj ms)) = Some (JObj ms)"
      "map_of ms = failure_members blank_request f" by (auto simp: s(4) simp del: json_encode.simps)
  have "itoa 413 = ''413''" by code_simp
  then show ?thesis
    unfolding Let_def f_def [symmetric] using ms
    by (intro exI [of _ "json_encode (JObj ms) @ [CHR 0x0A]"] exI [of _ ms])
      (simp add: run failure_members_def f failure_title_def del: json_encode.simps)
qed

end
