(* ===== verification/GraphQL.thy ===== *)
theory GraphQL imports Handlers GoForm GoJson begin

text \<open>
  \<^verbatim>\<open>graphql/metrics.go\<close>: operation metrics for GraphQL over HTTP - the options, the extraction of the operation
  name from the query string or from a bounded prefix of the body, the body that is put back, the recording
  handler, and the hooks for engines.

  The reads of the body go through \<open>read_all\<close>, whose fuel is the parameter \<open>fuel\<close> of the handlers; a configured
  window is an \<open>int\<close> of 64 bits.
\<close>

subsection \<open>Options\<close>

definition default_peek_window :: int where
  "default_peek_window = 8192"

record gql_config =
  gq_allowed :: "string list"            \<comment> \<open>the keys of \<open>allowedOps\<close>\<close>
  gq_peek_window :: "int option"
  gq_track_other :: bool
  gq_track_all :: bool

definition new_gql_config :: gql_config where
  "new_gql_config = \<lparr>gq_allowed = [], gq_peek_window = None, gq_track_other = False, gq_track_all = False\<rparr>"

definition resolve_peek_window :: "gql_config option \<Rightarrow> int \<times> bool" where
  "resolve_peek_window c =
     (case Option.bind c gq_peek_window of
        None \<Rightarrow> (default_peek_window, False)
      | Some n \<Rightarrow> if n = 0 then (0, True) else (n, False))"

type_synonym gql_option = "gql_config \<Rightarrow> gql_config"

definition only_operations :: "string list \<Rightarrow> gql_option" where
  "only_operations ops cfg = cfg\<lparr>gq_allowed := remdups (filter (\<lambda>op. op \<noteq> []) ops)\<rparr>"

definition all_operations :: gql_option where
  "all_operations cfg = cfg\<lparr>gq_track_all := True\<rparr>"

definition with_other_bucket :: gql_option where
  "with_other_bucket cfg = cfg\<lparr>gq_track_other := True\<rparr>"

definition with_peek_window :: "int \<Rightarrow> gql_option" where
  "with_peek_window n cfg = cfg\<lparr>gq_peek_window := Some n\<rparr>"

definition with_max_body_size :: "int \<Rightarrow> gql_option" where
  "with_max_body_size n = with_peek_window n"

definition tracking_enabled :: "gql_config \<Rightarrow> bool" where
  "tracking_enabled c \<longleftrightarrow> gq_track_all c \<or> gq_track_other c \<or> length (gq_allowed c) > 0"

subsection \<open>The operation name in a body\<close>

definition looks_like_graphql_content_type :: "string \<Rightarrow> bool" where
  "looks_like_graphql_content_type ct =
     (if ct = [] then False
      else
        let (media, err) = parse_media_type ct;
            media = (if err then trim_space (hd (split_byte CHR '';'' ct)) else media)
        in to_lower media \<in> {''application/json'', ''application/graphql'', ''application/graphql+json''})"

definition quoted :: "string \<Rightarrow> string" where
  "quoted s = [CHR 0x22] @ s @ [CHR 0x22]"

definition looks_like_graphql_json :: "string \<Rightarrow> bool" where
  "looks_like_graphql_json peek =
     (let trim = dropWhile json_space peek in
      if trim = [] \<or> hd trim \<noteq> CHR ''{'' then False
      else contains peek (quoted ''query'') \<or> contains peek (quoted ''operationName'') \<or> contains peek (quoted ''extensions''))"

text \<open>
  \<open>operationNamePartialRE\<close>: the literal key, white space, a colon, white space and a quoted run of escapes
  and other characters, at the leftmost place it matches.  The value is the run.
\<close>

definition re_space :: "char \<Rightarrow> bool" where
  "re_space c \<longleftrightarrow> char_code c \<in> {9, 10, 12, 13, 32}"

fun re_run :: "string \<Rightarrow> string option" where
  "re_run [] = None"
| "re_run (c # s) =
     (if char_code c = 34 then Some []
      else if char_code c = 92 then
        (case s of
           [] \<Rightarrow> None
         | d # t \<Rightarrow> if char_code d = 10 then None else map_option (\<lambda>m. c # d # m) (re_run t))
      else map_option (\<lambda>m. c # m) (re_run s))"

definition re_here :: "string \<Rightarrow> string option" where
  "re_here s =
     (if \<not> has_prefix s (quoted ''operationName'') then None
      else case dropWhile re_space (drop 15 s) of
        [] \<Rightarrow> None
      | c # t \<Rightarrow>
          if c \<noteq> CHR '':'' then None
          else (case dropWhile re_space t of
                  [] \<Rightarrow> None
                | d # u \<Rightarrow> if d = CHR 0x22 then re_run u else None))"

fun operation_name_partial_re :: "string \<Rightarrow> string option" where
  "operation_name_partial_re [] = None"
| "operation_name_partial_re (c # s) =
     (case re_here (c # s) of None \<Rightarrow> operation_name_partial_re s | Some m \<Rightarrow> Some m)"

text \<open>
  \<open>json.Unmarshal\<close> into a struct whose one field is named \<open>operationName\<close>: members whose name matches without
  regard to case set it, in order; \<open>null\<close> does not; a value of another type is an error.
\<close>

fun operation_field :: "(string \<times> json) list \<Rightarrow> string \<Rightarrow> string option" where
  "operation_field [] name = Some name"
| "operation_field ((k, v) # kvs) name =
     (if equal_fold k ''operationName'' then
        (case v of
           JStr s \<Rightarrow> operation_field kvs s
         | JNull \<Rightarrow> operation_field kvs name
         | _ \<Rightarrow> None)
      else operation_field kvs name)"

definition unmarshal_operation :: "string \<Rightarrow> string option" where
  "unmarshal_operation data =
     (case json_parse data of Some (JObj kvs) \<Rightarrow> operation_field kvs [] | Some JNull \<Rightarrow> Some [] | _ \<Rightarrow> None)"

definition operation_name_from_peek :: "string \<Rightarrow> string" where
  "operation_name_from_peek peek =
     (if \<not> looks_like_graphql_json peek then []
      else case unmarshal_operation peek of
        Some name \<Rightarrow> name
      | None \<Rightarrow>
          (case operation_name_partial_re peek of
             None \<Rightarrow> []
           | Some m \<Rightarrow> (case unmarshal_string (quoted m) of None \<Rightarrow> [] | Some name \<Rightarrow> name)))"

subsection \<open>Reading the body and putting it back\<close>

text \<open>
  \<open>prependCloser\<close> over \<open>io.MultiReader(bytes.NewReader(peek), orig)\<close>: the prefix first, then the original, which
  is not asked again after its end.
\<close>

datatype multi = Prefix string | Original | Ended

definition pc_read :: "nat \<Rightarrow> multi \<Rightarrow> (res \<times> multi) prog" where
  "pc_read len s =
     (case s of
        Ended \<Rightarrow> Ret (RRead [] (Some EEOF), Ended)
      | Prefix (c # cs) \<Rightarrow> Ret (RRead (take len (c # cs)) None, Prefix (drop len (c # cs)))
      | _ \<Rightarrow> Op (BRead len) (\<lambda>r. case r of
               RRead bs (Some EEOF) \<Rightarrow> Ret (r, Ended)
             | _ \<Rightarrow> Ret (r, Original)))"

fun prepend_closer :: "multi \<Rightarrow> op \<Rightarrow> (res \<times> multi) prog" where
  "prepend_closer s (BRead len) = pc_read len s"
| "prepend_closer s e = pass e s"

text \<open>\<open>io.NopCloser(bytes.NewReader(body))\<close>\<close>

fun bytes_body :: "string \<Rightarrow> op \<Rightarrow> (res \<times> string) prog" where
  "bytes_body s (BRead len) = Ret (if s = [] then (RRead [] (Some EEOF), s) else (RRead (take len s) None, drop len s))"
| "bytes_body s BClose = Ret (RErr None, s)"
| "bytes_body s e = pass e s"

datatype new_body = Same | Peeked string | Buffered string

text \<open>A program that reads \<open>r.Body\<close> as it was left.\<close>

definition with_body :: "new_body \<Rightarrow> 'a prog \<Rightarrow> 'a prog" where
  "with_body b p =
     (case b of
        Same \<Rightarrow> p
      | Peeked s \<Rightarrow> bindP (lay prepend_closer p (Prefix s)) (\<lambda>(x, _). Ret x)
      | Buffered s \<Rightarrow> bindP (lay bytes_body p s) (\<lambda>(x, _). Ret x))"

text \<open>The bytes read, whether there was an error, and the body left behind.\<close>

definition read_full_request_body :: "nat \<Rightarrow> request \<Rightarrow> (string \<times> bool \<times> new_body) prog" where
  "read_full_request_body fuel r =
     (if rq_body_nil r then Ret ([], False, Same)
      else
        bindP (read_all fuel None []) (\<lambda>(body, err).
        Op BClose (\<lambda>_.
        if err \<noteq> None then Ret ([], True, Buffered []) else Ret (body, False, Buffered body))))"

definition peek_request_body :: "nat \<Rightarrow> request \<Rightarrow> int \<Rightarrow> (string \<times> bool \<times> new_body) prog" where
  "peek_request_body fuel r n =
     (if rq_body_nil r \<or> n \<le> 0 then Ret ([], False, Same)
      else
        bindP (read_all fuel (Some (nat n)) []) (\<lambda>(peek, err).
        if err \<noteq> None then Ret ([], True, Same) else Ret (peek, False, Peeked peek)))"

definition extract_operation_name :: "nat \<Rightarrow> request \<Rightarrow> int \<Rightarrow> bool \<Rightarrow> (string \<times> new_body) prog" where
  "extract_operation_name fuel r n full =
     (if rq_method r = ''GET'' then
        (let q = parse_query (rq_raw_query r) in
         Ret (if query_get q ''query'' = [] \<and> query_get q ''operationName'' = [] then [] else query_get q ''operationName'', Same))
      else if rq_method r \<noteq> ''POST'' then Ret ([], Same)
      else if \<not> looks_like_graphql_content_type (hget (rq_header r) ''Content-Type'') then Ret ([], Same)
      else if rq_content_length r = 0 then Ret ([], Same)
      else
        bindP (if full then read_full_request_body fuel r
               else peek_request_body fuel r (if n \<le> 0 then default_peek_window else n)) (\<lambda>(buf, err, body).
        Ret (if err \<or> length buf = 0 then [] else operation_name_from_peek buf, body)))"

subsection \<open>The recording handler\<close>

text \<open>\<open>statusRecorder\<close> of this package: it keeps the argument of the last \<open>WriteHeader\<close>.\<close>

fun gql_recorder :: "int \<Rightarrow> op \<Rightarrow> (res \<times> int) prog" where
  "gql_recorder s (WHeader c) = pass (WHeader c) c"
| "gql_recorder s WFlush = Op (WHas IFlusher) (\<lambda>h. if res_bool h then pass WFlush s else Ret (RUnit, s))"
| "gql_recorder s WHijack =
     Op (WHas IHijacker) (\<lambda>h. if res_bool h then pass WHijack s else Ret (RErr (Some (EMsg ''graphql: not a Hijacker'')), s))"
| "gql_recorder s (WPush t) =
     Op (WHas IPusher) (\<lambda>h. if res_bool h then pass (WPush t) s else Ret (RErr (Some ENotSupported), s))"
| "gql_recorder s (WHas i) = Ret (RBool True, s)"
| "gql_recorder s e = pass e s"

text \<open>The name under which an operation is counted, if at all.\<close>

definition metric_op_name :: "gql_config \<Rightarrow> string \<Rightarrow> string option" where
  "metric_op_name cfg op0 =
     (let op' = (if op0 = [] then ''anonymous'' else op0) in
      if op' \<in> set (gq_allowed cfg) then Some op'
      else if gq_track_all cfg then Some op'
      else if gq_track_other cfg then Some ''other''
      else None)"

text \<open>\<open>server\<close> tells whether a server was given.\<close>

definition record_graphql_operation_http_peek :: "bool \<Rightarrow> string \<Rightarrow> int \<Rightarrow> duration \<Rightarrow> unit prog" where
  "record_graphql_operation_http_peek server operation status d =
     (if \<not> server then Ret ()
      else Op (RecPeek (if operation = [] then ''unknown'' else operation) status d) (\<lambda>_. Ret ()))"

definition gql_metrics_handler :: "nat \<Rightarrow> bool \<Rightarrow> gql_config \<Rightarrow> middleware" where
  "gql_metrics_handler fuel server cfg next = (\<lambda>r.
     if \<not> tracking_enabled cfg then next r
     else
       Op Now (\<lambda>t0.
       let (n, full) = resolve_peek_window (Some cfg) in
       bindP (extract_operation_name fuel r n full) (\<lambda>(op0, body).
       bindP (lay gql_recorder (with_body body (next r)) 200) (\<lambda>((out, r'), status).
       case out of
         Panicked msg \<Rightarrow> Ret (Panicked msg, r')
       | Returned \<Rightarrow>
           (case metric_op_name cfg op0 of
              None \<Rightarrow> Ret (Returned, r')
            | Some name \<Rightarrow>
                Op Now (\<lambda>t1.
                bindP (record_graphql_operation_http_peek server name status (res_time t1 - res_time t0)) (\<lambda>_.
                Ret (Returned, r'))))))))"

definition gql_metrics :: "nat \<Rightarrow> bool \<Rightarrow> gql_option list \<Rightarrow> middleware" where
  "gql_metrics fuel server opts = gql_metrics_handler fuel server (foldl (\<lambda>cfg opt. opt cfg) new_gql_config opts)"

subsection \<open>Hooks for engines\<close>

text \<open>\<open>None\<close> is the nil server.\<close>

definition record_graphql_operation :: "meters option \<Rightarrow> string \<Rightarrow> int \<Rightarrow> duration \<Rightarrow> meters option" where
  "record_graphql_operation server operation status d =
     map_option (\<lambda>ms. record_graphql_metric ms (if operation = [] then ''unknown'' else operation) status d) server"

definition record_resolver :: "meters option \<Rightarrow> string \<Rightarrow> string \<Rightarrow> int \<Rightarrow> duration \<Rightarrow> meters option" where
  "record_resolver server operation resolver status d =
     map_option (\<lambda>ms. record_graphql_resolver_metric ms (if operation = [] then ''unknown'' else operation)
       (if resolver = [] then ''unknown'' else resolver) status d) server"

definition with_operation_name :: "context_map \<Rightarrow> string \<Rightarrow> context_map" where
  "with_operation_name ctx name = ctx(OperationNameKey \<mapsto> name)"

definition operation_name_from :: "context_map \<Rightarrow> string" where
  "operation_name_from ctx = (case ctx OperationNameKey of Some op' \<Rightarrow> op' | None \<Rightarrow> [])"

definition gql_middleware :: "nat \<Rightarrow> middleware" where
  "gql_middleware fuel next = (\<lambda>r.
     if operation_name_from (rq_ctx r) = [] then
       bindP (extract_operation_name fuel r default_peek_window False) (\<lambda>(op0, body).
       with_body body
         (if op0 \<noteq> [] then serve_copy next r (r\<lparr>rq_ctx := with_operation_name (rq_ctx r) op0\<rparr>) else next r))
     else next r)"

record op_metrics =
  om_server :: bool
  om_operation :: string
  om_start :: "64 word"

definition start_operation :: "bool \<Rightarrow> string \<Rightarrow> 64 word \<Rightarrow> op_metrics" where
  "start_operation server operation now = \<lparr>om_server = server, om_operation = operation, om_start = now\<rparr>"

definition end_operation :: "op_metrics option \<Rightarrow> int \<Rightarrow> 64 word \<Rightarrow> meters \<Rightarrow> meters" where
  "end_operation m status now ms =
     (case m of
        None \<Rightarrow> ms
      | Some om \<Rightarrow>
          if \<not> om_server om then ms
          else (case record_graphql_operation (Some ms) (om_operation om) status (now - om_start om) of
                  None \<Rightarrow> ms | Some ms' \<Rightarrow> ms'))"

end
