(* ===== verification/GraphQL_Props.thy ===== *)
theory GraphQL_Props imports GraphQL begin

text \<open>
  What the GraphQL metrics guarantee: a bounded set of operation labels, the name a client sent, and a body
  that reaches the handler whole - and where the code falls short of its comments.
\<close>

subsection \<open>Bounded labels\<close>

definition op_keys :: "world \<Rightarrow> string set" where
  "op_keys w = (case wd_meters w of None \<Rightarrow> {} | Some ms \<Rightarrow>
     (case ms_ops ms of None \<Rightarrow> {} | Some m \<Rightarrow> set (map fst (mt_total m))))"

definition peek_label_op :: "string set \<Rightarrow> op \<Rightarrow> bool" where
  "peek_label_op L e \<longleftrightarrow> (case e of RecPeek name st d \<Rightarrow> name \<in> L | _ \<Rightarrow> True)"

lemma peek_label_simps [simp]:
  "peek_label_op L (WHeader c)" "peek_label_op L WFlush" "peek_label_op L WHijack" "peek_label_op L (WPush t)"
  "peek_label_op L (WHas i)" "peek_label_op L (WWrite p)" "peek_label_op L (BRead n)" "peek_label_op L BClose"
  "peek_label_op L Now" "peek_label_op L (RecPeek name st d) \<longleftrightarrow> name \<in> L"
  by (simp_all add: peek_label_op_def)

definition peek_key :: "string \<Rightarrow> string" where
  "peek_key name = (if name = [] then ''unknown'' else name) @ [key_sep] @ instr_http_peek"

lemma peek_adds:
  "ms_ops ms = Some m \<Longrightarrow> ms_ops (record_graphql_metric_from_http_peek ms name st d) =
     Some (meter_add m (peek_key name) (status_class st) (clamp_duration d))"
  by (simp add: record_graphql_metric_from_http_peek_def record_graphql_op_def record_meter_def peek_key_def
      instr_http_peek_def Let_def)

lemma op_keys_peek:
  "fst ` set (mt_total (meter_add m k c d)) = insert k (fst ` set (mt_total m))"
  by (simp add: meter_add_def Let_def fst_set_update)

lemma op_keys_step:
  assumes "peek_label_op L e" "op_keys w \<subseteq> S" "peek_key ` L \<subseteq> S"
  shows "op_keys (snd (net_step w e)) \<subseteq> S"
proof (cases "\<exists>name st d. e = RecPeek name st d")
  case True
  then obtain name st d where e: "e = RecPeek name st d" by blast
  then have n: "peek_key name \<in> S" using assms(1,3) by auto
  show ?thesis
  proof (cases "wd_meters w")
    case None
    then show ?thesis using e by (simp add: op_keys_def on_meters_def)
  next
    case (Some ms)
    show ?thesis
    proof (cases "ms_ops ms")
      case None
      then show ?thesis using Some e
        by (simp add: op_keys_def on_meters_def record_graphql_metric_from_http_peek_def record_graphql_op_def
            record_meter_def Let_def)
    next
      case (Some m)
      have "op_keys (snd (net_step w e)) = insert (peek_key name) (op_keys w)"
        using peek_adds [OF Some] op_keys_peek e Some \<open>wd_meters w = Some ms\<close>
        by (simp add: op_keys_def on_meters_def)
      then show ?thesis using assms(2) n by simp
    qed
  qed
next
  case False
  then have "op_keys (snd (net_step w e)) = op_keys w"
    by (cases e)
      (auto simp: op_keys_def net_write_header_def net_write_def net_hijack_def net_read_def on_meters_def
        in_flight_add_def record_http_from_middleware_def record_http_def Let_def case_prod_beta
        split: option.splits list.splits)
  then show ?thesis using assms(2) by simp
qed

interpretation labels: machine_invariant net_step "peek_label_op L" "\<lambda>w. op_keys w \<subseteq> peek_key ` L \<union> S0" for L S0
  by unfold_locales (rule op_keys_step, assumption, assumption, simp)

lemma label_layers: "layer_ok (peek_label_op L) gql_recorder" "layer_ok (peek_label_op L) prepend_closer"
  "layer_ok (peek_label_op L) bytes_body"
proof -
  show "layer_ok (peek_label_op L) gql_recorder"
    unfolding layer_ok_def by (intro allI impI, rename_tac s e, case_tac e; simp)
  show "layer_ok (peek_label_op L) prepend_closer"
    unfolding layer_ok_def
    by (intro allI impI, rename_tac s e, case_tac e;
        auto simp: pc_read_def split: multi.split list.split res.split option.split gerr.split)
  show "layer_ok (peek_label_op L) bytes_body"
    unfolding layer_ok_def by (intro allI impI, rename_tac s e, case_tac e; simp)
qed

lemma label_with_body: "ops_ok (peek_label_op L) p \<Longrightarrow> ops_ok (peek_label_op L) (with_body b p)"
  using label_layers by (cases b) (auto simp: with_body_def intro!: ops_ok_bind ops_ok_lay)

lemma label_read_all: "ops_ok (peek_label_op L) (read_all fuel limit acc)"
  by (induction fuel limit acc rule: read_all.induct) (auto simp: Let_def split: res.split option.split)

lemma label_extract: "ops_ok (peek_label_op L) (extract_operation_name fuel r n full)"
  by (auto simp: extract_operation_name_def read_full_request_body_def peek_request_body_def Let_def
      intro!: ops_ok_bind label_read_all)

lemma label_handler:
  assumes "ops_ok (peek_label_op L) (next r)" "\<And>op0 name. metric_op_name cfg op0 = Some name \<Longrightarrow>
    (if name = [] then ''unknown'' else name) \<in> L"
  shows "ops_ok (peek_label_op L) (gql_metrics_handler fuel server cfg next r)"
proof -
  have rec: "ops_ok (peek_label_op L) (record_graphql_operation_http_peek server name st d)"
    if "metric_op_name cfg op0 = Some name" for op0 name st d
    using assms(2) [OF that] by (simp add: record_graphql_operation_http_peek_def)
  have body: "ops_ok (peek_label_op L) (lay gql_recorder (with_body b (next r)) 200)" for b
    by (intro ops_ok_lay label_layers label_with_body assms(1))
  show ?thesis
    unfolding gql_metrics_handler_def
    by (auto simp: assms(1) case_prod_beta Let_def split: outcome.split option.split
        intro!: ops_ok_bind label_extract body rec)
qed

text \<open>
  C37.  Bounded cardinality: without \<open>AllOperations\<close>, whatever name a client sends, a request adds to the
  operation meter at most the keys of the allowed operations and of \<open>other\<close>, all tagged \<open>http_peek\<close>.
\<close>

theorem gql_labels_bounded:
  assumes "\<not> gq_track_all cfg" "[] \<notin> set (gq_allowed cfg)" "ops_ok (peek_label_op {}) (next r)"
  shows "op_keys (snd (run net_step (gql_metrics_handler fuel server cfg next r) w))
    \<subseteq> peek_key ` (set (gq_allowed cfg) \<union> {''other''}) \<union> op_keys w"
proof -
  let ?L = "set (gq_allowed cfg) \<union> {''other''}"
  have "ops_ok (peek_label_op ?L) (next r)"
    using assms(3) by (rule ops_ok_mono) (auto simp: peek_label_op_def split: op.splits)
  moreover have "(if name = [] then ''unknown'' else name) \<in> ?L" if "metric_op_name cfg op0 = Some name" for op0 name
    using that assms(1,2) by (auto simp: metric_op_name_def Let_def split: if_splits)
  ultimately have "ops_ok (peek_label_op ?L) (gql_metrics_handler fuel server cfg next r)"
    by (rule label_handler)
  then show ?thesis by (rule labels.run_inv) blast
qed

text \<open>The configuration any list of options without \<open>AllOperations\<close> builds is such a one.\<close>

lemma options_config:
  assumes "\<forall>opt\<in>set opts. opt = with_other_bucket \<or> (\<exists>ops. opt = only_operations ops) \<or> (\<exists>n. opt = with_peek_window n)"
    and "\<not> gq_track_all cfg" "[] \<notin> set (gq_allowed cfg)"
  shows "\<not> gq_track_all (foldl (\<lambda>cfg opt. opt cfg) cfg opts) \<and> [] \<notin> set (gq_allowed (foldl (\<lambda>cfg opt. opt cfg) cfg opts))"
  using assms
  by (induction opts arbitrary: cfg) (auto simp: with_other_bucket_def only_operations_def with_peek_window_def)

subsection \<open>The name a client sent\<close>

lemma quoted_key: "json_string ''operationName'' = quoted ''operationName''"
  by code_simp

lemma sublist_commas: "x \<in> set xs \<Longrightarrow> sublist x (commas xs)"
proof (induction xs rule: commas.induct)
  case (3 a b xs)
  show ?case
  proof (cases "x = a")
    case True
    then show ?thesis by (simp add: sublist_def) (metis append_Nil)
  next
    case False
    then have "sublist x (commas (b # xs))" using 3 by simp
    then show ?thesis
      using sublist_appendI [of "commas (b # xs)" "a @ '',''" "[]"] by (simp add: sublist_order.order_trans)
  qed
qed auto

lemma looks_like_encoded:
  assumes "(''operationName'', v) \<in> set kvs"
  shows "looks_like_graphql_json (json_encode (JObj kvs))"
proof -
  have "sublist (quoted ''operationName'') (member (''operationName'', v))"
    by (simp add: member_def quoted_key)
  moreover have "sublist (member (''operationName'', v)) (commas (map member kvs))"
    using assms by (intro sublist_commas) force
  ultimately have "sublist (quoted ''operationName'') (commas (map member kvs))" by (rule sublist_order.order_trans)
  then have "sublist (quoted ''operationName'') (json_encode (JObj kvs))"
    using sublist_appendI [of "commas (map member kvs)" "''{''" "''}''"] unfolding encode_object
    by (rule sublist_order.order_trans)
  moreover have "dropWhile json_space (json_encode (JObj kvs)) = json_encode (JObj kvs)" "hd (json_encode (JObj kvs)) = CHR ''{''"
    "json_encode (JObj kvs) \<noteq> []"
    by (simp_all add: json_space_def char_code_def)
  ultimately show ?thesis by (simp only: looks_like_graphql_json_def Let_def contains_sublist) simp
qed

lemma operation_field_filter:
  "operation_field kvs name = operation_field (filter (\<lambda>(k, v). equal_fold k ''operationName'') kvs) name"
  by (induction kvs name rule: operation_field.induct) (auto split: json.split)

text \<open>
  C38.  When the window holds the whole document, the extracted name is the \<open>operationName\<close> the client encoded,
  for every well-formed document with one such member.
\<close>

theorem whole_document_name:
  assumes "json_ok (JObj kvs)" "json_depth (JObj kvs) \<le> max_depth"
    and "filter (\<lambda>(k, v). equal_fold k ''operationName'') kvs = [(''operationName'', JStr name)]"
  shows "operation_name_from_peek (json_encode (JObj kvs)) = name"
proof -
  have "(''operationName'', JStr name) \<in> set (filter (\<lambda>(k, v). equal_fold k ''operationName'') kvs)"
    unfolding assms(3) by simp
  then have l: "looks_like_graphql_json (json_encode (JObj kvs))" by (intro looks_like_encoded) auto
  have "operation_field kvs [] = operation_field [(''operationName'', JStr name)] []"
    by (subst operation_field_filter) (simp only: assms(3))
  then have "unmarshal_operation (json_encode (JObj kvs)) = Some name"
    by (simp add: unmarshal_operation_def json_roundtrip [OF assms(1,2)] del: json_encode.simps)
  then show ?thesis using l by (simp add: operation_name_from_peek_def del: json_encode.simps)
qed

definition me_document :: "(string \<times> json) list" where
  "me_document = [(''query'', JStr ''query Me { me }''), (''operationName'', JStr ''Me''),
     (''variables'', JObj [(''operationName'', JStr ''nested'')])]"

theorem whole_document_name_witness:
  "operation_name_from_peek (json_encode (JObj me_document)) = ''Me''"
proof -
  have "json_ok (JObj me_document)" by code_simp
  moreover have "json_depth (JObj me_document) \<le> max_depth" by (simp add: me_document_def max_depth_def)
  moreover have "filter (\<lambda>(k, v). equal_fold k ''operationName'') me_document = [(''operationName'', JStr ''Me'')]"
    by code_simp
  ultimately show ?thesis by (rule whole_document_name)
qed

text \<open>
  In a truncated window the first \<open>operationName\<close> in the bytes wins, wherever it stands: a member of
  \<open>variables\<close> sent first names the operation, although the whole document names another.
\<close>

definition nested_document :: string where
  "nested_document = json_encode (JObj [(''variables'', JObj [(''operationName'', JStr ''A'')]),
     (''operationName'', JStr ''B''), (''query'', JStr ''q'')])"

theorem truncated_window_takes_nested_name:
  "operation_name_from_peek nested_document = ''B''
   \<and> operation_name_from_peek (take 40 nested_document) = ''A''"
  by code_simp

subsection \<open>The body reaches the handler\<close>

text \<open>A body script that ends cleanly.\<close>

definition clean_script :: "world \<Rightarrow> bool" where
  "clean_script w \<longleftrightarrow> \<not> wd_body_nil w \<and> list_all (\<lambda>(c, e). e = None) (wd_reads w) \<and> wd_final w = EEOF"

definition body_work :: "world \<Rightarrow> nat" where
  "body_work w = length (body_rest w) + length (wd_reads w)"

lemma reads_shrink: "length (wd_reads (snd (net_step w (BRead n)))) \<le> length (wd_reads w)"
  by (simp add: net_read_def split: list.split)

lemma read_all_limited:
  assumes "clean_script w" "body_work w < fuel"
  shows "\<exists>w'. run net_step (read_all fuel (Some n) acc) w = ((acc @ take n (body_rest w), None), w')
     \<and> clean_script w' \<and> body_rest w' = drop n (body_rest w) \<and> body_work w' + min n (length (body_rest w)) \<le> body_work w"
  using assms
proof (induction fuel arbitrary: w acc n)
  case 0
  then show ?case by simp
next
  case (Suc fuel)
  show ?case
  proof (cases "n = 0")
    case True
    then show ?thesis using Suc.prems by (intro exI [of _ w]) simp
  next
    case n: False
    show ?thesis
    proof (cases "wd_reads w = []")
      case True
      then show ?thesis using Suc.prems n
        by (intro exI [of _ w]) (simp add: clean_script_def net_read_def body_rest_def min_def)
    next
      case False
      obtain bs w' where s: "net_step w (BRead (min 512 n)) = (RRead bs None, w')" "body_rest w = bs @ body_rest w'"
        "length bs \<le> min 512 n" "\<not> wd_body_nil w'" "list_all (\<lambda>(c, e). e = None) (wd_reads w')" "wd_final w' = wd_final w"
        "length (body_rest w') + length (wd_reads w') < length (body_rest w) + length (wd_reads w)"
        using net_read_script [of w "min 512 n"] Suc.prems(1) False n by (auto simp: clean_script_def)
      have c: "clean_script w'" "body_work w' < fuel"
        using s Suc.prems by (auto simp: clean_script_def body_work_def)
      from Suc.IH [OF c, of "n - length bs" "acc @ bs"] obtain w2 where
        w2: "run net_step (read_all fuel (Some (n - length bs)) (acc @ bs)) w' =
            (((acc @ bs) @ take (n - length bs) (body_rest w'), None), w2)" "clean_script w2"
          "body_rest w2 = drop (n - length bs) (body_rest w')"
          "body_work w2 + min (n - length bs) (length (body_rest w')) \<le> body_work w'" by blast
      have "take n (body_rest w) = bs @ take (n - length bs) (body_rest w')" using s(2,3) by simp
      moreover have "drop n (body_rest w) = drop (n - length bs) (body_rest w')" using s(2,3) by simp
      moreover have "body_work w2 + min n (length (body_rest w)) \<le> body_work w"
        using w2(4) s(2,3,7) reads_shrink [of w "min 512 n"] s(1) by (simp add: body_work_def)
      ultimately show ?thesis using w2 s(1) n by (intro exI [of _ w2]) simp
    qed
  qed
qed

lemma read_all_original:
  assumes "clean_script w" "body_work w < fuel" "s = Original \<or> s = Prefix []"
  shows "fst (fst (run net_step (lay prepend_closer (read_all fuel None acc) s) w)) = (acc @ body_rest w, None)"
  using assms
proof (induction fuel arbitrary: w acc s)
  case 0
  then show ?case by simp
next
  case (Suc fuel)
  have pc: "pc_read 512 s = Op (BRead 512) (\<lambda>r. case r of RRead bs (Some EEOF) \<Rightarrow> Ret (r, Ended) | _ \<Rightarrow> Ret (r, Original))"
    using Suc.prems(3) by (auto simp: pc_read_def)
  show ?case
  proof (cases "wd_reads w = []")
    case True
    then show ?thesis using Suc.prems by (simp add: pc clean_script_def net_read_def body_rest_def)
  next
    case False
    obtain bs w' where t: "net_step w (BRead 512) = (RRead bs None, w')" "body_rest w = bs @ body_rest w'"
      "\<not> wd_body_nil w'" "list_all (\<lambda>(c, e). e = None) (wd_reads w')" "wd_final w' = wd_final w"
      "length (body_rest w') + length (wd_reads w') < length (body_rest w) + length (wd_reads w)"
      using net_read_script [of w 512] Suc.prems(1) False by (auto simp: clean_script_def)
    have "clean_script w'" "body_work w' < fuel" using t Suc.prems by (auto simp: clean_script_def body_work_def)
    from Suc.IH [OF this, of Original "acc @ bs"] show ?thesis using t by (simp add: pc)
  qed
qed

lemma read_all_prefix:
  assumes "clean_script w" "length p + body_work w < fuel"
  shows "fst (fst (run net_step (lay prepend_closer (read_all fuel None acc) (Prefix p)) w)) = (acc @ p @ body_rest w, None)"
  using assms
proof (induction fuel arbitrary: p acc)
  case 0
  then show ?case by simp
next
  case (Suc fuel)
  show ?case
  proof (cases p)
    case Nil
    then show ?thesis using read_all_original [of w "Suc fuel" "Prefix []" acc] Suc.prems by simp
  next
    case (Cons c cs)
    have "fst (fst (run net_step (lay prepend_closer (read_all fuel None (acc @ take 512 p)) (Prefix (drop 512 p))) w)) =
        ((acc @ take 512 p) @ drop 512 p @ body_rest w, None)"
      using Suc.prems Cons by (intro Suc.IH) auto
    then show ?thesis using Cons by (simp add: pc_read_def)
  qed
qed

lemma read_all_buffer:
  assumes "length p < fuel"
  shows "fst (fst (run net_step (lay bytes_body (read_all fuel None acc) p) w)) = (acc @ p, None)"
  using assms
proof (induction fuel arbitrary: p acc)
  case 0
  then show ?case by simp
next
  case (Suc fuel)
  show ?case
  proof (cases "p = []")
    case True
    then show ?thesis by simp
  next
    case False
    then have "fst (fst (run net_step (lay bytes_body (read_all fuel None (acc @ take 512 p)) (drop 512 p)) w)) =
        ((acc @ take 512 p) @ drop 512 p, None)"
      using Suc.prems by (intro Suc.IH) (cases p; simp)
    then show ?thesis using False by simp
  qed
qed

text \<open>
  C39.  Whatever was inspected - nothing, a window, or the whole body - of a body that arrives without a read
  error, a handler that reads the body to its end gets every byte the client sent, in order.  The fuel is
  one read per chunk and byte, and one more.
\<close>

theorem inspected_body_is_restored:
  assumes clean: "clean_script w" and fuel: "body_work w < fuel"
    and run: "run net_step (extract_operation_name fuel r n full) w = ((name, b), w')"
  shows "fst (run net_step (with_body b (read_all fuel None [])) w') = (body_rest w, None)"
proof -
  have all: "run net_step (read_all fuel None acc) v = ((acc @ body_rest v, None), v\<lparr>wd_reads := []\<rparr>)"
    if "clean_script v" "body_work v < fuel" for v acc
    using that by (intro read_all_complete) (simp_all add: clean_script_def body_work_def)
  have same: ?thesis if "b = Same" "w' = w" using that all [OF clean fuel] by (simp add: with_body_def)
  let ?k = "if n \<le> 0 then default_peek_window else n"
  have k: "0 < ?k" by (simp add: default_peek_window_def)
  obtain w2 where w2: "run net_step (read_all fuel (Some (nat ?k)) []) w = ((take (nat ?k) (body_rest w), None), w2)"
    "clean_script w2" "body_rest w2 = drop (nat ?k) (body_rest w)"
    "body_work w2 + min (nat ?k) (length (body_rest w)) \<le> body_work w"
    using read_all_limited [OF clean fuel, of "nat ?k" "[]"] by auto
  have peeked: ?thesis if "b = Peeked (take (nat ?k) (body_rest w))" "w' = w2"
    using that read_all_prefix [of w2 "take (nat ?k) (body_rest w)" fuel "[]"] w2 fuel
    by (simp add: with_body_def run_bind case_prod_beta)
  have buffered: ?thesis if "b = Buffered (body_rest w)"
    using that read_all_buffer [of "body_rest w" fuel "[]" w'] fuel
    by (simp add: with_body_def run_bind case_prod_beta body_work_def)
  consider (same) "b = Same \<and> w' = w" | (peeked) "b = Peeked (take (nat ?k) (body_rest w)) \<and> w' = w2"
    | (buffered) "b = Buffered (body_rest w)"
    using run k all [OF clean fuel, of "[]"] w2(1)
    by (auto simp: extract_operation_name_def read_full_request_body_def peek_request_body_def run_bind Let_def
        split: if_splits)
  then show ?thesis using same peeked buffered by cases auto
qed

definition me_request :: request where
  "me_request = blank_request\<lparr>rq_method := ''POST'', rq_content_length := - 1,
     rq_header := hset Map.empty ''Content-Type'' ''application/json''\<rparr>"

lemma extract_json_post:
  "extract_operation_name fuel me_request n False =
     bindP (peek_request_body fuel me_request (if n \<le> 0 then default_peek_window else n)) (\<lambda>(buf, err, body).
       Ret (if err \<or> length buf = 0 then [] else operation_name_from_peek buf, body))"
proof -
  have "looks_like_graphql_content_type ''application/json''" by code_simp
  moreover have "hget (rq_header me_request) ''Content-Type'' = ''application/json''"
    by (simp add: me_request_def header_simps)
  moreover have "rq_method me_request = ''POST''" "rq_content_length me_request \<noteq> 0" by (simp_all add: me_request_def)
  ultimately show ?thesis by (simp add: extract_operation_name_def)
qed

lemma me_request_body: "\<not> rq_body_nil me_request"
  by (simp add: me_request_def blank_request_def)

theorem inspected_body_is_restored_witness:
  "\<exists>name b w'. run net_step (extract_operation_name 50 me_request 4 False) (fresh_world\<lparr>wd_reads := [(''{ab'', None), (''cd}'', None)]\<rparr>)
       = ((name, b), w') \<and> b = Peeked ''{abc''
     \<and> fst (run net_step (with_body b (read_all 50 None [])) w') = (''{abcd}'', None)"
proof -
  let ?w = "fresh_world\<lparr>wd_reads := [(''{ab'', None), (''cd}'', None)]\<rparr>"
  have c: "clean_script ?w" "body_work ?w < 50" "body_rest ?w = ''{abcd}''"
    by (simp_all add: clean_script_def body_work_def body_rest_def fresh_world_def)
  have b: "snd (fst (run net_step (extract_operation_name 50 me_request 4 False) ?w)) = Peeked ''{abc''"
    unfolding extract_json_post peek_request_body_def
    using read_all_limited [OF c(1,2), of 4 "[]"] c(3) by (auto simp: run_bind me_request_body)
  obtain name b w' where run: "run net_step (extract_operation_name 50 me_request 4 False) ?w = ((name, b), w')"
    by (metis surj_pair)
  show ?thesis using inspected_body_is_restored [OF c(1,2) run] run b c(3) by auto
qed

text \<open>
  When the read of the window fails, what it had already taken from the body is lost, although the comment
  promises it back: the handler sees the error without the bytes that came before it.
\<close>

theorem peek_error_loses_prefix:
  "let w = fresh_world\<lparr>wd_reads := [(''{abc'', None), ([], Some (EMaxBytes 4))], wd_final := EMaxBytes 4\<rparr>
   in fst (run net_step (read_all (Suc (Suc k)) None []) w) = (''{abc'', Some (EMaxBytes 4))
      \<and> fst (run net_step (bindP (extract_operation_name (Suc (Suc k)) me_request 8192 False)
               (\<lambda>(name, b). with_body b (read_all (Suc (Suc k)) None []))) w) = ([], Some (EMaxBytes 4))"
  unfolding extract_json_post
  by (simp add: peek_request_body_def run_bind net_read_def fresh_world_def with_body_def Let_def me_request_def
      blank_request_def)

definition respond_ok :: handler where
  "respond_ok = (\<lambda>r. Op (WHeader 200) (\<lambda>_. Ret (Returned, r)))"

definition me_only :: gql_config where
  "me_only = only_operations [''Me''] new_gql_config"

theorem gql_labels_bounded_witness:
  "op_keys (snd (run net_step (gql_metrics_handler 50 True me_only respond_ok blank_request) fresh_world))
     \<subseteq> {peek_key ''Me'', peek_key ''other''}"
proof -
  have c: "\<not> gq_track_all me_only" "set (gq_allowed me_only) = {''Me''}"
    by (simp_all add: me_only_def only_operations_def new_gql_config_def)
  have n: "[] \<notin> set (gq_allowed me_only)" by (simp add: c)
  have q: "ops_ok (peek_label_op {}) (respond_ok blank_request)" by (simp add: respond_ok_def)
  have f: "op_keys fresh_world = {}"
    by (simp add: op_keys_def fresh_world_def new_meters_def new_request_meter_def)
  have e: "peek_key ` (set (gq_allowed me_only) \<union> {''other''}) \<union> op_keys fresh_world = {peek_key ''Me'', peek_key ''other''}"
    unfolding c(2) f by blast
  show ?thesis using gql_labels_bounded [of me_only respond_ok blank_request 50 True fresh_world, OF c(1) n q] unfolding e .
qed

end
