(* ===== verification/Seconds.thy ===== *)
theory Seconds imports Complex_Main Prelude begin

text \<open>
  The seconds of a configuration: a Go \<open>float64\<close>, its product with \<open>float64(time.Second)\<close> and the
  conversion of the product to \<open>time.Duration\<close>, as \<^verbatim>\<open>config.go\<close> uses them.

  A finite number is \<open>m * 2^e\<close> with a 53-bit significand (the sign of zero plays no part here).  The
  product is rounded to the nearest, ties to even.  Converting a value that no int64 holds is left to the
  implementation by the language: that result is a parameter, named \<open>cv\<close> below.
\<close>

subsection \<open>The numbers\<close>

datatype f64 = NaN | Inf bool | Fin int int

definition f64_ok :: "f64 \<Rightarrow> bool" where
  "f64_ok v = (case v of Fin m e \<Rightarrow> \<bar>m\<bar> < 2 ^ 53 \<and> - 1074 \<le> e \<and> e \<le> 971 | _ \<Rightarrow> True)"

text \<open>\<open>m * 2^e > m' * 2^e'\<close>, with the exponents aligned.\<close>

definition fin_greater :: "int \<Rightarrow> int \<Rightarrow> int \<Rightarrow> int \<Rightarrow> bool" where
  "fin_greater m e m' e' \<longleftrightarrow> m * 2 ^ nat (e - min e e') > m' * 2 ^ nat (e' - min e e')"

fun f64_greater :: "f64 \<Rightarrow> f64 \<Rightarrow> bool" where
  "f64_greater (Fin m e) (Fin m' e') = fin_greater m e m' e'"
| "f64_greater (Inf neg) (Fin m' e') = (\<not> neg)"
| "f64_greater (Fin m e) (Inf neg) = neg"
| "f64_greater (Inf neg) (Inf neg') = (\<not> neg \<and> neg')"
| "f64_greater _ _ = False"

definition f64_negative :: "f64 \<Rightarrow> bool" where
  "f64_negative v = (case v of Fin m e \<Rightarrow> m < 0 | Inf neg \<Rightarrow> neg | NaN \<Rightarrow> False)"

definition f64_zero :: "f64 \<Rightarrow> bool" where
  "f64_zero v = (case v of Fin m e \<Rightarrow> m = 0 | _ \<Rightarrow> False)"

subsection \<open>Rounding\<close>

fun bit_len :: "nat \<Rightarrow> nat" where
  "bit_len n = (if n = 0 then 0 else Suc (bit_len (n div 2)))"

declare bit_len.simps [simp del]

text \<open>\<open>n / 2^k\<close> to the nearest integer, ties to even.\<close>

definition round_shift :: "nat \<Rightarrow> nat \<Rightarrow> nat" where
  "round_shift n k =
     (let q = n div 2 ^ k; r = n mod 2 ^ k
      in if 2 * r > 2 ^ k \<or> (2 * r = 2 ^ k \<and> odd q) then q + 1 else q)"

definition significand :: "nat \<Rightarrow> nat \<times> nat" where
  "significand n = (let k = bit_len n - 53 in (round_shift n k, k))"

text \<open>The largest finite value is \<open>(2^53 - 1) * 2^971\<close>.\<close>

definition f64_times_second :: "f64 \<Rightarrow> f64" where
  "f64_times_second v =
     (case v of
        Fin m e \<Rightarrow>
          (let (q, k) = significand (nat \<bar>m\<bar> * 1000000000)
           in if e + int k > 971 \<or> (e + int k = 971 \<and> q = 2 ^ 53) then Inf (m < 0)
              else Fin (sgn m * int q) (e + int k))
      | _ \<Rightarrow> v)"

definition truncate_fin :: "int \<Rightarrow> int \<Rightarrow> int" where
  "truncate_fin m e = (if e \<ge> 0 then m * 2 ^ nat e else sgn m * (\<bar>m\<bar> div 2 ^ nat (- e)))"

definition f64_to_int64 :: "(f64 \<Rightarrow> duration) \<Rightarrow> f64 \<Rightarrow> duration" where
  "f64_to_int64 cv v =
     (case v of
        Fin m e \<Rightarrow>
          (let t = truncate_fin m e in if - (2 ^ 63) \<le> t \<and> t < 2 ^ 63 then word_of_int t else cv v)
      | _ \<Rightarrow> cv v)"

definition seconds_to_duration :: "(f64 \<Rightarrow> duration) \<Rightarrow> f64 \<Rightarrow> duration" where
  "seconds_to_duration cv v = f64_to_int64 cv (f64_times_second v)"

text \<open>\<open>float64((1<<63-1)) / float64(time.Second)\<close>, a constant of the code: the double nearest to
  \<open>2^63 / 10^9\<close>.\<close>

definition seconds_limit :: f64 where
  "seconds_limit = Fin 4835703278458517 (- 19)"

subsection \<open>Validation\<close>

datatype config_error =
    NotFinite string bool            \<comment> \<open>positive or only non-negative was asked for\<close>
  | TooLarge string
  | BadMaxHeader
  | UnknownPolicy string

definition validate_seconds :: "string \<Rightarrow> f64 \<Rightarrow> bool \<Rightarrow> config_error option" where
  "validate_seconds name v positive =
     (if v = NaN \<or> v = Inf True \<or> v = Inf False \<or> f64_negative v \<or> (positive \<and> f64_zero v)
      then Some (NotFinite name positive)
      else if f64_greater v seconds_limit then Some (TooLarge name)
      else None)"

subsection \<open>Lemmas\<close>

lemma bit_len_0 [simp]: "bit_len 0 = 0"
  by (simp add: bit_len.simps)

lemma bit_len_pos: "0 < n \<Longrightarrow> bit_len n = Suc (bit_len (n div 2))"
  by (simp add: bit_len.simps [of n])

lemma bit_len_bound: "n < 2 ^ bit_len n"
proof (induction n rule: bit_len.induct)
  case (1 n)
  show ?case
  proof (cases "n = 0")
    case False
    with 1 have "n div 2 < 2 ^ bit_len (n div 2)" by simp
    then have "n < 2 * 2 ^ bit_len (n div 2)" by (simp add: div_less_iff_less_mult)
    with False show ?thesis by (simp add: bit_len_pos)
  qed simp
qed

lemma bit_len_lower: "0 < n \<Longrightarrow> 2 ^ bit_len n \<le> 2 * n"
proof (induction n rule: bit_len.induct)
  case (1 n)
  show ?case
  proof (cases "n div 2 = 0")
    case True
    then have "n = 1" using 1(2) by (simp add: div_eq_0_iff)
    then show ?thesis by (simp add: bit_len_pos)
  next
    case False
    with 1 have "2 ^ bit_len (n div 2) \<le> 2 * (n div 2)" by simp
    then have "2 ^ Suc (bit_len (n div 2)) \<le> 2 * n" by simp
    then show ?thesis unfolding bit_len_pos [OF 1(2)] .
  qed
qed

lemma bit_len_less: "n < 2 ^ k \<Longrightarrow> bit_len n \<le> k"
proof (cases "n = 0")
  case True
  then show ?thesis by simp
next
  case False
  assume "n < 2 ^ k"
  then have "2 * n < 2 ^ Suc k" by simp
  then have "(2::nat) ^ bit_len n < 2 ^ Suc k" using bit_len_lower [of n] False by simp
  then have "bit_len n < Suc k" by (rule power_less_imp_less_exp [rotated]) simp
  then show ?thesis by simp
qed

lemma bit_len_eq:
  assumes "2 ^ k \<le> n" "n < 2 ^ Suc k"
  shows "bit_len n = Suc k"
proof (rule antisym)
  show "bit_len n \<le> Suc k" using assms(2) by (rule bit_len_less)
  have "(2::nat) ^ k < 2 ^ bit_len n" using assms(1) bit_len_bound [of n] by (rule order.strict_trans1)
  then have "k < bit_len n" by (rule power_less_imp_less_exp [rotated]) simp
  then show "Suc k \<le> bit_len n" by simp
qed

lemma round_shift_0 [simp]: "round_shift n 0 = n"
  by (simp add: round_shift_def)

text \<open>Rounding adds at most half a unit.\<close>

lemma round_shift_upper: "2 * round_shift n k * 2 ^ k \<le> 2 * n + 2 ^ k"
proof -
  let ?q = "n div 2 ^ k" and ?r = "n mod 2 ^ k"
  have n: "n = ?q * 2 ^ k + ?r" by (rule div_mult_mod_eq [symmetric])
  show ?thesis
  proof (cases "2 * ?r > 2 ^ k \<or> (2 * ?r = 2 ^ k \<and> odd ?q)")
    case True
    then have "2 ^ k \<le> 2 * ?r" by linarith
    moreover have "2 * round_shift n k * 2 ^ k = 2 * (?q * 2 ^ k) + 2 * 2 ^ k"
      using True by (simp add: round_shift_def Let_def algebra_simps)
    ultimately show ?thesis using n by linarith
  next
    case False
    then have "2 * round_shift n k * 2 ^ k = 2 * (?q * 2 ^ k)" by (simp add: round_shift_def Let_def)
    then show ?thesis using n by linarith
  qed
qed

lemma significand_zero:
  assumes "significand n = (0, k)"
  shows "k = 0"
proof (rule ccontr)
  assume "k \<noteq> 0"
  then have k: "bit_len n = k + 53" and q: "n div 2 ^ k = 0"
    using assms by (auto simp: significand_def Let_def round_shift_def split: if_splits)
  then have "0 < n" by (cases n) auto
  then have "2 ^ (k + 53) \<le> 2 * n" using bit_len_lower [of n] k by simp
  then have "2 ^ k \<le> n" by (simp add: power_add)
  with q show False by (simp add: div_eq_0_iff)
qed


subsection \<open>A validated number of seconds is a duration\<close>

definition f64_real :: "int \<Rightarrow> int \<Rightarrow> real" where
  "f64_real m e = real_of_int m * 2 powi e"

lemma truncate_below:
  assumes "0 \<le> m"
  shows "0 \<le> truncate_fin m e \<and> real_of_int (truncate_fin m e) \<le> f64_real m e"
proof (cases "0 \<le> e")
  case True
  then show ?thesis using assms by (simp add: truncate_fin_def f64_real_def power_int_def)
next
  case False
  let ?n = "nat (- e)"
  have s: "truncate_fin m e = m div 2 ^ ?n"
    using False assms by (cases "m = 0") (simp_all add: truncate_fin_def)
  have "(m div 2 ^ ?n) * 2 ^ ?n \<le> m" 
    by (simp add: minus_mod_eq_div_mult [symmetric])
  then have "real_of_int ((m div 2 ^ ?n) * 2 ^ ?n) \<le> real_of_int m" by (rule of_int_le_iff [THEN iffD2])
  then have "real_of_int (m div 2 ^ ?n) \<le> real_of_int m / 2 ^ ?n" by (simp add: field_simps)
  moreover have "f64_real m e = real_of_int m / 2 ^ ?n"
    using False by (simp add: f64_real_def power_int_def field_simps)
  ultimately show ?thesis using s assms by (simp add: pos_imp_zdiv_nonneg_iff)
qed

lemma significand_close:
  assumes "significand n = (q, k)"
  shows "real q * 2 ^ k \<le> real n * (1 + 1 / 2 ^ 53)"
proof (cases "k = 0")
  case True
  then show ?thesis using assms by (auto simp: significand_def Let_def)
next
  case False
  then have k: "bit_len n = k + 53" and q: "q = round_shift n k" using assms by (auto simp: significand_def Let_def)
  then have "n \<noteq> 0" by (cases n) auto
  then have "2 ^ (k + 53) \<le> 2 * n" using bit_len_lower [of n] k by simp
  then have "(2::real) ^ (k + 53) \<le> 2 * real n" by (metis numeral_power_le_of_nat_cancel_iff of_nat_mult of_nat_numeral)
  then have half: "(2::real) ^ k / 2 \<le> real n / 2 ^ 53" by (simp add: power_add field_simps)
  have "real (2 * q * 2 ^ k) \<le> real (2 * n + 2 ^ k)" unfolding q using round_shift_upper by (rule of_nat_mono)
  then have "real q * 2 ^ k \<le> real n + 2 ^ k / 2" by simp
  with half show ?thesis by (simp add: field_simps)
qed

lemma below_limit:
  assumes "f64_greater seconds_limit (Fin m e)" "\<bar>m\<bar> < 2 ^ 53"
  shows "f64_real m e \<le> 4835703278458516 / 2 ^ 19"
proof (cases "- 19 \<le> e")
  case True
  then have "min (- 19) e = - 19" by simp
  then have "m * 2 ^ nat (e + 19) < 4835703278458517"
    using assms(1) by (simp add: seconds_limit_def fin_greater_def)
  then have "real_of_int (m * 2 ^ nat (e + 19)) \<le> 4835703278458516" by linarith
  moreover have "(2::real) powi e = 2 ^ nat (e + 19) / 2 ^ 19"
  proof -
    have "(2::real) powi e = 2 powi ((e + 19) - 19)" by simp
    also have "\<dots> = 2 powi (e + 19) / 2 powi 19" by (rule power_int_diff) simp
    finally show ?thesis using True by (simp add: power_int_def)
  qed
  ultimately have "f64_real m e = real_of_int (m * 2 ^ nat (e + 19)) / 2 ^ 19"
      and "real_of_int (m * 2 ^ nat (e + 19)) \<le> 4835703278458516" by (simp_all add: f64_real_def)
  then show ?thesis by (simp only: divide_right_mono) simp
next
  case False
  have "(2::real) powi e \<le> 2 powi (- 20)" using False by (intro power_int_increasing) auto
  then have p: "(2::real) powi e \<le> 1 / 2 ^ 20" by (simp add: power_int_minus field_simps)
  have "m \<le> 9007199254740992" using assms(2) by simp
  then have m: "real_of_int m \<le> 9007199254740992" by linarith
  have "f64_real m e \<le> 9007199254740992 * (1 / 2 ^ 20)"
    unfolding f64_real_def by (rule mult_mono [OF m p]) simp_all
  then show ?thesis by simp
qed

text \<open>The rounded product of a number below the limit: below \<open>2^63\<close>, so its exponent is small.\<close>

lemma product_below:
  assumes qk: "significand (nat \<bar>m\<bar> * 1000000000) = (q, k)" and m: "0 \<le> m"
    and x: "f64_real m e \<le> 4835703278458516 / 2 ^ 19"
  shows "real q * 2 powi (e + int k) < 2 ^ 63"
proof -
  have "real q * 2 ^ k \<le> real (nat \<bar>m\<bar> * 1000000000) * (1 + 1 / 2 ^ 53)" using qk by (rule significand_close)
  then have "real q * 2 ^ k \<le> real_of_int m * 1000000000 * (1 + 1 / 2 ^ 53)" using m by simp
  then have "real q * 2 ^ k * 2 powi e \<le> real_of_int m * 1000000000 * (1 + 1 / 2 ^ 53) * 2 powi e"
    by (rule mult_right_mono) simp
  also have "\<dots> = f64_real m e * (1000000000 * (1 + 1 / 2 ^ 53))" by (simp add: f64_real_def)
  also have "\<dots> \<le> 4835703278458516 / 2 ^ 19 * (1000000000 * (1 + 1 / 2 ^ 53))"
    using x by (rule mult_right_mono) simp
  also have "\<dots> < 2 ^ 63" by simp
  finally have "real q * 2 ^ k * 2 powi e < 2 ^ 63" .
  moreover have "real q * 2 ^ k * 2 powi e = real q * 2 powi (e + int k)" by (simp add: power_int_add)
  ultimately show ?thesis by simp
qed

lemma product_finite:
  assumes qk: "significand (nat \<bar>m\<bar> * 1000000000) = (q, k)" and e: "e \<le> 971"
    and y: "real q * 2 powi (e + int k) < 2 ^ 63"
  shows "\<not> (e + int k > 971 \<or> (e + int k = 971 \<and> q = 2 ^ 53))"
proof (cases "q = 0")
  case True
  then show ?thesis using qk e significand_zero [of _ k] by auto
next
  case False
  have "(e + int k) < 63"
  proof (rule ccontr)
    assume "\<not> (e + int k) < 63"
    then have "(2::real) powi 63 \<le> 2 powi (e + int k)" by (intro power_int_increasing) auto
    then have "(2::real) ^ 63 \<le> 2 powi (e + int k)" by simp
    moreover have "(2::real) powi (e + int k) \<le> real q * 2 powi (e + int k)"
      using mult_right_mono [of 1 "real q" "2 powi (e + int k)"] False by simp
    ultimately show False using y by linarith
  qed
  then show ?thesis by simp
qed

text \<open>A product of at most 53 significant bits is not rounded, and an integer is not truncated.\<close>

lemma significand_fits:
  assumes "significand n = (q, k)" "n = c * 2 ^ j" "c < 2 ^ 53"
  shows "q * 2 ^ k = n"
proof -
  have "n < 2 ^ (53 + j)" using assms(2,3) by (simp add: power_add)
  then have "bit_len n \<le> 53 + j" by (rule bit_len_less)
  moreover have k: "k = bit_len n - 53" and q: "q = round_shift n k" using assms(1) by (auto simp: significand_def Let_def)
  ultimately have "(2::nat) ^ k dvd 2 ^ j" by (intro le_imp_power_dvd) simp
  then have "2 ^ k dvd n" using assms(2) by simp
  then show ?thesis by (simp add: q round_shift_def)
qed

lemma truncate_whole:
  assumes "f64_real m e = real_of_int t"
  shows "truncate_fin m e = t"
proof (cases "0 \<le> e")
  case True
  then have "real_of_int (m * 2 ^ nat e) = real_of_int t" using assms by (simp add: f64_real_def power_int_def)
  then have "m * 2 ^ nat e = t" by (simp only: of_int_eq_iff)
  with True show ?thesis by (simp add: truncate_fin_def)
next
  case False
  have "real_of_int m / 2 ^ nat (- e) = real_of_int t"
    using False assms by (simp add: f64_real_def power_int_def field_simps)
  then have "real_of_int m = real_of_int (t * 2 ^ nat (- e))" by (simp add: field_simps)
  then have m: "m = t * 2 ^ nat (- e)" by (simp only: of_int_eq_iff)
  show ?thesis using False
    by (simp add: truncate_fin_def m abs_mult sgn_mult sgn_mult_abs)
qed

text \<open>Fewer than \<open>2^53 / 5^9\<close> whole seconds have such a product.\<close>

lemma whole_product:
  assumes qk: "significand (nat \<bar>m\<bar> * 1000000000) = (q, k)" and m: "0 \<le> m"
    and v: "f64_real m e = real n" and n: "n * 1953125 < 2 ^ 53"
  shows "f64_real (sgn m * int q) (e + int k) = real_of_int (int n * 1000000000)"
proof -
  let ?p = "nat \<bar>m\<bar> * 1000000000"
  have val: "real ?p * 2 powi e = real (n * 1953125) * 2 powi 9"
    using v m by (simp add: f64_real_def)
  have "q * 2 ^ k = ?p"
  proof (cases "e \<le> 9")
    case True
    have "real ?p * 2 powi e = real (n * 1953125 * 2 ^ nat (9 - e)) * 2 powi e"
    proof -
      have "(2::real) powi 9 = 2 powi (9 - e) * 2 powi e" by (simp add: power_int_add [symmetric])
      moreover have "(2::real) powi (9 - e) = 2 ^ nat (9 - e)" using True by (simp add: power_int_def)
      ultimately show ?thesis unfolding val by simp
    qed
    then have "real ?p = real (n * 1953125 * 2 ^ nat (9 - e))" by simp
    then have "?p = n * 1953125 * 2 ^ nat (9 - e)" by (simp only: of_nat_eq_iff)
    then show ?thesis using n by (rule significand_fits [OF qk])
  next
    case False
    then have "(2::real) powi 9 \<le> 2 powi e" by (intro power_int_increasing) auto
    then have "real ?p * 2 powi 9 \<le> real ?p * 2 powi e" by (rule mult_left_mono) simp
    then have "real ?p \<le> real (n * 1953125)" unfolding val by simp
    then have "?p < 2 ^ 53" using n by linarith
    then show ?thesis by (intro significand_fits [OF qk, of ?p 0]) simp_all
  qed
  then have "real q * 2 ^ k = real ?p" by (metis of_nat_mult of_nat_numeral of_nat_power)
  then have "real q * 2 powi (e + int k) = real ?p * 2 powi e" by (simp add: power_int_add)
  also have "\<dots> = real n * 1000000000" unfolding val by simp
  finally have "real q * 2 powi (e + int k) = real n * 1000000000" .
  moreover have "n = 0" if "m = 0" using v that by (simp add: f64_real_def)
  ultimately show ?thesis using m by (cases "m = 0") (simp_all add: f64_real_def sgn_if)
qed

text \<open>
  C24.  A number of seconds that \<open>validateSeconds\<close> accepts, and that is below the limit it compares with,
  becomes a duration that is not negative and is the truncated product, whatever the implementation makes
  of values out of range.  A whole number of seconds below \<open>2^53 / 5^9\<close> (4611686018, about 146 years) is converted
  exactly; from there to the limit (about 292 years) the product can be rounded.
\<close>

theorem validated_seconds:
  assumes "f64_ok v" "validate_seconds name v positive = None" "f64_greater seconds_limit v"
  shows "(\<exists>m e. f64_times_second v = Fin m e \<and> sint (seconds_to_duration cv v) = truncate_fin m e)
    \<and> 0 \<le> sint (seconds_to_duration cv v)
    \<and> (\<forall>m e n. v = Fin m e \<and> f64_real m e = real n \<and> n * 1953125 < 2 ^ 53
          \<longrightarrow> sint (seconds_to_duration cv v) = int n * 1000000000)"
proof -
  obtain m e where v: "v = Fin m e" and m: "0 \<le> m" "m < 2 ^ 53" and e: "e \<le> 971"
    using assms(1,2) by (cases v) (auto simp: validate_seconds_def f64_ok_def f64_negative_def split: if_splits)
  obtain q k where qk: "significand (nat \<bar>m\<bar> * 1000000000) = (q, k)" by fastforce
  let ?e = "e + int k" and ?m = "sgn m * int q"
  have x: "f64_real m e \<le> 4835703278458516 / 2 ^ 19" using assms(3) m v by (intro below_limit) auto
  note y = product_below [OF qk m(1) x]
  have le: "f64_real ?m ?e \<le> real q * 2 powi ?e"
    using m by (cases "m = 0") (simp_all add: f64_real_def sgn_if)
  have m': "0 \<le> ?m" using m by (simp add: sgn_if)
  note t = truncate_below [OF m', of ?e]
  have lt: "truncate_fin ?m ?e < 2 ^ 63" 
  proof -
    have "real_of_int (truncate_fin ?m ?e) < 2 ^ 63" using t le y by (meson order.strict_trans1 order_trans)
    then show ?thesis by (simp only: of_int_less_iff [symmetric, where 'a = real]) simp
  qed
  note inf = product_finite [OF qk e y]
  have p: "f64_times_second v = Fin ?m ?e" using v qk inf by (simp add: f64_times_second_def)
  have d: "seconds_to_duration cv v = word_of_int (truncate_fin ?m ?e)"
    using lt t by (simp add: seconds_to_duration_def f64_to_int64_def p)
  have s: "sint (seconds_to_duration cv v) = truncate_fin ?m ?e"
    unfolding d using lt t by (simp add: sint_sbintrunc' signed_take_bit_int_eq_self)
  have exact: "sint (seconds_to_duration cv v) = int n * 1000000000"
    if "v = Fin m' e'" "f64_real m' e' = real n" "n * 1953125 < 2 ^ 53" for m' e' n
  proof -
    have "f64_real m e = real n" using that(1,2) v by simp
    then show ?thesis unfolding s by (intro truncate_whole whole_product [OF qk m(1) _ that(3)])
  qed
  show ?thesis using p s t exact by auto
qed

lemma validated_seconds_witness:
  "sint (seconds_to_duration (\<lambda>_. 0) (Fin 10 0)) = 10000000000
   \<and> sint (seconds_to_duration (\<lambda>_. 0) (Fin 4611686018 0)) = 4611686018000000000
   \<and> 0 \<le> sint (seconds_to_duration (\<lambda>_. 0) (Fin 3 (- 1)))"
proof -
  have a: "f64_ok (Fin 10 0)" "validate_seconds ''read_timeout_sec'' (Fin 10 0) True = None" "f64_greater seconds_limit (Fin 10 0)"
    "f64_ok (Fin 3 (- 1))" "validate_seconds ''read_timeout_sec'' (Fin 3 (- 1)) True = None" "f64_greater seconds_limit (Fin 3 (- 1))"
    "f64_ok (Fin 4611686018 0)" "validate_seconds ''read_timeout_sec'' (Fin 4611686018 0) True = None"
    "f64_greater seconds_limit (Fin 4611686018 0)"
    by code_simp+
  have "f64_real 10 0 = real 10" "(10::nat) * 1953125 < 2 ^ 53" "f64_real 4611686018 0 = real 4611686018"
    "(4611686018::nat) * 1953125 < 2 ^ 53" by (simp_all add: f64_real_def)
  then show ?thesis
    using validated_seconds [OF a(1-3), of "\<lambda>_. 0"] validated_seconds [OF a(4-6), of "\<lambda>_. 0"]
      validated_seconds [OF a(7-9), of "\<lambda>_. 0"] by fastforce
qed

text \<open>
  The limit itself is accepted, but its product with a second is \<open>2^63\<close>: out of range, so the
  duration is whatever the implementation makes of it (on amd64 the smallest int64, a negative timeout).
\<close>

lemma seconds_limit_overflows:
  "validate_seconds ''idle_timeout_sec'' seconds_limit True = None
   \<and> seconds_to_duration cv seconds_limit = cv (Fin 4503599627370496 11)"
proof -
  have l: "bit_len 4835703278458517000000000 = 83"
    proof -
    have "bit_len 4835703278458517000000000 = Suc 82" by (rule bit_len_eq) simp_all
    then show ?thesis by simp
  qed
  have "significand 4835703278458517000000000 = (4503599627370496, 30)"
    by (simp add: significand_def l round_shift_def)
  then have "f64_times_second seconds_limit = Fin 4503599627370496 11"
    by (simp add: f64_times_second_def seconds_limit_def)
  moreover have "validate_seconds ''idle_timeout_sec'' seconds_limit True = None"
    by (simp add: validate_seconds_def seconds_limit_def f64_negative_def f64_zero_def fin_greater_def)
  ultimately show ?thesis by (simp add: seconds_to_duration_def f64_to_int64_def truncate_fin_def)
qed

end
