(* ===== verification/Server.thy ===== *)
theory Server imports Bind Meter Seconds begin

text \<open>
  The data and the locked operations of \<^verbatim>\<open>server.go\<close>: configuration values, construction options, the
  server itself, \<open>New\<close>, \<open>Init\<close>, \<open>SetHandler\<close>, \<open>Addr\<close>, \<open>Health\<close>, \<open>Shutdown\<close>, and the
  methods that read them.  Each operation is the whole critical section of its method, on the server record.

  The framework that \<open>Init\<close> is given is the record \<open>framework\<close>: whether a logs component is registered,
  the configuration component as a lookup, and the list of components.  A handler, a logger and a run are
  numbers; the fields of the server that hold a pointer are options.
\<close>

subsection \<open>Configuration values\<close>

definition component_name :: string where "component_name = ''http''"
definition component_stage :: string where "component_stage = ''app''"

definition restart_policy_handled :: string where "restart_policy_handled = ''handled''"
definition restart_policy_immediate :: string where "restart_policy_immediate = ''immediate''"

record server_config =
  cf_bind :: bind
  cf_read_timeout_sec :: "f64 option"
  cf_write_timeout_sec :: "f64 option"
  cf_idle_timeout_sec :: "f64 option"
  cf_read_header_timeout_sec :: "f64 option"
  cf_max_header_bytes :: "int option"
  cf_shutdown_timeout_sec :: "f64 option"
  cf_metrics_enabled :: "bool option"
  cf_restart_policy :: string

datatype format = FormatUnset | FormatJSON | FormatYAML

datatype logger_ref = SlogDefault | LoggerRef nat

text \<open>The framework, as far as the server uses it: what \<open>Get\<close> finds and what \<open>Components\<close> lists.  A
  component is its name and, when it is a health provider, its number.\<close>

record framework =
  fw_logs :: bool
  fw_configuration :: "(string \<Rightarrow> server_config option) option"
  fw_components :: "(string \<times> nat option) option list"

datatype ctx_err = Canceled | DeadlineExceeded

datatype server_error =
    ErrCtx ctx_err
  | ErrText string
  | ErrUnknownPolicy string
  | ErrSourceMissing string
  | ErrListen string string          \<comment> \<open>the address and the cause\<close>
  | ErrServe string
  | ErrServerRestartRequired

subsection \<open>Options and the server\<close>

record options =
  op_loaded :: "server_config option"
  op_config_source :: string
  op_config_path :: string
  op_env_prefix :: string
  op_format :: format
  op_format_set :: bool
  op_binds :: "string list"
  op_read_timeout :: duration
  op_write_timeout :: duration
  op_idle_timeout :: duration
  op_read_header_timeout :: duration
  op_max_header_bytes :: int
  op_shutdown_timeout :: duration
  op_wait_for_health :: duration
  op_metrics_enabled :: bool
  op_restart_policy :: string
  op_logger :: "logger_ref option"
  op_logger_set :: bool
  op_name :: string

type_synonym option_fun = "options \<Rightarrow> options"

definition with_config :: "server_config \<Rightarrow> option_fun" where
  "with_config cfg o0 = o0\<lparr>op_loaded := Some cfg\<rparr>"

definition with_bind :: "string list \<Rightarrow> option_fun" where
  "with_bind addrs o0 = o0\<lparr>op_binds := addrs\<rparr>"

definition with_read_timeout :: "duration \<Rightarrow> option_fun" where
  "with_read_timeout d o0 = o0\<lparr>op_read_timeout := d\<rparr>"

definition with_write_timeout :: "duration \<Rightarrow> option_fun" where
  "with_write_timeout d o0 = o0\<lparr>op_write_timeout := d\<rparr>"

definition with_idle_timeout :: "duration \<Rightarrow> option_fun" where
  "with_idle_timeout d o0 = o0\<lparr>op_idle_timeout := d\<rparr>"

definition with_read_header_timeout :: "duration \<Rightarrow> option_fun" where
  "with_read_header_timeout d o0 = o0\<lparr>op_read_header_timeout := d\<rparr>"

definition with_max_header_bytes :: "int \<Rightarrow> option_fun" where
  "with_max_header_bytes n o0 = o0\<lparr>op_max_header_bytes := n\<rparr>"

definition with_shutdown_timeout :: "duration \<Rightarrow> option_fun" where
  "with_shutdown_timeout d o0 = o0\<lparr>op_shutdown_timeout := d\<rparr>"

definition with_wait_for_health :: "duration \<Rightarrow> option_fun" where
  "with_wait_for_health d o0 = o0\<lparr>op_wait_for_health := d\<rparr>"

definition with_metrics_enabled :: "bool \<Rightarrow> option_fun" where
  "with_metrics_enabled b o0 = o0\<lparr>op_metrics_enabled := b\<rparr>"

definition with_restart_policy :: "string \<Rightarrow> option_fun" where
  "with_restart_policy p o0 = o0\<lparr>op_restart_policy := p\<rparr>"

definition with_logger :: "logger_ref option \<Rightarrow> option_fun" where
  "with_logger l o0 = o0\<lparr>op_logger := l, op_logger_set := True\<rparr>"

definition with_name :: "string \<Rightarrow> option_fun" where
  "with_name n o0 = o0\<lparr>op_name := n\<rparr>"

record server =
  sv_config_source :: string
  sv_config_path :: string
  sv_env_prefix :: string
  sv_format :: format
  sv_format_set :: bool
  sv_binds :: "string list"
  sv_read_timeout :: duration
  sv_write_timeout :: duration
  sv_idle_timeout :: duration
  sv_read_header_timeout :: duration
  sv_max_header_bytes :: int
  sv_shutdown_timeout :: duration
  sv_wait_for_health :: duration
  sv_metrics_enabled :: bool
  sv_restart_policy :: string
  sv_restart_required :: bool
  sv_restart_requested :: bool
  sv_run_cancel :: "nat option"
  sv_initialized :: bool
  sv_running :: bool
  sv_listening :: bool
  sv_bound_address :: string
  sv_logger_set :: bool
  sv_logger :: "logger_ref option"
  sv_logs_sub :: bool
  sv_handler :: "nat option"
  sv_fw :: "framework option"
  sv_name :: string
  sv_meters :: meters
  sv_reloads :: uint64
  sv_starts :: uint64
  sv_drain_timeouts :: uint64
  sv_hijacks :: uint64
  sv_connections :: "64 word"

definition seconds :: "nat \<Rightarrow> duration" where
  "seconds n = of_nat n * 1000000000"

definition default_options :: options where
  "default_options =
     \<lparr>op_loaded = None, op_config_source = [], op_config_path = [], op_env_prefix = [], op_format = FormatUnset,
      op_format_set = False, op_binds = [], op_read_timeout = seconds 10, op_write_timeout = seconds 10,
      op_idle_timeout = seconds 60, op_read_header_timeout = seconds 5, op_max_header_bytes = 1048576,
      op_shutdown_timeout = seconds 10, op_wait_for_health = 0, op_metrics_enabled = True,
      op_restart_policy = restart_policy_handled, op_logger = Some SlogDefault, op_logger_set = False, op_name = []\<rparr>"

subsection \<open>Applying a configuration\<close>

definition apply_seconds :: "(f64 \<Rightarrow> duration) \<Rightarrow> f64 option \<Rightarrow> duration \<Rightarrow> duration" where
  "apply_seconds cv v old = (case v of None \<Rightarrow> old | Some x \<Rightarrow> seconds_to_duration cv x)"

definition apply_config :: "(f64 \<Rightarrow> duration) \<Rightarrow> server_config \<Rightarrow> server \<Rightarrow> server" where
  "apply_config cv cfg c =
     c\<lparr>sv_binds := (if length (cf_bind cfg) > 0 then cf_bind cfg else sv_binds c),
       sv_read_timeout := apply_seconds cv (cf_read_timeout_sec cfg) (sv_read_timeout c),
       sv_write_timeout := apply_seconds cv (cf_write_timeout_sec cfg) (sv_write_timeout c),
       sv_idle_timeout := apply_seconds cv (cf_idle_timeout_sec cfg) (sv_idle_timeout c),
       sv_read_header_timeout := apply_seconds cv (cf_read_header_timeout_sec cfg) (sv_read_header_timeout c),
       sv_max_header_bytes := (case cf_max_header_bytes cfg of None \<Rightarrow> sv_max_header_bytes c | Some n \<Rightarrow> n),
       sv_shutdown_timeout := apply_seconds cv (cf_shutdown_timeout_sec cfg) (sv_shutdown_timeout c),
       sv_metrics_enabled := (case cf_metrics_enabled cfg of None \<Rightarrow> sv_metrics_enabled c | Some b \<Rightarrow> b),
       sv_restart_policy := (if cf_restart_policy cfg \<noteq> [] then cf_restart_policy cfg else sv_restart_policy c)\<rparr>"

definition new_server :: "(f64 \<Rightarrow> duration) \<Rightarrow> option_fun list \<Rightarrow> server" where
  "new_server cv opts =
     (let o1 = foldl (\<lambda>o0 opt. opt o0) default_options opts;
          c = \<lparr>sv_config_source = op_config_source o1, sv_config_path = op_config_path o1,
               sv_env_prefix = op_env_prefix o1, sv_format = op_format o1, sv_format_set = op_format_set o1,
               sv_binds = op_binds o1, sv_read_timeout = op_read_timeout o1, sv_write_timeout = op_write_timeout o1,
               sv_idle_timeout = op_idle_timeout o1, sv_read_header_timeout = op_read_header_timeout o1,
               sv_max_header_bytes = op_max_header_bytes o1, sv_shutdown_timeout = op_shutdown_timeout o1,
               sv_wait_for_health = op_wait_for_health o1, sv_metrics_enabled = op_metrics_enabled o1,
               sv_restart_policy = op_restart_policy o1, sv_restart_required = False, sv_restart_requested = False,
               sv_run_cancel = None, sv_initialized = False, sv_running = False, sv_listening = False,
               sv_bound_address = [], sv_logger_set = op_logger_set o1,
               sv_logger = Some (case op_logger o1 of None \<Rightarrow> SlogDefault | Some l \<Rightarrow> l),
               sv_logs_sub = False, sv_handler = None, sv_fw = None, sv_name = op_name o1,
               sv_meters = new_meters, sv_reloads = 0, sv_starts = 0, sv_drain_timeouts = 0, sv_hijacks = 0,
               sv_connections = 0\<rparr>
      in case op_loaded o1 of None \<Rightarrow> c | Some cfg \<Rightarrow> apply_config cv cfg c)"

subsection \<open>Methods that read the server\<close>

definition server_name :: "server \<Rightarrow> string" where
  "server_name c = (if sv_name c \<noteq> [] then sv_name c else component_name)"

definition logger_value :: "server \<Rightarrow> logger_ref" where
  "logger_value c = (case sv_logger c of Some l \<Rightarrow> l | None \<Rightarrow> SlogDefault)"

definition get_logger :: "server \<Rightarrow> logger_ref" where
  "get_logger c = logger_value c"

definition get_init_order_stage :: "server \<Rightarrow> string" where
  "get_init_order_stage c = component_stage"

text \<open>The names of the two framework components are the framework's own: parameters.\<close>

definition get_dependencies :: "string \<Rightarrow> string \<Rightarrow> server \<Rightarrow> string list" where
  "get_dependencies logs_name configuration_name c =
     [logs_name] @ (if sv_config_source c \<noteq> [] then [configuration_name] else [])"

definition get_handler :: "server \<Rightarrow> nat option" where
  "get_handler c = sv_handler c"

definition addr :: "server \<Rightarrow> string" where
  "addr c =
     (if sv_bound_address c \<noteq> [] then sv_bound_address c
      else if length (sv_binds c) = 0 then []
      else sv_binds c ! 0)"

definition health :: "ctx_err option \<Rightarrow> server \<Rightarrow> server_error option" where
  "health ctx c =
     (case ctx of
        Some e \<Rightarrow> Some (ErrCtx e)
      | None \<Rightarrow>
          if \<not> sv_initialized c then Some (ErrText ''cf_http: server is not initialized'')
          else if sv_handler c = None then Some (ErrText ''cf_http: handler is not registered'')
          else if \<not> sv_listening c then Some (ErrText ''cf_http: server is not listening'')
          else None)"

subsection \<open>Initialisation, handler, shutdown\<close>

definition validate_active_settings :: "server \<Rightarrow> server_error option" where
  "validate_active_settings c =
     (if length (sv_binds c) = 0 then Some (ErrText ''cf_http: bind is required'')
      else if sint (sv_read_timeout c) < 0 \<or> sint (sv_write_timeout c) < 0 \<or> sint (sv_idle_timeout c) < 0
           \<or> sint (sv_read_header_timeout c) < 0
        then Some (ErrText ''cf_http: server timeouts must not be negative'')
      else if sv_max_header_bytes c \<le> 0 then Some (ErrText ''cf_http: max_header_bytes must be positive'')
      else if sint (sv_shutdown_timeout c) \<le> 0 then Some (ErrText ''cf_http: shutdown timeout must be positive'')
      else if sint (sv_wait_for_health c) < 0
        then Some (ErrText ''cf_http: wait for health timeout must not be negative'')
      else if sv_restart_policy c \<notin> {[], restart_policy_handled, restart_policy_immediate}
        then Some (ErrUnknownPolicy (sv_restart_policy c))
      else None)"

definition unsubscribe_logs :: "server \<Rightarrow> server" where
  "unsubscribe_logs c = (if sv_logs_sub c then c\<lparr>sv_logs_sub := False\<rparr> else c)"

definition apply_config_from_source :: "(f64 \<Rightarrow> duration) \<Rightarrow> server \<Rightarrow> server_error option \<times> server" where
  "apply_config_from_source cv c =
     (case sv_fw c of
        None \<Rightarrow> (Some (ErrText ''cf_http: configuration component not registered''), c)
      | Some fw \<Rightarrow>
          (case fw_configuration fw of
             None \<Rightarrow> (Some (ErrText ''cf_http: configuration component not registered''), c)
           | Some get \<Rightarrow>
               (case get (sv_config_source c) of
                  None \<Rightarrow> (Some (ErrSourceMissing (sv_config_source c)), c)
                | Some cfg \<Rightarrow> (None, apply_config cv cfg c))))"

definition init_subscribe :: "framework \<Rightarrow> server \<Rightarrow> server" where
  "init_subscribe fw c =
     (let c1 = c\<lparr>sv_fw := Some fw\<rparr>
      in if \<not> sv_logger_set c1 \<and> fw_logs fw then c1\<lparr>sv_logs_sub := True\<rparr> else c1)"

definition init :: "(f64 \<Rightarrow> duration) \<Rightarrow> ctx_err option \<Rightarrow> framework \<Rightarrow> server \<Rightarrow> server_error option \<times> server" where
  "init cv ctx fw c =
     (if sv_initialized c then (None, c)
      else case ctx of
        Some e \<Rightarrow> (Some (ErrCtx e), c)
      | None \<Rightarrow>
          let c2 = init_subscribe fw c;
              (err, c3) = (if sv_config_source c2 \<noteq> [] then apply_config_from_source cv c2 else (None, c2))
          in if err \<noteq> None then (err, unsubscribe_logs c3)
             else case validate_active_settings c3 of
               Some e \<Rightarrow> (Some e, unsubscribe_logs c3)
             | None \<Rightarrow> (None, c3\<lparr>sv_initialized := True\<rparr>))"

text \<open>What the subscription of \<open>Init\<close> does when the logs component is reconfigured.\<close>

definition logs_reconfigured :: "logger_ref option \<Rightarrow> server \<Rightarrow> server" where
  "logs_reconfigured l c = (if sv_logs_sub c then c\<lparr>sv_logger := l\<rparr> else c)"

definition set_handler :: "nat option \<Rightarrow> server \<Rightarrow> server" where
  "set_handler h c = c\<lparr>sv_handler := h\<rparr>"

definition shutdown :: "server \<Rightarrow> server" where
  "shutdown c = (unsubscribe_logs c)\<lparr>sv_initialized := False, sv_fw := None\<rparr>"

subsection \<open>Connections and the error log of net/http\<close>

text \<open>\<open>frameworkLogWriter.Write\<close>: the logger and the message of the error line, and the count it returns.\<close>

definition framework_log_write :: "server \<Rightarrow> string \<Rightarrow> (logger_ref \<times> string) \<times> nat" where
  "framework_log_write c p = ((logger_value c, trim_suffix p [CHR 0x0A]), length p)"

datatype conn_state = StateNew | StateActive | StateIdle | StateHijacked | StateClosed

definition on_conn_state :: "conn_state \<Rightarrow> server \<Rightarrow> server" where
  "on_conn_state st c =
     (case st of
        StateNew \<Rightarrow> c\<lparr>sv_connections := sv_connections c + 1\<rparr>
      | StateClosed \<Rightarrow> c\<lparr>sv_connections := sv_connections c - 1\<rparr>
      | StateHijacked \<Rightarrow> c\<lparr>sv_connections := sv_connections c - 1, sv_hijacks := sv_hijacks c + 1\<rparr>
      | _ \<Rightarrow> c)"

subsection \<open>The server's own metrics\<close>

text \<open>\<open>None\<close> stands for the panic on a nil meter.\<close>

definition gauge :: "string \<Rightarrow> string \<Rightarrow> metric_value \<Rightarrow> labels \<Rightarrow> metric" where
  "gauge name help v ls = \<lparr>me_name = name, me_help = help, me_value = v, me_labels = ls, me_type = Gauge\<rparr>"

definition counter :: "string \<Rightarrow> string \<Rightarrow> metric_value \<Rightarrow> labels \<Rightarrow> metric" where
  "counter name help v ls = \<lparr>me_name = name, me_help = help, me_value = v, me_labels = ls, me_type = Counter\<rparr>"

definition server_samples :: "server \<Rightarrow> meter \<Rightarrow> metric list" where
  "server_samples c m =
     (let name = server_name c; ls = [(''component'', name)] in
      [gauge ''http_info'' ''HTTP server descriptor; 1 while initialized.'' (FConst 1)
         [(''component'', name), (''bind'', join '','' (sv_binds c))],
       gauge ''http_requests_in_flight'' ''Requests currently executing through HTTP metrics middleware.''
         (FInt (mt_in_flight m)) ls,
       gauge ''http_connections_active'' ''Active connections owned by net/http.'' (FInt (sv_connections c)) ls,
       counter ''http_config_reloads_total'' ''Successful HTTP configuration reload notifications.''
         (FUint (sv_reloads c)) ls,
       counter ''http_server_starts_total'' ''Successful HTTP listener starts.'' (FUint (sv_starts c)) ls,
       counter ''http_server_drain_timeouts_total'' ''Graceful HTTP drains that reached their deadline.''
         (FUint (sv_drain_timeouts c)) ls,
       counter ''http_hijacks_total'' ''Connections transferred out of net/http ownership.'' (FUint (sv_hijacks c)) ls,
       gauge ''http_server_restart_required''
         ''Server requires restart due to configuration changes (1 = restart needed, 0 = no restart needed).''
         (bool_to_float (sv_restart_required c)) ls])"

definition server_metrics :: "server \<Rightarrow> metric list option" where
  "server_metrics c =
     (if \<not> sv_initialized c \<or> \<not> sv_metrics_enabled c then Some []
      else case ms_http (sv_meters c) of
        None \<Rightarrow> None
      | Some m \<Rightarrow>
          Some (server_samples c m @ render_http_meter (server_name c) m
            @ (case ms_ops (sv_meters c) of None \<Rightarrow> [] | Some g \<Rightarrow> render_graphql_meter g (server_name c) False)
            @ (case ms_resolvers (sv_meters c) of None \<Rightarrow> [] | Some g \<Rightarrow> render_graphql_meter g (server_name c) True)))"

subsection \<open>Lemmas\<close>

lemma validate_phase [simp]:
  "validate_active_settings (c\<lparr>sv_initialized := b\<rparr>) = validate_active_settings c"
  "validate_active_settings (c\<lparr>sv_logs_sub := b\<rparr>) = validate_active_settings c"
  by (simp_all add: validate_active_settings_def)

lemma unsubscribe_frame [simp]:
  "sv_initialized (unsubscribe_logs c) = sv_initialized c" "sv_fw (unsubscribe_logs c) = sv_fw c"
  by (simp_all add: unsubscribe_logs_def)

lemma apply_from_source_frame:
  "apply_config_from_source cv c = (err, c') \<Longrightarrow> sv_initialized c' = sv_initialized c \<and> sv_fw c' = sv_fw c"
  by (auto simp: apply_config_from_source_def apply_config_def split: option.splits)

text \<open>The steps of an \<open>Init\<close> that is not a repetition.\<close>

lemma init_cases:
  assumes "init cv ctx fw c = (err, c')" "\<not> sv_initialized c"
  obtains (ctx) e where "ctx = Some e" "err = Some (ErrCtx e)" "c' = c"
  | (failed) e c1 where "err = Some e" "c' = unsubscribe_logs c1" "\<not> sv_initialized c1"
  | (ok) c1 where "err = None" "c' = c1\<lparr>sv_initialized := True\<rparr>" "validate_active_settings c1 = None" "sv_fw c1 = Some fw"
proof (cases ctx)
  case (Some e)
  then show ?thesis using assms that(1) by (simp add: init_def)
next
  case None
  let ?c2 = "init_subscribe fw c"
  obtain e c3 where s: "(if sv_config_source ?c2 \<noteq> [] then apply_config_from_source cv ?c2 else (None, ?c2)) = (e, c3)"
    by fastforce
  have f: "\<not> sv_initialized c3" "sv_fw c3 = Some fw"
    using s assms(2) apply_from_source_frame [of cv ?c2 e c3] by (auto simp: init_subscribe_def Let_def split: if_splits)
  have i: "(err, c') = (if e \<noteq> None then (e, unsubscribe_logs c3)
      else case validate_active_settings c3 of Some e \<Rightarrow> (Some e, unsubscribe_logs c3)
           | None \<Rightarrow> (None, c3\<lparr>sv_initialized := True\<rparr>))"
    using assms None unfolding init_def Let_def s by simp
  show ?thesis
  proof (cases e)
    case (Some e')
    then show ?thesis using i f that(2) [of e' c3] by simp
  next
    case None
    then show ?thesis using i f that(2,3) by (cases "validate_active_settings c3") auto
  qed
qed

text \<open>
  C28.  \<open>Init\<close> is all or nothing.  On a server that is not initialised it either reports an error and leaves
  the server uninitialised and unsubscribed, or reports none; then the server is initialised on this
  framework and its settings are valid.  On an initialised server it changes nothing.
\<close>

theorem init_all_or_nothing:
  "(sv_initialized c \<longrightarrow> init cv ctx fw c = (None, c))
   \<and> (\<not> sv_initialized c \<longrightarrow>
       (fst (init cv ctx fw c) = None \<longleftrightarrow> sv_initialized (snd (init cv ctx fw c)))
       \<and> (fst (init cv ctx fw c) = None \<longrightarrow>
            validate_active_settings (snd (init cv ctx fw c)) = None \<and> sv_fw (snd (init cv ctx fw c)) = Some fw)
       \<and> (fst (init cv ctx fw c) \<noteq> None \<and> ctx = None \<longrightarrow> \<not> sv_logs_sub (snd (init cv ctx fw c))))"
proof (cases "sv_initialized c")
  case True
  then show ?thesis by (simp add: init_def)
next
  case False
  obtain err c' where i: "init cv ctx fw c = (err, c')" by fastforce
  have "\<not> sv_logs_sub (unsubscribe_logs c1)" for c1 by (simp add: unsubscribe_logs_def)
  then show ?thesis using init_cases [OF i False] False i by (cases rule: init_cases [OF i False]) auto
qed


definition bare_framework :: framework where
  "bare_framework = \<lparr>fw_logs = True, fw_configuration = None, fw_components = []\<rparr>"

definition example_server :: server where
  "example_server = new_server (\<lambda>_. 0) [with_bind [''127.0.0.1:8080''], with_name ''api'']"

lemma init_all_or_nothing_witness:
  "sv_initialized (snd (init (\<lambda>_. 0) None bare_framework example_server))
   \<and> validate_active_settings (snd (init (\<lambda>_. 0) None bare_framework example_server)) = None
   \<and> \<not> sv_initialized (snd (init (\<lambda>_. 0) (Some Canceled) bare_framework example_server))"
proof -
  have s: "\<not> sv_initialized example_server" by code_simp
  have a: "fst (init (\<lambda>_. 0) None bare_framework example_server) = None" by code_simp
  have b: "fst (init (\<lambda>_. 0) (Some Canceled) bare_framework example_server) \<noteq> None" by code_simp
  show ?thesis
    using init_all_or_nothing [of example_server "\<lambda>_. 0" None bare_framework]
      init_all_or_nothing [of example_server "\<lambda>_. 0" "Some Canceled" bare_framework] s a b by simp
qed

end
