(* ===== verification/Config.thy ===== *)
theory Config imports Server begin

text \<open>
  \<^verbatim>\<open>config.go\<close>: the self-registered configuration source, the validation of a loaded configuration,
  the comparison of a reloaded configuration with the active settings, and the reload handler.  How the
  configuration component registers a source is a parameter.
\<close>

subsection \<open>Sources\<close>

record source_options =
  so_env_prefix :: string
  so_format :: format
  so_format_set :: bool

definition with_source_env_prefix :: "string \<Rightarrow> source_options \<Rightarrow> source_options" where
  "with_source_env_prefix p o0 = o0\<lparr>so_env_prefix := p\<rparr>"

definition with_source_format :: "format \<Rightarrow> source_options \<Rightarrow> source_options" where
  "with_source_format f o0 = o0\<lparr>so_format := f, so_format_set := True\<rparr>"

definition default_source_env_prefix :: "string \<Rightarrow> string" where
  "default_source_env_prefix name = to_upper (replace_byte CHR ''-'' CHR ''_'' name) @ ''_''"

definition with_config_source :: "string \<Rightarrow> string \<Rightarrow> (source_options \<Rightarrow> source_options) list \<Rightarrow> option_fun" where
  "with_config_source name path opts o0 =
     (let so = foldl (\<lambda>so opt. opt so)
            \<lparr>so_env_prefix = default_source_env_prefix name, so_format = FormatUnset, so_format_set = False\<rparr> opts
      in o0\<lparr>op_config_source := name, op_config_path := path, op_env_prefix := so_env_prefix so,
            op_format := so_format so, op_format_set := so_format_set so\<rparr>)"

subsection \<open>Validation\<close>

text \<open>A Go map is ranged over in no particular order: the order of the four names is a parameter.\<close>

definition named_seconds :: "server_config \<Rightarrow> (string \<times> f64 option) list" where
  "named_seconds cfg =
     [(''read_timeout_sec'', cf_read_timeout_sec cfg), (''write_timeout_sec'', cf_write_timeout_sec cfg),
      (''idle_timeout_sec'', cf_idle_timeout_sec cfg), (''read_header_timeout_sec'', cf_read_header_timeout_sec cfg)]"

fun validate_named :: "(string \<times> f64 option) list \<Rightarrow> config_error option" where
  "validate_named [] = None"
| "validate_named ((name, value) # rest) =
     (case value of
        None \<Rightarrow> validate_named rest
      | Some v \<Rightarrow> (case validate_seconds name v False of Some e \<Rightarrow> Some e | None \<Rightarrow> validate_named rest))"

definition validate_server_config ::
  "((string \<times> f64 option) list \<Rightarrow> (string \<times> f64 option) list) \<Rightarrow> server_config \<Rightarrow> config_error option" where
  "validate_server_config order cfg =
     (case validate_named (order (named_seconds cfg)) of
        Some e \<Rightarrow> Some e
      | None \<Rightarrow>
          (case (case cf_shutdown_timeout_sec cfg of
                   None \<Rightarrow> None
                 | Some v \<Rightarrow> validate_seconds ''shutdown_timeout_sec'' v True) of
             Some e \<Rightarrow> Some e
           | None \<Rightarrow>
               if (case cf_max_header_bytes cfg of None \<Rightarrow> False | Some n \<Rightarrow> n \<le> 0) then Some BadMaxHeader
               else if cf_restart_policy cfg \<notin> {[], restart_policy_handled, restart_policy_immediate}
                 then Some (UnknownPolicy (cf_restart_policy cfg))
               else None))"

subsection \<open>Registering the source\<close>

record config_source =
  src_name :: string
  src_path :: string
  src_format :: format
  src_owner :: string
  src_prefix :: string

text \<open>\<open>conf\<close> is the type assertion on the argument, \<open>add\<close> the configuration component's \<open>AddSource\<close>.\<close>

definition register_config_sources :: "bool \<Rightarrow> (config_source \<Rightarrow> string option) \<Rightarrow> server \<Rightarrow> string option" where
  "register_config_sources conf add c =
     (if \<not> conf then Some ''cf_http: RegisterConfigSources: expected configuration component''
      else if sv_config_source c = [] then None
      else
        let path = to_lower (sv_config_path c);
            fmt = (if sv_format_set c then sv_format c
                   else if has_suffix path ''.yaml'' \<or> has_suffix path ''.yml'' then FormatYAML
                   else FormatJSON)
        in add \<lparr>src_name = sv_config_source c, src_path = sv_config_path c, src_format = fmt,
                 src_owner = server_name c, src_prefix = sv_env_prefix c\<rparr>)"

subsection \<open>Reloading\<close>

definition seconds_changed :: "(f64 \<Rightarrow> duration) \<Rightarrow> f64 option \<Rightarrow> duration \<Rightarrow> bool" where
  "seconds_changed cv v old = (case v of None \<Rightarrow> False | Some x \<Rightarrow> seconds_to_duration cv x \<noteq> old)"

definition server_settings_changed :: "(f64 \<Rightarrow> duration) \<Rightarrow> server \<Rightarrow> server_config \<Rightarrow> bool" where
  "server_settings_changed cv c cfg =
     (if length (cf_bind cfg) > 0 \<and> \<not> binds_equal (cf_bind cfg) (sv_binds c) then True
      else if seconds_changed cv (cf_read_timeout_sec cfg) (sv_read_timeout c) then True
      else if seconds_changed cv (cf_write_timeout_sec cfg) (sv_write_timeout c) then True
      else if seconds_changed cv (cf_idle_timeout_sec cfg) (sv_idle_timeout c) then True
      else if seconds_changed cv (cf_read_header_timeout_sec cfg) (sv_read_header_timeout c) then True
      else if (case cf_max_header_bytes cfg of None \<Rightarrow> False | Some n \<Rightarrow> n \<noteq> sv_max_header_bytes c) then True
      else if seconds_changed cv (cf_shutdown_timeout_sec cfg) (sv_shutdown_timeout c) then True
      else False)"

text \<open>
  The critical section of \<open>OnConfigReload\<close>: the server it leaves, and what is done after the lock is
  released - nothing, counting the reload, or calling the cancel function grabbed under the lock and
  counting.  The second argument of a reload is a \<open>*ServerConfig\<close> or something else.
\<close>

datatype reload_rest = ReloadNothing | ReloadCount | ReloadCancel "nat option"

definition reload_locked ::
  "(f64 \<Rightarrow> duration) \<Rightarrow> string \<Rightarrow> server_config option \<Rightarrow> server \<Rightarrow> server \<times> reload_rest" where
  "reload_locked cv source cfg c =
     (if source \<noteq> sv_config_source c then (c, ReloadNothing)
      else case cfg of
        None \<Rightarrow> (c, ReloadNothing)
      | Some loaded \<Rightarrow>
          if \<not> sv_initialized c then (c, ReloadNothing)
          else
            let changed = server_settings_changed cv c loaded;
                c1 = c\<lparr>sv_metrics_enabled := (case cf_metrics_enabled loaded of None \<Rightarrow> sv_metrics_enabled c | Some b \<Rightarrow> b)\<rparr>;
                c2 = c1\<lparr>sv_restart_policy := (if cf_restart_policy loaded \<noteq> [] then cf_restart_policy loaded
                                               else sv_restart_policy c1)\<rparr>
            in if changed then
                 (if sv_restart_policy c2 = restart_policy_immediate then
                    (c2\<lparr>sv_restart_required := True, sv_restart_requested := True\<rparr>, ReloadCancel (sv_run_cancel c2))
                  else (c2\<lparr>sv_restart_required := True\<rparr>, ReloadCount))
               else (c2, ReloadCount))"

definition count_reload :: "server \<Rightarrow> server" where
  "count_reload c = c\<lparr>sv_reloads := sv_reloads c + 1\<rparr>"

text \<open>The whole handler: the server afterwards and the run it cancels, if any.\<close>

definition on_config_reload ::
  "(f64 \<Rightarrow> duration) \<Rightarrow> string \<Rightarrow> server_config option \<Rightarrow> server \<Rightarrow> server \<times> nat option" where
  "on_config_reload cv source cfg c =
     (case reload_locked cv source cfg c of
        (c', ReloadNothing) \<Rightarrow> (c', None)
      | (c', ReloadCount) \<Rightarrow> (count_reload c', None)
      | (c', ReloadCancel run) \<Rightarrow> (count_reload c', run))"

subsection \<open>Lemmas\<close>

text \<open>The settings that only a new listener can take over.\<close>

definition listener_settings :: "server \<Rightarrow> string list \<times> duration list \<times> int" where
  "listener_settings c =
     (sv_binds c, [sv_read_timeout c, sv_write_timeout c, sv_idle_timeout c, sv_read_header_timeout c, sv_shutdown_timeout c],
      sv_max_header_bytes c)"

lemma apply_seconds_changed: "apply_seconds cv v old \<noteq> old \<longleftrightarrow> seconds_changed cv v old"
  by (simp add: apply_seconds_def seconds_changed_def split: option.split)

lemma reload_locked_frame:
  assumes "reload_locked cv source cfg c = (c', rest)"
  shows "listener_settings c' = listener_settings c" "sv_run_cancel c' = sv_run_cancel c"
    "sv_initialized c' = sv_initialized c" "sv_running c' = sv_running c" "sv_listening c' = sv_listening c"
    "sv_bound_address c' = sv_bound_address c" "sv_handler c' = sv_handler c" "sv_fw c' = sv_fw c"
    "sv_starts c' = sv_starts c" "sv_wait_for_health c' = sv_wait_for_health c"
    "sv_restart_requested c \<Longrightarrow> sv_restart_requested c'"
    "rest = ReloadCancel run \<Longrightarrow> run = sv_run_cancel c \<and> sv_restart_requested c'"
  using assms by (auto simp: reload_locked_def Let_def listener_settings_def split: if_splits option.splits)

lemma validate_named_None: "validate_named xs = None \<longleftrightarrow> (\<forall>(name, v)\<in>set xs. \<forall>x. v = Some x \<longrightarrow> validate_seconds name x False = None)"
  by (induction xs rule: validate_named.induct) (auto split: option.splits)

subsection \<open>Properties\<close>

text \<open>
  C25.  The change detection of a reload agrees with what applying the configuration would do: it reports a
  change exactly when applying the loaded configuration to the server would alter one of the settings of
  the listener - addresses, the four timeouts, the header limit, the drain deadline.
\<close>

theorem settings_changed_iff_apply_differs:
  "server_settings_changed cv c cfg \<longleftrightarrow> listener_settings (apply_config cv cfg c) \<noteq> listener_settings c"
proof -
  have "server_settings_changed cv c cfg \<longleftrightarrow>
      (length (cf_bind cfg) > 0 \<and> cf_bind cfg \<noteq> sv_binds c)
      \<or> apply_seconds cv (cf_read_timeout_sec cfg) (sv_read_timeout c) \<noteq> sv_read_timeout c
      \<or> apply_seconds cv (cf_write_timeout_sec cfg) (sv_write_timeout c) \<noteq> sv_write_timeout c
      \<or> apply_seconds cv (cf_idle_timeout_sec cfg) (sv_idle_timeout c) \<noteq> sv_idle_timeout c
      \<or> apply_seconds cv (cf_read_header_timeout_sec cfg) (sv_read_header_timeout c) \<noteq> sv_read_header_timeout c
      \<or> (case cf_max_header_bytes cfg of None \<Rightarrow> False | Some n \<Rightarrow> n \<noteq> sv_max_header_bytes c)
      \<or> apply_seconds cv (cf_shutdown_timeout_sec cfg) (sv_shutdown_timeout c) \<noteq> sv_shutdown_timeout c"
    by (simp add: server_settings_changed_def apply_seconds_changed)
  then show ?thesis
    by (auto simp: listener_settings_def apply_config_def split: option.splits)
qed

text \<open>
  C26.  A reload never touches a listener setting, the run or the phase of the server.  Exactly a
  configuration of its own source that changes a listener setting of an initialised server marks it as
  needing a restart; the immediate policy, taken from the new configuration when that names one, also
  requests the restart and cancels the run that is active.
\<close>

theorem reload_effect:
  "let (c', cancelled) = on_config_reload cv source (Some cfg) c;
       mine = (source = sv_config_source c \<and> sv_initialized c);
       changed = (mine \<and> server_settings_changed cv c cfg);
       policy = (if cf_restart_policy cfg \<noteq> [] then cf_restart_policy cfg else sv_restart_policy c);
       immediate = (changed \<and> policy = restart_policy_immediate)
   in listener_settings c' = listener_settings c \<and> sv_initialized c' = sv_initialized c
    \<and> sv_listening c' = sv_listening c \<and> sv_handler c' = sv_handler c
    \<and> sv_reloads c' = sv_reloads c + (if mine then 1 else 0)
    \<and> sv_restart_required c' = (sv_restart_required c \<or> changed)
    \<and> sv_restart_requested c' = (sv_restart_requested c \<or> immediate)
    \<and> cancelled = (if immediate then sv_run_cancel c else None)"
  by (auto simp: on_config_reload_def reload_locked_def count_reload_def listener_settings_def Let_def
      split: option.splits prod.split)

text \<open>
  C27.  The verdict of the validation does not depend on the order in which the map of timeouts is ranged
  over: every order rejects or every order accepts.  What is accepted has finite, non-negative timeouts, a
  positive drain deadline and header limit, and a known policy.
\<close>

theorem validation_order_irrelevant:
  assumes "\<And>xs. set (order xs) = set xs" "\<And>xs. set (order' xs) = set xs"
  shows "(validate_server_config order cfg = None \<longleftrightarrow> validate_server_config order' cfg = None)
    \<and> (validate_server_config order cfg = None \<longrightarrow>
        (\<forall>(name, v) \<in> set (named_seconds cfg). \<forall>x. v = Some x \<longrightarrow> validate_seconds name x False = None)
        \<and> (\<forall>x. cf_shutdown_timeout_sec cfg = Some x \<longrightarrow> validate_seconds ''shutdown_timeout_sec'' x True = None)
        \<and> (\<forall>n. cf_max_header_bytes cfg = Some n \<longrightarrow> 0 < n)
        \<and> cf_restart_policy cfg \<in> {[], restart_policy_handled, restart_policy_immediate})"
proof -
  have n: "validate_named (ord (named_seconds cfg)) = None \<longleftrightarrow> validate_named (named_seconds cfg) = None"
    if "\<And>xs. set (ord xs) = set xs" for ord
    using that by (simp add: validate_named_None)
  have "validate_server_config ord cfg = None \<longleftrightarrow>
      validate_named (named_seconds cfg) = None
      \<and> (\<forall>x. cf_shutdown_timeout_sec cfg = Some x \<longrightarrow> validate_seconds ''shutdown_timeout_sec'' x True = None)
      \<and> (\<forall>n. cf_max_header_bytes cfg = Some n \<longrightarrow> 0 < n)
      \<and> cf_restart_policy cfg \<in> {[], restart_policy_handled, restart_policy_immediate}"
    if "\<And>xs. set (ord xs) = set xs" for ord
    unfolding n [OF that, symmetric]
    by (auto simp: validate_server_config_def split: option.splits)
  from this [OF assms(1)] this [OF assms(2)] show ?thesis
    by (simp add: validate_named_None)
qed


definition example_config :: server_config where
  "example_config = \<lparr>cf_bind = ['':8080''], cf_read_timeout_sec = Some (Fin 5 0), cf_write_timeout_sec = None,
     cf_idle_timeout_sec = None, cf_read_header_timeout_sec = None, cf_max_header_bytes = Some 4096,
     cf_shutdown_timeout_sec = Some (Fin 1 0), cf_metrics_enabled = None, cf_restart_policy = ''immediate''\<rparr>"

lemma validation_order_irrelevant_witness:
  "validate_server_config rev example_config = None \<and> validate_server_config (\<lambda>xs. xs) example_config = None
   \<and> \<not> (\<exists>n. cf_max_header_bytes example_config = Some n \<and> n \<le> 0)"
proof -
  have a: "validate_server_config rev example_config = None" by code_simp
  from validation_order_irrelevant [of rev "\<lambda>xs. xs" example_config] a show ?thesis by fastforce
qed

end
