(* ===== verification/Health.thy ===== *)
theory Health imports Config begin

text \<open>
  \<open>waitForHealthProviders\<close> of \<^verbatim>\<open>server.go\<close>: the wait for the health of the other components before
  the server binds.  What the outside world does is the record \<open>wait_env\<close>: the answer of each provider in
  each round, the error of the waiting context after a round, and whether the \<open>select\<close> that ends a round
  took the context (with its error) or the ticker.  The loop has no bound of its own: it is a partial
  function, and \<open>wait_returns\<close> shows that it returns because its context has a deadline.
\<close>

record wait_env =
  we_check :: "nat \<Rightarrow> nat \<Rightarrow> string option"
  we_err :: "nat \<Rightarrow> ctx_err option"
  we_done :: "nat \<Rightarrow> ctx_err option"

definition health_reason_for_wait :: "string option \<Rightarrow> string" where
  "health_reason_for_wait err =
     (case err of
        None \<Rightarrow> []
      | Some e \<Rightarrow>
          let msg = to_lower e in
          if contains msg ''not initialized'' then ''not_initialized''
          else if contains msg ''ping'' then ''ping_failed''
          else ''unhealthy'')"

fun health_providers :: "string \<Rightarrow> (string \<times> nat option) option list \<Rightarrow> (string \<times> nat) list" where
  "health_providers own [] = []"
| "health_providers own (None # cs) = health_providers own cs"
| "health_providers own (Some (name, hp) # cs) =
     (if name = own then health_providers own cs
      else case hp of
        None \<Rightarrow> health_providers own cs
      | Some h \<Rightarrow> (name, h) # health_providers own cs)"

text \<open>One round: whether all are healthy, and the failures.\<close>

fun check_round :: "(nat \<Rightarrow> string option) \<Rightarrow> (string \<times> nat) list \<Rightarrow> bool \<times> string list" where
  "check_round check [] = (True, [])"
| "check_round check ((name, h) # ps) =
     (let (ok, fs) = check_round check ps in
      case check h of
        None \<Rightarrow> (ok, fs)
      | Some e \<Rightarrow> (False, (name @ '': '' @ health_reason_for_wait (Some e)) # fs))"

definition ctx_err_text :: "ctx_err \<Rightarrow> string" where
  "ctx_err_text e = (case e of Canceled \<Rightarrow> ''context canceled'' | DeadlineExceeded \<Rightarrow> ''context deadline exceeded'')"

definition wait_timed_out :: "string list \<Rightarrow> server_error" where
  "wait_timed_out failures =
     (let msg = join '', '' failures; msg' = (if msg = [] then ''unhealthy'' else msg)
      in ErrText (''cf_http: wait for health timed out: '' @ msg'))"

definition wait_ended :: "ctx_err \<Rightarrow> server_error" where
  "wait_ended e = ErrText (''cf_http: wait for health ended: '' @ ctx_err_text e)"

partial_function (option) wait_loop ::
  "wait_env \<Rightarrow> (string \<times> nat) list \<Rightarrow> nat \<Rightarrow> server_error option option" where
  "wait_loop env ps n =
     (let (all_healthy, failures) = check_round (we_check env n) ps in
      if all_healthy then Some None
      else case we_err env n of
        Some e \<Rightarrow> Some (Some (if e = Canceled then ErrCtx Canceled else wait_timed_out failures))
      | None \<Rightarrow>
          (case we_done env n of
             Some e \<Rightarrow> Some (Some (if e = Canceled then ErrCtx Canceled else wait_ended e))
           | None \<Rightarrow> wait_loop env ps (Suc n)))"

definition wait_for_health_providers ::
  "wait_env \<Rightarrow> framework option \<Rightarrow> string \<Rightarrow> duration \<Rightarrow> server_error option option" where
  "wait_for_health_providers env fwo own timeout =
     (case fwo of
        None \<Rightarrow> Some (Some (ErrText ''cf_http: wait for health requires an initialized framework''))
      | Some fw \<Rightarrow>
          if sint timeout \<le> 0 then Some None
          else
            let providers = health_providers own (fw_components fw) in
            if providers = [] then Some None
            else wait_loop env providers 0)"

subsection \<open>Lemmas\<close>

lemma check_round_healthy: "fst (check_round check ps) \<longleftrightarrow> (\<forall>(name, h) \<in> set ps. check h = None)"
  by (induction ps) (auto split: prod.splits option.splits)

lemma health_providers_set:
  "(name, h) \<in> set (health_providers own cs) \<longleftrightarrow> Some (name, Some h) \<in> set cs \<and> name \<noteq> own"
  by (induction own cs rule: health_providers.induct) (auto split: option.splits)

text \<open>Every provider answers healthy in a round.\<close>

definition healthy_round :: "wait_env \<Rightarrow> (string \<times> nat) list \<Rightarrow> nat \<Rightarrow> bool" where
  "healthy_round env ps n \<longleftrightarrow> (\<forall>(name, h) \<in> set ps. we_check env n h = None)"

definition round_ends :: "wait_env \<Rightarrow> nat \<Rightarrow> bool" where
  "round_ends env n \<longleftrightarrow> we_err env n \<noteq> None \<or> we_done env n \<noteq> None"

lemma wait_loop_step:
  "\<not> healthy_round env ps n \<Longrightarrow> \<not> round_ends env n \<Longrightarrow> wait_loop env ps n = wait_loop env ps (Suc n)"
  using check_round_healthy [of "we_check env n" ps]
  by (subst wait_loop.simps) (auto simp: healthy_round_def round_ends_def split: prod.split)

lemma wait_loop_healthy: "healthy_round env ps n \<Longrightarrow> wait_loop env ps n = Some None"
  using check_round_healthy [of "we_check env n" ps]
  by (subst wait_loop.simps) (auto simp: healthy_round_def split: prod.split)

lemma wait_loop_ends:
  "\<not> healthy_round env ps n \<Longrightarrow> round_ends env n \<Longrightarrow> \<exists>e. wait_loop env ps n = Some (Some e)"
  using check_round_healthy [of "we_check env n" ps]
  by (subst wait_loop.simps) (auto simp: healthy_round_def round_ends_def split: prod.split option.split)

text \<open>The loop returns in the first round that is healthy or ends, and reports health exactly in the first case.\<close>

lemma wait_loop_returns:
  assumes "n \<le> N" "healthy_round env ps N \<or> round_ends env N"
  shows "\<exists>k\<ge>n. k \<le> N \<and> (\<forall>i. n \<le> i \<and> i < k \<longrightarrow> \<not> healthy_round env ps i \<and> \<not> round_ends env i)
    \<and> (if healthy_round env ps k then wait_loop env ps n = Some None
       else round_ends env k \<and> (\<exists>e. wait_loop env ps n = Some (Some e)))"
  using assms
proof (induction n rule: inc_induct)
  case base
  then show ?case using wait_loop_healthy wait_loop_ends by (intro exI [of _ N]) auto
next
  case (step n)
  show ?case
  proof (cases "healthy_round env ps n \<or> round_ends env n")
    case True
    then show ?thesis using step.hyps wait_loop_healthy wait_loop_ends by (intro exI [of _ n]) auto
  next
    case False
    then have w: "wait_loop env ps n = wait_loop env ps (Suc n)" by (intro wait_loop_step) auto
    from step.IH [OF step.prems] obtain k where k: "Suc n \<le> k" "k \<le> N"
      "\<forall>i. Suc n \<le> i \<and> i < k \<longrightarrow> \<not> healthy_round env ps i \<and> \<not> round_ends env i"
      "if healthy_round env ps k then wait_loop env ps (Suc n) = Some None
       else round_ends env k \<and> (\<exists>e. wait_loop env ps (Suc n) = Some (Some e))" by blast
    have "\<not> healthy_round env ps i \<and> \<not> round_ends env i" if "n \<le> i \<and> i < k" for i
      using that False k(3) by (cases "i = n") auto
    then show ?thesis using k w by (intro exI [of _ k]) auto
  qed
qed

subsection \<open>The property\<close>

text \<open>
  C29.  The wait for health ends.  As soon as some round finds the waiting context over (which its deadline
  guarantees), the wait has returned; it reports health exactly when a round that found every other
  health provider of the framework healthy came no later than the first round that saw the context over.
\<close>

theorem wait_returns:
  assumes "round_ends env N" "0 < sint timeout"
  shows "\<exists>r. wait_for_health_providers env (Some fw) own timeout = Some r
    \<and> (r = None \<longleftrightarrow>
        (\<exists>n\<le>N. (\<forall>i<n. \<not> round_ends env i)
           \<and> (\<forall>name h. Some (name, Some h) \<in> set (fw_components fw) \<and> name \<noteq> own \<longrightarrow> we_check env n h = None)))"
proof -
  let ?ps = "health_providers own (fw_components fw)"
  have h: "healthy_round env ?ps n \<longleftrightarrow>
      (\<forall>name h. Some (name, Some h) \<in> set (fw_components fw) \<and> name \<noteq> own \<longrightarrow> we_check env n h = None)" for n
    using health_providers_set [of _ _ own "fw_components fw"] by (fastforce simp: healthy_round_def)
  show ?thesis
  proof (cases "?ps = []")
    case True
    then have "healthy_round env ?ps 0" by (simp add: healthy_round_def)
    then show ?thesis using True assms(2) unfolding wait_for_health_providers_def h [symmetric] Let_def by auto
  next
    case False
    then have w: "wait_for_health_providers env (Some fw) own timeout = wait_loop env ?ps 0"
      using assms(2) by (simp add: wait_for_health_providers_def Let_def)
    obtain k where k: "k \<le> N" "\<forall>i<k. \<not> healthy_round env ?ps i \<and> \<not> round_ends env i"
      "if healthy_round env ?ps k then wait_loop env ?ps 0 = Some None
       else round_ends env k \<and> (\<exists>e. wait_loop env ?ps 0 = Some (Some e))"
      using wait_loop_returns [of 0 N env ?ps] assms(1) by auto
    show ?thesis unfolding w h [symmetric]
    proof (cases "healthy_round env ?ps k")
      case True
      then show "\<exists>r. wait_loop env ?ps 0 = Some r \<and> (r = None \<longleftrightarrow> (\<exists>n\<le>N. (\<forall>i<n. \<not> round_ends env i) \<and> healthy_round env ?ps n))"
        using k by auto
    next
      case False
      have "\<not> healthy_round env ?ps n" if "\<forall>i<n. \<not> round_ends env i" for n
        using that False k by (metis linorder_neqE_nat)
      then show "\<exists>r. wait_loop env ?ps 0 = Some r \<and> (r = None \<longleftrightarrow> (\<exists>n\<le>N. (\<forall>i<n. \<not> round_ends env i) \<and> healthy_round env ?ps n))"
        using False k by auto
    qed
  qed
qed

definition db_framework :: framework where
  "db_framework = \<lparr>fw_logs = True, fw_configuration = None,
     fw_components = [Some (''http'', Some 0), None, Some (''db'', Some 1), Some (''logs'', None)]\<rparr>"

text \<open>A database that is healthy from round 2 on, and a deadline seen in round 5.\<close>

definition db_env :: wait_env where
  "db_env = \<lparr>we_check = (\<lambda>n h. if n < 2 then Some ''Ping refused'' else None),
     we_err = (\<lambda>n. None), we_done = (\<lambda>n. if n = 5 then Some DeadlineExceeded else None)\<rparr>"

lemma wait_returns_witness:
  "wait_for_health_providers db_env (Some db_framework) ''http'' 1000 = Some None"
proof -
  have a: "round_ends db_env 5" by (simp add: round_ends_def db_env_def)
  have b: "0 < sint (1000 :: duration)" by simp
  let ?X = "\<exists>n\<le>5. (\<forall>i<n. \<not> round_ends db_env i)
       \<and> (\<forall>name h. Some (name, Some h) \<in> set (fw_components db_framework) \<and> name \<noteq> ''http'' \<longrightarrow> we_check db_env n h = None)"
  have w: "\<exists>r. wait_for_health_providers db_env (Some db_framework) ''http'' 1000 = Some r \<and> (r = None \<longleftrightarrow> ?X)"
    by (rule wait_returns [OF a b])
  have "(\<forall>i<2. \<not> round_ends db_env i) \<and> (\<forall>name h. Some (name, Some h) \<in> set (fw_components db_framework) \<and> name \<noteq> ''http''
       \<longrightarrow> we_check db_env 2 h = None)"
    by (simp add: round_ends_def db_env_def)
  then have x: ?X by (intro exI [of _ 2] conjI [OF _ conjI]) (simp, elim conjunct1, elim conjunct2)
  from w show ?thesis by (simp only: x simp_thms) (elim exE conjE, simp)
qed

end
