(* ===== verification/Lifecycle.thy ===== *)
theory Lifecycle imports Health begin

text \<open>
  \<open>(*Server).Run\<close> of \<^verbatim>\<open>server.go\<close> as a transition system.  One \<open>Run\<close> call, its serving goroutines,
  the callbacks of the framework (\<open>Init\<close>, \<open>SetHandler\<close>, \<open>OnConfigReload\<close>, \<open>Shutdown\<close>, the logs
  subscription), the connection callback of \<open>net/http\<close> and the cancellation of the caller's context
  interleave; a step is a critical section, an atomic store, or a call that blocks returning.

  \<open>net/http\<close> is modelled as far as \<open>Run\<close> uses it: \<open>Serve\<close> registers its listener unless the server is
  closing, returns \<open>ErrServerClosed\<close> once it is, may fail to accept at any time, and closes its listener
  when it returns; \<open>Close\<close> and \<open>Shutdown\<close> close the registered listeners, and \<open>Shutdown\<close> ends without an
  error, with its deadline or with another error.
\<close>

subsection \<open>The state\<close>

record run_snap =
  rn_handler :: nat
  rn_binds :: "string list"
  rn_read_timeout :: duration
  rn_write_timeout :: duration
  rn_idle_timeout :: duration
  rn_read_header_timeout :: duration
  rn_max_header_bytes :: int
  rn_shutdown_timeout :: duration
  rn_wait_for_health :: duration

definition no_snap :: run_snap where
  "no_snap = \<lparr>rn_handler = 0, rn_binds = [], rn_read_timeout = 0, rn_write_timeout = 0, rn_idle_timeout = 0,
     rn_read_header_timeout = 0, rn_max_header_bytes = 0, rn_shutdown_timeout = 0, rn_wait_for_health = 0\<rparr>"

text \<open>The locked entry of \<open>Run\<close>: its guards, the snapshot, and the server of run number \<open>run\<close>.\<close>

definition run_enter :: "nat \<Rightarrow> server \<Rightarrow> server_error + run_snap \<times> server" where
  "run_enter run c =
     (if \<not> sv_initialized c then Inl (ErrText ''cf_http: Run before Init'')
      else if sv_running c then Inl (ErrText ''cf_http: Run already active'')
      else case sv_handler c of
        None \<Rightarrow> Inl (ErrText ''cf_http: Run before SetHandler'')
      | Some h \<Rightarrow>
          Inr (\<lparr>rn_handler = h, rn_binds = sv_binds c, rn_read_timeout = sv_read_timeout c,
                rn_write_timeout = sv_write_timeout c, rn_idle_timeout = sv_idle_timeout c,
                rn_read_header_timeout = sv_read_header_timeout c, rn_max_header_bytes = sv_max_header_bytes c,
                rn_shutdown_timeout = sv_shutdown_timeout c, rn_wait_for_health = sv_wait_for_health c\<rparr>,
               c\<lparr>sv_running := True, sv_run_cancel := Some run, sv_restart_requested := False\<rparr>))"

datatype serve_error = ServerClosed | AcceptFailed string

definition normalize_server_error :: "serve_error \<Rightarrow> server_error option" where
  "normalize_server_error e = (case e of ServerClosed \<Rightarrow> None | AcceptFailed msg \<Rightarrow> Some (ErrServe msg))"

text \<open>A serving goroutine: not scheduled yet, serving, returned.\<close>

datatype serve_state = GNew | GServing | GDone

text \<open>The error of \<open>Shutdown\<close>, and whether the deadline of its context has passed when it is looked at.\<close>

datatype shutdown_result = ShutdownOk | ShutdownDeadline | ShutdownFailed string bool

datatype run_pc =
    RIdle
  | RChecking
  | RWaiting
  | RListening
  | ROpened
  | RStarted
  | RBound
  | RServing
  | RFailed "server_error option" "server_error option" nat    \<comment> \<open>\<open>first\<close>, \<open>last\<close>, results received\<close>
  | RStopping
  | RShutdown
  | RDraining shutdown_result "server_error option" nat        \<comment> \<open>\<open>shutdownErr\<close>, \<open>last\<close>, results received\<close>
  | RReturning "server_error option"
  | RCleared "server_error option"

record life =
  lf_cv :: "f64 \<Rightarrow> duration"
  lf_srv :: server
  lf_net :: netst
  lf_pc :: run_pc
  lf_run :: nat                             \<comment> \<open>the number of the current or next run\<close>
  lf_snap :: run_snap
  lf_lns :: "listener list"
  lf_outer :: "ctx_err option"              \<comment> \<open>the caller's context\<close>
  lf_ctx :: "ctx_err option"                \<comment> \<open>the run's context\<close>
  lf_closing :: bool                        \<comment> \<open>the \<open>http.Server\<close> is shutting down\<close>
  lf_serves :: "serve_state list"
  lf_errs :: "serve_error list"             \<comment> \<open>\<open>errCh\<close>\<close>
  lf_reloads :: "reload_rest list"          \<comment> \<open>reload handlers past their critical section\<close>
  lf_results :: "(nat \<times> server_error option) list"

definition tracked :: "listener list \<Rightarrow> serve_state list \<Rightarrow> listener list" where
  "tracked lns gs = map fst (filter (\<lambda>(ln, g). g = GServing) (zip lns gs))"

definition at_pc :: "run_pc \<Rightarrow> life \<Rightarrow> life" where
  "at_pc pc st = st\<lparr>lf_pc := pc\<rparr>"

definition on_srv :: "(server \<Rightarrow> server) \<Rightarrow> life \<Rightarrow> life" where
  "on_srv f st = st\<lparr>lf_srv := f (lf_srv st)\<rparr>"

definition first_error :: "ctx_err option \<Rightarrow> ctx_err \<Rightarrow> ctx_err option" where
  "first_error old e = (case old of None \<Rightarrow> Some e | Some x \<Rightarrow> Some x)"

text \<open>Calling the cancel function of a run: only the run that is active can notice.\<close>

definition cancel_run :: "nat option \<Rightarrow> life \<Rightarrow> life" where
  "cancel_run run st =
     (if run = Some (lf_run st) \<and> lf_pc st \<noteq> RIdle then st\<lparr>lf_ctx := first_error (lf_ctx st) Canceled\<rparr> else st)"

text \<open>\<open>Close\<close>, and the beginning of \<open>Shutdown\<close>.\<close>

definition begin_closing :: "life \<Rightarrow> life" where
  "begin_closing st = st\<lparr>lf_closing := True, lf_net := close_all (tracked (lf_lns st) (lf_serves st)) (lf_net st)\<rparr>"

text \<open>\<open>Serve\<close> returns in goroutine \<open>i\<close>: its deferred close and the send of its result.\<close>

definition serve_returns :: "nat \<Rightarrow> serve_error \<Rightarrow> life \<Rightarrow> life" where
  "serve_returns i e st =
     st\<lparr>lf_serves := (lf_serves st)[i := GDone], lf_errs := lf_errs st @ [e],
        lf_net := net_close (lf_lns st ! i) (lf_net st)\<rparr>"

definition last_error :: "serve_error \<Rightarrow> server_error option \<Rightarrow> server_error option" where
  "last_error e latest = (case normalize_server_error e of None \<Rightarrow> latest | Some x \<Rightarrow> Some x)"

definition shutdown_error :: "shutdown_result \<Rightarrow> server_error option" where
  "shutdown_error r =
     (case r of ShutdownOk \<Rightarrow> None | ShutdownDeadline \<Rightarrow> Some (ErrCtx DeadlineExceeded) | ShutdownFailed e late \<Rightarrow> Some (ErrText e))"

definition drain_timed_out :: "shutdown_result \<Rightarrow> bool" where
  "drain_timed_out r = (case r of ShutdownOk \<Rightarrow> False | ShutdownDeadline \<Rightarrow> True | ShutdownFailed e late \<Rightarrow> late)"

text \<open>What \<open>Run\<close> returns after the drain.\<close>

definition drain_result :: "shutdown_result \<Rightarrow> bool \<Rightarrow> server_error option \<Rightarrow> server_error option" where
  "drain_result r restart latest =
     (case shutdown_error r of
        Some e \<Rightarrow> Some e
      | None \<Rightarrow> if restart then Some ErrServerRestartRequired else latest)"

definition wait_return :: "server_error \<Rightarrow> server_error option" where
  "wait_return e = (if e = ErrCtx Canceled then None else Some e)"

subsection \<open>Steps\<close>

inductive life_step :: "life \<Rightarrow> life \<Rightarrow> bool" where
  do_init: "life_step st (on_srv (\<lambda>c. snd (init (lf_cv st) ctx fw c)) st)"
| do_set_handler: "life_step st (on_srv (set_handler h) st)"
| do_shutdown: "life_step st (on_srv shutdown st)"
| do_logs: "life_step st (on_srv (logs_reconfigured l) st)"
| do_conn: "life_step st (on_srv (on_conn_state cs) st)"
| do_reload: "reload_locked (lf_cv st) source cfg (lf_srv st) = (c, rest) \<Longrightarrow> rest \<noteq> ReloadNothing \<Longrightarrow>
    life_step st (st\<lparr>lf_srv := c, lf_reloads := rest # lf_reloads st\<rparr>)"
| do_reload_end: "lf_reloads st = before @ ReloadCount # after \<Longrightarrow>
    life_step st (on_srv count_reload (st\<lparr>lf_reloads := before @ after\<rparr>))"
| do_reload_cancel: "lf_reloads st = before @ ReloadCancel run # after \<Longrightarrow>
    life_step st (cancel_run run (st\<lparr>lf_reloads := before @ ReloadCount # after\<rparr>))"
| do_outer: "lf_pc st \<noteq> RIdle \<Longrightarrow> lf_outer st = None \<Longrightarrow>
    life_step st (st\<lparr>lf_outer := Some e, lf_ctx := first_error (lf_ctx st) e\<rparr>)"
| run_starts: "lf_pc st = RIdle \<Longrightarrow> run_enter (lf_run st) (lf_srv st) = Inr (snap, c) \<Longrightarrow>
    life_step st (st\<lparr>lf_pc := RChecking, lf_srv := c, lf_snap := snap, lf_lns := [], lf_outer := outer,
      lf_ctx := outer, lf_closing := False, lf_serves := [], lf_errs := []\<rparr>)"
| run_rejected_ctx: "lf_pc st = RChecking \<Longrightarrow> lf_outer st = Some e \<Longrightarrow>
    life_step st (at_pc (RReturning (Some (ErrCtx e))) st)"
| run_rejected_bind: "lf_pc st = RChecking \<Longrightarrow> lf_outer st = None \<Longrightarrow> rn_binds (lf_snap st) = [] \<Longrightarrow>
    life_step st (at_pc (RReturning (Some (ErrText ''cf_http: bind is required''))) st)"
| run_checked: "lf_pc st = RChecking \<Longrightarrow> lf_outer st = None \<Longrightarrow> rn_binds (lf_snap st) \<noteq> [] \<Longrightarrow>
    life_step st (at_pc (if sint (rn_wait_for_health (lf_snap st)) > 0 then RWaiting else RListening) st)"
| run_waited: "lf_pc st = RWaiting \<Longrightarrow>
    wait_for_health_providers env (sv_fw (lf_srv st)) (server_name (lf_srv st)) (rn_wait_for_health (lf_snap st)) = Some r \<Longrightarrow>
    (r = Some (ErrCtx Canceled) \<longrightarrow> lf_ctx st = Some Canceled) \<Longrightarrow>
    life_step st (at_pc (case r of None \<Rightarrow> RListening | Some e \<Rightarrow> RReturning (wait_return e)) st)"
| run_listen_fails: "lf_pc st = RListening \<Longrightarrow> listen_all (rn_binds (lf_snap st)) (lf_net st) = (Inl (a, e), net) \<Longrightarrow>
    life_step st (at_pc (RReturning (Some (ErrListen a e))) (st\<lparr>lf_net := net\<rparr>))"
| run_listens: "lf_pc st = RListening \<Longrightarrow> listen_all (rn_binds (lf_snap st)) (lf_net st) = (Inr lns, net) \<Longrightarrow>
    life_step st (at_pc ROpened (st\<lparr>lf_net := net, lf_lns := lns\<rparr>))"
| run_too_late: "lf_pc st = ROpened \<Longrightarrow> lf_ctx st = Some e \<Longrightarrow>
    life_step st (at_pc (RReturning (Some (ErrCtx e))) (st\<lparr>lf_net := close_all (lf_lns st) (lf_net st)\<rparr>))"
| run_counts: "lf_pc st = ROpened \<Longrightarrow> lf_ctx st = None \<Longrightarrow>
    life_step st (at_pc RStarted (on_srv (\<lambda>c. c\<lparr>sv_starts := sv_starts c + 1\<rparr>) st))"
| run_binds: "lf_pc st = RStarted \<Longrightarrow>
    life_step st (at_pc RBound (on_srv (\<lambda>c. c\<lparr>sv_bound_address := pick_bound_addr (lf_lns st)\<rparr>) st))"
| run_serves: "lf_pc st = RBound \<Longrightarrow>
    life_step st (at_pc RServing (on_srv (\<lambda>c. c\<lparr>sv_listening := True\<rparr>)
      (st\<lparr>lf_serves := replicate (length (lf_lns st)) GNew\<rparr>)))"
| serve_begins: "i < length (lf_serves st) \<Longrightarrow> lf_serves st ! i = GNew \<Longrightarrow> \<not> lf_closing st \<Longrightarrow>
    life_step st (st\<lparr>lf_serves := (lf_serves st)[i := GServing]\<rparr>)"
| serve_too_late: "i < length (lf_serves st) \<Longrightarrow> lf_serves st ! i = GNew \<Longrightarrow> lf_closing st \<Longrightarrow>
    life_step st (serve_returns i ServerClosed st)"
| serve_closed: "i < length (lf_serves st) \<Longrightarrow> lf_serves st ! i = GServing \<Longrightarrow> lf_closing st \<Longrightarrow>
    life_step st (serve_returns i ServerClosed st)"
| serve_fails: "i < length (lf_serves st) \<Longrightarrow> lf_serves st ! i = GServing \<Longrightarrow> \<not> lf_closing st \<Longrightarrow>
    life_step st (serve_returns i (AcceptFailed msg) st)"
| run_selects_error: "lf_pc st = RServing \<Longrightarrow> lf_errs st = e # es \<Longrightarrow>
    life_step st (at_pc (RFailed (normalize_server_error e) None 1) (begin_closing (st\<lparr>lf_errs := es\<rparr>)))"
| run_failed_receives: "lf_pc st = RFailed first latest k \<Longrightarrow> k < length (lf_lns st) \<Longrightarrow> lf_errs st = e # es \<Longrightarrow>
    life_step st (at_pc (RFailed first (last_error e latest) (Suc k)) (st\<lparr>lf_errs := es\<rparr>))"
| run_failed_returns: "lf_pc st = RFailed first latest k \<Longrightarrow> k = length (lf_lns st) \<Longrightarrow>
    life_step st (at_pc (RReturning (if first \<noteq> None then first else latest)) st)"
| run_selects_done: "lf_pc st = RServing \<Longrightarrow> lf_ctx st \<noteq> None \<Longrightarrow>
    life_step st (at_pc RStopping (on_srv (\<lambda>c. c\<lparr>sv_listening := False\<rparr>) st))"
| run_shuts_down: "lf_pc st = RStopping \<Longrightarrow> life_step st (at_pc RShutdown (begin_closing st))"
| run_shut_down: "lf_pc st = RShutdown \<Longrightarrow> life_step st (at_pc (RDraining r None 0) st)"
| run_drains: "lf_pc st = RDraining r latest k \<Longrightarrow> k < length (lf_lns st) \<Longrightarrow> lf_errs st = e # es \<Longrightarrow>
    life_step st (at_pc (RDraining r (last_error e latest) (Suc k)) (st\<lparr>lf_errs := es\<rparr>))"
| run_drained: "lf_pc st = RDraining r latest k \<Longrightarrow> k = length (lf_lns st) \<Longrightarrow>
    life_step st (at_pc (RReturning (drain_result r (sv_restart_requested (lf_srv st)) latest))
      (on_srv (\<lambda>c. if drain_timed_out r then c\<lparr>sv_drain_timeouts := sv_drain_timeouts c + 1\<rparr> else c) st))"
| run_clears: "lf_pc st = RReturning r \<Longrightarrow>
    life_step st (at_pc (RCleared r) (on_srv (\<lambda>c. c\<lparr>sv_listening := False\<rparr>) (st\<lparr>lf_ctx := first_error (lf_ctx st) Canceled\<rparr>)))"
| run_returns: "lf_pc st = RCleared r \<Longrightarrow>
    life_step st (at_pc RIdle (on_srv (\<lambda>c. c\<lparr>sv_running := False, sv_run_cancel := None, sv_bound_address := []\<rparr>)
      (st\<lparr>lf_run := Suc (lf_run st), lf_results := lf_results st @ [(lf_run st, r)]\<rparr>)))"

text \<open>A fresh server in a process with no listener of its own.\<close>

definition life_start :: "(f64 \<Rightarrow> duration) \<Rightarrow> option_fun list \<Rightarrow> netst \<Rightarrow> life" where
  "life_start cv opts net =
     \<lparr>lf_cv = cv, lf_srv = new_server cv opts, lf_net = net\<lparr>nt_open := []\<rparr>, lf_pc = RIdle, lf_run = 0,
      lf_snap = no_snap, lf_lns = [], lf_outer = None, lf_ctx = None, lf_closing = False, lf_serves = [],
      lf_errs = [], lf_reloads = [], lf_results = []\<rparr>"

inductive reachable :: "life \<Rightarrow> bool" where
  start: "reachable (life_start cv opts net)"
| step: "reachable st \<Longrightarrow> life_step st st' \<Longrightarrow> reachable st'"

inductive life_steps :: "life \<Rightarrow> life \<Rightarrow> bool" where
  refl: "life_steps st st"
| step: "life_step st st' \<Longrightarrow> life_steps st' st'' \<Longrightarrow> life_steps st st''"

end
