(* ===== verification/Life_Invariant.thy ===== *)
theory Life_Invariant imports Lifecycle begin

text \<open>
  The invariant of the life cycle, and what it gives in every reachable state: the flags of the server agree
  with the phase of \<open>Run\<close>, readiness implies a run that has opened its listeners, and no listener outlives its run.
\<close>

subsection \<open>Frames of the server operations\<close>

text \<open>The fields that belong to \<open>Run\<close>.\<close>

definition run_fields :: "server \<Rightarrow> bool \<times> nat option \<times> bool \<times> string" where
  "run_fields c = (sv_running c, sv_run_cancel c, sv_listening c, sv_bound_address c)"

lemma run_fields_unsubscribe [simp]: "run_fields (unsubscribe_logs c) = run_fields c"
  by (simp add: run_fields_def unsubscribe_logs_def)

lemma run_fields_apply [simp]: "run_fields (apply_config cv cfg c) = run_fields c"
  by (simp add: run_fields_def apply_config_def)

lemma run_fields_updates [simp]:
  "run_fields (c\<lparr>sv_initialized := b\<rparr>) = run_fields c" "run_fields (c\<lparr>sv_fw := fw\<rparr>) = run_fields c"
  "run_fields (c\<lparr>sv_logs_sub := b\<rparr>) = run_fields c" "run_fields (c\<lparr>sv_logger := l\<rparr>) = run_fields c"
  "run_fields (c\<lparr>sv_handler := h\<rparr>) = run_fields c" "run_fields (c\<lparr>sv_starts := n\<rparr>) = run_fields c"
  "run_fields (c\<lparr>sv_reloads := n\<rparr>) = run_fields c" "run_fields (c\<lparr>sv_connections := w\<rparr>) = run_fields c"
  "run_fields (c\<lparr>sv_hijacks := n\<rparr>) = run_fields c" "run_fields (c\<lparr>sv_drain_timeouts := n\<rparr>) = run_fields c"
  by (simp_all add: run_fields_def)

lemma run_fields_init [simp]: "run_fields (snd (init cv ctx fw c)) = run_fields c"
proof (cases "sv_initialized c")
  case True
  then show ?thesis by (simp add: init_def)
next
  case False
  have s: "run_fields (init_subscribe fw c) = run_fields c" by (simp add: init_subscribe_def Let_def)
  have a: "run_fields (snd (apply_config_from_source cv d)) = run_fields d" for d
    by (simp add: apply_config_from_source_def split: option.split)
  show ?thesis
    using s a [of "init_subscribe fw c"]
    by (auto simp: init_def Let_def split: option.split prod.split if_split)
qed

lemma run_fields_ops [simp]:
  "run_fields (set_handler h c) = run_fields c" "run_fields (shutdown c) = run_fields c"
  "run_fields (logs_reconfigured l c) = run_fields c" "run_fields (on_conn_state cs c) = run_fields c"
  "run_fields (count_reload c) = run_fields c"
  by (simp_all add: set_handler_def shutdown_def logs_reconfigured_def on_conn_state_def count_reload_def
      split: conn_state.split)

lemma run_fields_reload: "reload_locked cv source cfg c = (c', rest) \<Longrightarrow> run_fields c' = run_fields c"
  using reload_locked_frame [of cv source cfg c c' rest] by (simp add: run_fields_def)

subsection \<open>The invariant\<close>

definition listening_in :: "run_pc \<Rightarrow> bool \<Rightarrow> bool" where
  "listening_in pc b \<longleftrightarrow>
     (case pc of RServing \<Rightarrow> b | RFailed f l k \<Rightarrow> b | RReturning r \<Rightarrow> True | _ \<Rightarrow> \<not> b)"

definition bound_in :: "run_pc \<Rightarrow> bool" where
  "bound_in pc \<longleftrightarrow> pc \<notin> {RIdle, RChecking, RWaiting, RListening, ROpened, RStarted}"

fun fields_ok :: "run_pc \<Rightarrow> nat \<Rightarrow> bool \<times> nat option \<times> bool \<times> string \<Rightarrow> bool" where
  "fields_ok pc run (running, cancel, listening, bound) \<longleftrightarrow>
     (running \<longleftrightarrow> pc \<noteq> RIdle) \<and> cancel = (if pc = RIdle then None else Some run)
     \<and> listening_in pc listening \<and> (bound \<noteq> [] \<longrightarrow> bound_in pc)"

definition unfinished :: "listener list \<Rightarrow> serve_state list \<Rightarrow> listener list" where
  "unfinished lns gs = map fst (filter (\<lambda>(ln, g). g \<noteq> GDone) (zip lns gs))"

definition done_count :: "serve_state list \<Rightarrow> nat" where
  "done_count gs = length (filter (\<lambda>g. g = GDone) gs)"

text \<open>While goroutines may run: one per listener, results accounted for, closed listeners done.\<close>

definition serves_ok :: "nat \<Rightarrow> life \<Rightarrow> bool" where
  "serves_ok k st \<longleftrightarrow>
     length (lf_serves st) = length (lf_lns st) \<and> done_count (lf_serves st) = k + length (lf_errs st)
     \<and> set (nt_open (lf_net st)) \<subseteq> set (unfinished (lf_lns st) (lf_serves st))"

text \<open>Before anything is closed the open listeners are exactly those whose goroutine has not returned.\<close>

definition serves_open :: "life \<Rightarrow> bool" where
  "serves_open st \<longleftrightarrow>
     \<not> lf_closing st \<and> nt_open (lf_net st) = unfinished (lf_lns st) (lf_serves st)
     \<and> distinct (map ln_id (lf_lns st)) \<and> ServerClosed \<notin> set (lf_errs st)"

definition quiet :: "life \<Rightarrow> bool" where
  "quiet st \<longleftrightarrow> nt_open (lf_net st) = [] \<and> set (lf_serves st) \<subseteq> {GDone}"

definition opened :: "life \<Rightarrow> bool" where
  "opened st \<longleftrightarrow>
     nt_open (lf_net st) = lf_lns st \<and> distinct (map ln_id (lf_lns st)) \<and> lf_serves st = [] \<and> lf_errs st = []
     \<and> \<not> lf_closing st"

definition has_listeners :: "life \<Rightarrow> bool" where
  "has_listeners st \<longleftrightarrow> length (lf_lns st) = length (rn_binds (lf_snap st)) \<and> lf_lns st \<noteq> []"

definition phase_ok :: "life \<Rightarrow> bool" where
  "phase_ok st \<longleftrightarrow>
     (case lf_pc st of
        RIdle \<Rightarrow> quiet st
      | RChecking \<Rightarrow> quiet st \<and> lf_serves st = [] \<and> lf_errs st = [] \<and> \<not> lf_closing st
      | RWaiting \<Rightarrow> quiet st \<and> lf_serves st = [] \<and> lf_errs st = [] \<and> \<not> lf_closing st \<and> rn_binds (lf_snap st) \<noteq> []
      | RListening \<Rightarrow> quiet st \<and> lf_serves st = [] \<and> lf_errs st = [] \<and> \<not> lf_closing st \<and> rn_binds (lf_snap st) \<noteq> []
      | ROpened \<Rightarrow> opened st \<and> has_listeners st
      | RStarted \<Rightarrow> opened st \<and> has_listeners st
      | RBound \<Rightarrow> opened st \<and> has_listeners st
      | RServing \<Rightarrow> serves_ok 0 st \<and> serves_open st \<and> has_listeners st
      | RFailed f l k \<Rightarrow> serves_ok k st \<and> lf_closing st \<and> f \<noteq> None \<and> has_listeners st
      | RStopping \<Rightarrow> serves_ok 0 st \<and> serves_open st \<and> has_listeners st
      | RShutdown \<Rightarrow> serves_ok 0 st \<and> lf_closing st \<and> has_listeners st
      | RDraining r l k \<Rightarrow> serves_ok k st \<and> lf_closing st \<and> has_listeners st
      | RReturning r \<Rightarrow> quiet st
      | RCleared r \<Rightarrow> quiet st)"

definition life_inv :: "life \<Rightarrow> bool" where
  "life_inv st \<longleftrightarrow>
     net_inv (lf_net st) \<and> fields_ok (lf_pc st) (lf_run st) (run_fields (lf_srv st)) \<and> phase_ok st"

subsection \<open>Lemmas on listeners and goroutines\<close>

lemma nt_calls_close [simp]: "nt_calls (net_close x st) = nt_calls st"
  by (simp add: net_close_def)

lemma nt_calls_close_all [simp]: "nt_calls (close_all xs st) = nt_calls st"
  by (induction xs arbitrary: st) simp_all

lemma net_inv_close [simp]: "net_inv st \<Longrightarrow> net_inv (net_close x st)"
  by (simp add: net_inv_def) (simp add: net_close_def)

lemma net_inv_close_all [simp]: "net_inv st \<Longrightarrow> net_inv (close_all xs st)"
  by (simp add: net_inv_def close_all_open)

lemma unfinished_iff: "x \<in> set (unfinished lns gs) \<longleftrightarrow> (\<exists>i<length lns. i < length gs \<and> lns ! i = x \<and> gs ! i \<noteq> GDone)"
  by (force simp: unfinished_def set_zip)

lemma done_count_all: "done_count gs = length gs \<longleftrightarrow> set gs \<subseteq> {GDone}"
  by (induction gs) (auto simp: done_count_def le_imp_less_Suc less_imp_neq)

lemma done_count_le: "done_count gs \<le> length gs"
  by (simp add: done_count_def)

lemma done_count_new: "i < length gs \<Longrightarrow> gs ! i \<noteq> GDone \<Longrightarrow> done_count (gs[i := GDone]) = Suc (done_count gs)"
proof (induction gs arbitrary: i)
  case Nil
  then show ?case by simp
next
  case (Cons g gs)
  then show ?case by (cases i) (auto simp: done_count_def)
qed

lemma done_count_same: "i < length gs \<Longrightarrow> gs ! i \<noteq> GDone \<Longrightarrow> g \<noteq> GDone \<Longrightarrow> done_count (gs[i := g]) = done_count gs"
proof (induction gs arbitrary: i)
  case Nil
  then show ?case by simp
next
  case (Cons h gs)
  then show ?case by (cases i) (auto simp: done_count_def)
qed

lemma unfinished_same:
  "i < length gs \<Longrightarrow> gs ! i \<noteq> GDone \<Longrightarrow> g \<noteq> GDone \<Longrightarrow> unfinished lns (gs[i := g]) = unfinished lns gs"
proof (induction gs arbitrary: i lns)
  case Nil
  then show ?case by simp
next
  case (Cons h gs)
  then show ?case by (cases i; cases lns) (auto simp: unfinished_def)
qed

lemma unfinished_replicate: "n = length lns \<Longrightarrow> unfinished lns (replicate n GNew) = lns"
  by (induction lns arbitrary: n) (auto simp: unfinished_def)

lemma filter_unfinished:
  "distinct (map ln_id lns) \<Longrightarrow> length gs = length lns \<Longrightarrow> i < length gs \<Longrightarrow>
   filter (\<lambda>x. ln_id x \<noteq> ln_id (lns ! i)) (unfinished lns gs) = unfinished lns (gs[i := GDone])"
proof (induction gs arbitrary: i lns)
  case Nil
  then show ?case by simp
next
  case (Cons g gs)
  then obtain l ls where lns: "lns = l # ls" by (cases lns) auto
  show ?case
  proof (cases i)
    case 0
    have "filter (\<lambda>x. ln_id x \<noteq> ln_id l) (unfinished ls gs) = unfinished ls gs"
      using Cons.prems(1) unfolding filter_id_conv lns
      by (auto simp: unfinished_iff) (metis image_eqI nth_mem)
    then show ?thesis using 0 by (simp add: lns unfinished_def)
  next
    case (Suc j)
    then have "ln_id l \<noteq> ln_id (ls ! j)" using Cons.prems by (auto simp: lns image_iff)
    then show ?thesis using Suc Cons.prems Cons.IH [of ls j] by (simp add: lns unfinished_def)
  qed
qed

lemma subset_unfinished:
  assumes "set xs \<subseteq> set (unfinished lns gs)" "i < length gs" "length gs = length lns"
  shows "{x \<in> set xs. ln_id x \<noteq> ln_id (lns ! i)} \<subseteq> set (unfinished lns (gs[i := GDone]))"
  using assms by (auto simp: unfinished_iff subset_iff) (metis nth_list_update_neq)

lemma unfinished_done: "set gs \<subseteq> {GDone} \<Longrightarrow> unfinished lns gs = []"
  by (auto simp: unfinished_def filter_empty_conv dest: set_zip_rightD)

text \<open>The listeners of one \<open>listenAll\<close> have different numbers.\<close>

lemma listen_loop_distinct:
  "listen_loop lns as st = (Inr r, st') \<Longrightarrow> distinct (map ln_id lns) \<Longrightarrow> \<forall>x \<in> set lns. ln_id x < nt_calls st \<Longrightarrow>
   distinct (map ln_id r)"
proof (induction lns as st rule: listen_loop.induct)
  case (1 lns st)
  then show ?case by simp
next
  case (2 lns a as st)
  obtain r1 st1 where l: "net_listen a st = (r1, st1)" by fastforce
  show ?case
  proof (cases r1)
    case (Inl e)
    then show ?thesis using 2(2) l by simp
  next
    case (Inr ln)
    note ok = net_listen_ok [OF l [unfolded Inr]]
    have "distinct (map ln_id (lns @ [ln]))" using 2(3,4) ok by auto
    moreover have "\<forall>x \<in> set (lns @ [ln]). ln_id x < nt_calls st1" using 2(4) ok by auto
    ultimately show ?thesis using 2(1) [OF l [symmetric] Inr] 2(2) l Inr by simp
  qed
qed


subsection \<open>Every step keeps the invariant\<close>

lemmas phase_defs = phase_ok_def quiet_def opened_def serves_ok_def serves_open_def has_listeners_def

lemma on_srv_simps [simp]:
  "lf_cv (on_srv f st) = lf_cv st" "lf_srv (on_srv f st) = f (lf_srv st)" "lf_net (on_srv f st) = lf_net st"
  "lf_pc (on_srv f st) = lf_pc st" "lf_run (on_srv f st) = lf_run st" "lf_snap (on_srv f st) = lf_snap st"
  "lf_lns (on_srv f st) = lf_lns st" "lf_outer (on_srv f st) = lf_outer st" "lf_ctx (on_srv f st) = lf_ctx st"
  "lf_closing (on_srv f st) = lf_closing st" "lf_serves (on_srv f st) = lf_serves st"
  "lf_errs (on_srv f st) = lf_errs st" "lf_reloads (on_srv f st) = lf_reloads st" "lf_results (on_srv f st) = lf_results st"
  by (simp_all add: on_srv_def)

lemma at_pc_simps [simp]:
  "lf_cv (at_pc pc st) = lf_cv st" "lf_srv (at_pc pc st) = lf_srv st" "lf_net (at_pc pc st) = lf_net st"
  "lf_pc (at_pc pc st) = pc" "lf_run (at_pc pc st) = lf_run st" "lf_snap (at_pc pc st) = lf_snap st"
  "lf_lns (at_pc pc st) = lf_lns st" "lf_outer (at_pc pc st) = lf_outer st" "lf_ctx (at_pc pc st) = lf_ctx st"
  "lf_closing (at_pc pc st) = lf_closing st" "lf_serves (at_pc pc st) = lf_serves st"
  "lf_errs (at_pc pc st) = lf_errs st" "lf_reloads (at_pc pc st) = lf_reloads st" "lf_results (at_pc pc st) = lf_results st"
  by (simp_all add: at_pc_def)

lemma begin_closing_simps [simp]:
  "lf_cv (begin_closing st) = lf_cv st" "lf_srv (begin_closing st) = lf_srv st"
  "lf_net (begin_closing st) = close_all (tracked (lf_lns st) (lf_serves st)) (lf_net st)"
  "lf_pc (begin_closing st) = lf_pc st" "lf_run (begin_closing st) = lf_run st" "lf_snap (begin_closing st) = lf_snap st"
  "lf_lns (begin_closing st) = lf_lns st" "lf_outer (begin_closing st) = lf_outer st" "lf_ctx (begin_closing st) = lf_ctx st"
  "lf_closing (begin_closing st)" "lf_serves (begin_closing st) = lf_serves st"
  "lf_errs (begin_closing st) = lf_errs st" "lf_reloads (begin_closing st) = lf_reloads st"
  "lf_results (begin_closing st) = lf_results st"
  by (simp_all add: begin_closing_def)

lemma serve_returns_simps [simp]:
  "lf_cv (serve_returns i e st) = lf_cv st" "lf_srv (serve_returns i e st) = lf_srv st"
  "lf_net (serve_returns i e st) = net_close (lf_lns st ! i) (lf_net st)"
  "lf_pc (serve_returns i e st) = lf_pc st" "lf_run (serve_returns i e st) = lf_run st"
  "lf_snap (serve_returns i e st) = lf_snap st" "lf_lns (serve_returns i e st) = lf_lns st"
  "lf_outer (serve_returns i e st) = lf_outer st" "lf_ctx (serve_returns i e st) = lf_ctx st"
  "lf_closing (serve_returns i e st) = lf_closing st"
  "lf_serves (serve_returns i e st) = (lf_serves st)[i := GDone]" "lf_errs (serve_returns i e st) = lf_errs st @ [e]"
  "lf_reloads (serve_returns i e st) = lf_reloads st" "lf_results (serve_returns i e st) = lf_results st"
  by (simp_all add: serve_returns_def)

lemma cancel_run_simps [simp]:
  "lf_cv (cancel_run r st) = lf_cv st" "lf_srv (cancel_run r st) = lf_srv st" "lf_net (cancel_run r st) = lf_net st"
  "lf_pc (cancel_run r st) = lf_pc st" "lf_run (cancel_run r st) = lf_run st" "lf_snap (cancel_run r st) = lf_snap st"
  "lf_lns (cancel_run r st) = lf_lns st" "lf_closing (cancel_run r st) = lf_closing st"
  "lf_serves (cancel_run r st) = lf_serves st" "lf_errs (cancel_run r st) = lf_errs st"
  "lf_reloads (cancel_run r st) = lf_reloads st" "lf_results (cancel_run r st) = lf_results st"
  by (simp_all add: cancel_run_def)

text \<open>Two states that agree on what a phase speaks of.\<close>

lemma phase_cong:
  assumes "lf_pc st' = lf_pc st" "lf_net st' = lf_net st" "lf_lns st' = lf_lns st" "lf_serves st' = lf_serves st"
    "lf_errs st' = lf_errs st" "lf_closing st' = lf_closing st" "lf_snap st' = lf_snap st"
  shows "phase_ok st' = phase_ok st"
  unfolding phase_defs assms ..

lemma env_step_inv:
  assumes "life_inv st" "lf_pc st' = lf_pc st" "lf_net st' = lf_net st" "lf_lns st' = lf_lns st"
    "lf_serves st' = lf_serves st" "lf_errs st' = lf_errs st" "lf_closing st' = lf_closing st"
    "lf_snap st' = lf_snap st" "lf_run st' = lf_run st" "run_fields (lf_srv st') = run_fields (lf_srv st)"
  shows "life_inv st'"
  using assms(1) phase_cong [OF assms(2-8)] unfolding life_inv_def assms(2,3,9,10) by simp

text \<open>A goroutine returns while its result is still awaited.\<close>

lemma serves_ok_returns:
  assumes "serves_ok k st" "i < length (lf_serves st)" "lf_serves st ! i \<noteq> GDone"
  shows "serves_ok k (serve_returns i e st)"
proof -
  have o: "nt_open (net_close (lf_lns st ! i) (lf_net st)) = filter (\<lambda>x. ln_id x \<noteq> ln_id (lf_lns st ! i)) (nt_open (lf_net st))"
    by (simp add: net_close_def)
  have "set (nt_open (net_close (lf_lns st ! i) (lf_net st))) \<subseteq> set (unfinished (lf_lns st) ((lf_serves st)[i := GDone]))"
    unfolding o using subset_unfinished [of "nt_open (lf_net st)" "lf_lns st" "lf_serves st" i] assms
    by (simp add: serves_ok_def)
  then show ?thesis using assms done_count_new [OF assms(2,3)] by (simp add: serves_ok_def)
qed

lemma serves_open_returns:
  assumes "serves_ok k st" "serves_open st" "i < length (lf_serves st)" "e \<noteq> ServerClosed"
  shows "serves_open (serve_returns i e st)"
  using assms filter_unfinished [of "lf_lns st" "lf_serves st" i]
  by (auto simp: serves_open_def serves_ok_def net_close_def)

lemma serves_ok_closing: "serves_ok k st \<Longrightarrow> serves_ok k (begin_closing st)"
  by (auto simp: serves_ok_def close_all_open)

lemma serve_step_phase:
  assumes "phase_ok st" "i < length (lf_serves st)" "lf_serves st ! i \<noteq> GDone" "e = ServerClosed \<longleftrightarrow> lf_closing st"
  shows "phase_ok (serve_returns i e st)"
proof -
  have d: "\<not> set (lf_serves st) \<subseteq> {GDone}" using assms(2,3) nth_mem by fastforce
  have l: "lf_serves st \<noteq> []" using assms(2) by auto
  have h: "has_listeners (serve_returns i e st) = has_listeners st" for e by (simp add: has_listeners_def)
  show ?thesis
    using assms d l serves_ok_returns [OF _ assms(2,3)] serves_open_returns [OF _ _ assms(2)]
    by (cases "lf_pc st") (auto simp: phase_ok_def quiet_def opened_def serves_open_def h)
qed

lemma serve_begin_phase:
  assumes "phase_ok st" "i < length (lf_serves st)" "lf_serves st ! i = GNew"
  shows "phase_ok (st\<lparr>lf_serves := (lf_serves st)[i := GServing]\<rparr>)"
proof -
  have d: "\<not> set (lf_serves st) \<subseteq> {GDone}" using assms(2,3) nth_mem by fastforce
  have l: "lf_serves st \<noteq> []" using assms(2) by auto
  show ?thesis
    using assms d l by (cases "lf_pc st") (simp_all add: phase_defs unfinished_same done_count_same)
qed

lemma serves_all_done:
  assumes "serves_ok (length (lf_lns st)) st"
  shows "quiet st"
proof -
  have "done_count (lf_serves st) = length (lf_serves st)"
    using assms done_count_le [of "lf_serves st"] by (simp add: serves_ok_def)
  then have "set (lf_serves st) \<subseteq> {GDone}" by (simp add: done_count_all)
  moreover from this have "nt_open (lf_net st) = []" using assms by (simp add: serves_ok_def unfinished_done)
  ultimately show ?thesis by (simp add: quiet_def)
qed

lemma run_enter_fields:
  "run_enter run c = Inr (snap, c') \<Longrightarrow> fields_ok RIdle run (run_fields c) \<Longrightarrow>
   fields_ok RChecking run (run_fields c') \<and> rn_binds snap = sv_binds c"
  by (auto simp: run_enter_def run_fields_def listening_in_def bound_in_def split: if_splits option.splits)

lemma fields_pc:
  "fields_ok pc run f \<Longrightarrow> pc \<noteq> RIdle \<Longrightarrow> pc' \<noteq> RIdle \<Longrightarrow> (bound_in pc \<Longrightarrow> bound_in pc') \<Longrightarrow>
   (\<And>b. listening_in pc b \<Longrightarrow> listening_in pc' b) \<Longrightarrow> fields_ok pc' run f"
  by (cases f) auto

lemma serves_ok_at [simp]: "serves_ok k (at_pc pc st) = serves_ok k st"
  by (simp add: serves_ok_def)

lemmas fields_defs = run_fields_def listening_in_def bound_in_def

lemma life_step_inv: "life_step st st' \<Longrightarrow> life_inv st \<Longrightarrow> life_inv st'"
proof (induction rule: life_step.induct)
  case (do_init st ctx fw)
  then show ?case by (rule env_step_inv) simp_all
next
  case (do_set_handler st h)
  then show ?case by (rule env_step_inv) simp_all
next
  case (do_shutdown st)
  then show ?case by (rule env_step_inv) simp_all
next
  case (do_logs st l)
  then show ?case by (rule env_step_inv) simp_all
next
  case (do_conn st cs)
  then show ?case by (rule env_step_inv) simp_all
next
  case (do_reload st source cfg c rest)
  from do_reload(3) show ?case by (rule env_step_inv) (simp_all add: run_fields_reload [OF do_reload(1)])
next
  case (do_reload_end st before "after")
  from do_reload_end(2) show ?case by (rule env_step_inv) simp_all
next
  case (do_reload_cancel st before run "after")
  from do_reload_cancel(2) show ?case by (rule env_step_inv) simp_all
next
  case (do_outer st e)
  from do_outer(3) show ?case by (rule env_step_inv) simp_all
next
  case (run_starts st snap c outer)
  then have "fields_ok RChecking (lf_run st) (run_fields c)"
    using run_enter_fields [OF run_starts(2)] by (simp add: life_inv_def)
  with run_starts show ?case by (simp add: life_inv_def phase_defs)
next
  case (run_rejected_ctx st e)
  then show ?case by (auto simp: life_inv_def phase_defs fields_defs)
next
  case (run_rejected_bind st)
  then show ?case by (auto simp: life_inv_def phase_defs fields_defs)
next
  case (run_checked st)
  then show ?case by (auto simp: life_inv_def phase_defs fields_defs)
next
  case (run_waited st env r)
  then show ?case by (auto simp: life_inv_def phase_defs fields_defs split: option.split)
next
  case (run_listen_fails st a e net)
  then have n: "net_inv net" "nt_open net = nt_open (lf_net st)"
    using listen_all_no_leak [OF _ run_listen_fails(2)] by (auto simp: life_inv_def)
  with run_listen_fails show ?case by (auto simp: life_inv_def phase_defs fields_defs)
next
  case (run_listens st lns net)
  then have i: "net_inv (lf_net st)" and q: "nt_open (lf_net st) = []" "rn_binds (lf_snap st) \<noteq> []"
    by (simp_all add: life_inv_def phase_defs)
  have n: "net_inv net" "nt_open net = lns" "length lns = length (rn_binds (lf_snap st))"
    using listen_all_no_leak [OF i run_listens(2)] q by simp_all
  have d: "distinct (map ln_id lns)"
    using listen_loop_distinct [of "[]" "rn_binds (lf_snap st)" "lf_net st" lns net] run_listens(2)
    by (simp add: listen_all_def)
  show ?case using run_listens n d q(2) by (auto simp: life_inv_def phase_defs fields_defs)
next
  case (run_too_late st e)
  then have "nt_open (close_all (lf_lns st) (lf_net st)) = []"
    by (simp add: life_inv_def phase_defs close_all_open filter_empty_conv)
  with run_too_late show ?case by (auto simp: life_inv_def phase_defs fields_defs)
next
  case (run_counts st)
  then show ?case by (auto simp: life_inv_def phase_defs fields_defs)
next
  case (run_binds st)
  then show ?case by (auto simp: life_inv_def phase_defs fields_defs)
next
  case (run_serves st)
  then show ?case
    by (auto simp: life_inv_def phase_defs fields_defs unfinished_replicate done_count_def)
next
  case (serve_begins i st)
  then show ?case using serve_begin_phase [of st i] by (simp add: life_inv_def)
next
  case (serve_too_late i st)
  then show ?case using serve_step_phase [of st i ServerClosed] by (simp add: life_inv_def)
next
  case (serve_closed i st)
  then show ?case using serve_step_phase [of st i ServerClosed] by (simp add: life_inv_def)
next
  case (serve_fails i st msg)
  then show ?case using serve_step_phase [of st i "AcceptFailed msg"] by (simp add: life_inv_def)
next
  case (run_selects_error st e es)
  then have s: "serves_ok 0 st" "serves_open st" "has_listeners st" by (simp_all add: life_inv_def phase_ok_def)
  have "serves_ok 1 (st\<lparr>lf_errs := es\<rparr>)" using s(1) run_selects_error(2) by (simp add: serves_ok_def)
  then have "serves_ok 1 (begin_closing (st\<lparr>lf_errs := es\<rparr>))" by (rule serves_ok_closing)
  moreover have "normalize_server_error e \<noteq> None"
    using s(2) run_selects_error(2) by (cases e) (auto simp: serves_open_def normalize_server_error_def)
  ultimately show ?case using run_selects_error s(3)
    by (simp add: life_inv_def phase_ok_def has_listeners_def fields_defs)
next
  case (run_failed_receives st first latest k e es)
  then show ?case by (auto simp: life_inv_def phase_defs fields_defs)
next
  case (run_failed_returns st first latest k)
  then have "quiet st" by (intro serves_all_done) (simp add: life_inv_def phase_ok_def)
  then have "phase_ok (at_pc (RReturning r) st)" for r by (simp add: phase_ok_def quiet_def)
  with run_failed_returns show ?case by (simp add: life_inv_def fields_defs)
next
  case (run_selects_done st)
  then show ?case by (auto simp: life_inv_def phase_defs fields_defs)
next
  case (run_shuts_down st)
  then have s: "serves_ok 0 st" "has_listeners st" by (simp_all add: life_inv_def phase_ok_def)
  then have "serves_ok 0 (begin_closing st)" by (intro serves_ok_closing)
  then show ?case using run_shuts_down s(2)
    by (simp add: life_inv_def phase_ok_def has_listeners_def fields_defs)
next
  case (run_shut_down st r)
  then show ?case by (auto simp: life_inv_def phase_defs fields_defs)
next
  case (run_drains st r latest k e es)
  then show ?case by (auto simp: life_inv_def phase_defs fields_defs)
next
  case (run_drained st r latest k)
  then have "quiet st" by (intro serves_all_done) (simp add: life_inv_def phase_ok_def)
  then have "phase_ok (at_pc (RReturning x) (on_srv f st))" for x f by (simp add: phase_ok_def quiet_def)
  with run_drained show ?case by (auto simp: life_inv_def fields_defs)
next
  case (run_clears st r)
  then show ?case by (auto simp: life_inv_def phase_defs fields_defs)
next
  case (run_returns st r)
  then show ?case by (auto simp: life_inv_def phase_defs fields_defs)
qed

lemma life_start_inv: "life_inv (life_start cv opts net)"
proof -
  have "run_fields (new_server cv opts) = (False, None, False, [])"
    by (simp add: new_server_def Let_def run_fields_def apply_config_def split: option.split)
  then show ?thesis
    by (simp add: life_inv_def phase_defs listening_in_def life_start_def net_inv_def)
qed

lemma reachable_inv: "reachable st \<Longrightarrow> life_inv st"
  by (induction rule: reachable.induct) (simp_all add: life_start_inv life_step_inv)

end
