(* ===== verification/Life_Props.thy ===== *)
theory Life_Props imports Life_Invariant begin

text \<open>
  What the life cycle guarantees: readiness, cleanliness between runs, refinement of a four-phase
  specification, that a run can always finish, and what becomes of a requested restart.
\<close>

subsection \<open>Readiness and cleanliness\<close>

lemma unfinished_all: "length gs = length lns \<Longrightarrow> GDone \<notin> set gs \<Longrightarrow> unfinished lns gs = lns"
  by (induction gs lns rule: list_induct2) (auto simp: unfinished_def)

text \<open>
  C30.  What readiness means.  In every reachable state in which \<open>Health\<close> reports no error the server is
  initialised, has a handler and an active run that has opened its listeners and started to serve.  While
  that run serves, exactly the listeners whose goroutine has not returned are open: one per configured
  address, as long as no goroutine has returned.  Once a goroutine has failed, readiness does not mean open
  listeners: the run closes them and stays ready until it returns (\<open>ready_while_closed\<close>).
\<close>

theorem ready_means_listening:
  assumes "reachable st" "health ctx (lf_srv st) = None"
  shows "sv_initialized (lf_srv st) \<and> sv_handler (lf_srv st) \<noteq> None \<and> sv_running (lf_srv st)
    \<and> (lf_pc st = RServing \<or> (\<exists>f l k. lf_pc st = RFailed f l k) \<or> (\<exists>r. lf_pc st = RReturning r))
    \<and> (lf_pc st = RServing \<longrightarrow> nt_open (lf_net st) = unfinished (lf_lns st) (lf_serves st))
    \<and> (lf_pc st = RServing \<and> lf_errs st = [] \<longrightarrow>
         nt_open (lf_net st) = lf_lns st \<and> lf_lns st \<noteq> []
         \<and> length (lf_lns st) = length (rn_binds (lf_snap st)))"
proof -
  have inv: "life_inv st" using assms(1) by (rule reachable_inv)
  have h: "sv_initialized (lf_srv st)" "sv_handler (lf_srv st) \<noteq> None" "sv_listening (lf_srv st)"
    using assms(2) by (auto simp: health_def split: option.splits if_splits)
  have f: "sv_running (lf_srv st) \<longleftrightarrow> lf_pc st \<noteq> RIdle" "listening_in (lf_pc st) True"
    using inv h(3) by (auto simp: life_inv_def run_fields_def)
  have pc: "lf_pc st = RServing \<or> (\<exists>f l k. lf_pc st = RFailed f l k) \<or> (\<exists>r. lf_pc st = RReturning r)"
    using f(2) by (cases "lf_pc st") (auto simp: listening_in_def)
  have "nt_open (lf_net st) = lf_lns st" if "lf_pc st = RServing" "lf_errs st = []"
  proof -
    have s: "serves_ok 0 st" "serves_open st" using inv that(1) by (simp_all add: life_inv_def phase_ok_def)
    then have "done_count (lf_serves st) = 0" "length (lf_serves st) = length (lf_lns st)"
      using that(2) by (simp_all add: serves_ok_def)
    then have "unfinished (lf_lns st) (lf_serves st) = lf_lns st"
      by (intro unfinished_all) (auto simp: done_count_def filter_empty_conv)
    with s(2) show ?thesis by (simp add: serves_open_def)
  qed
  moreover have "nt_open (lf_net st) = unfinished (lf_lns st) (lf_serves st)" if "lf_pc st = RServing"
    using inv that by (simp add: life_inv_def phase_ok_def serves_open_def)
  moreover have "has_listeners st" if "lf_pc st = RServing" using inv that by (simp add: life_inv_def phase_ok_def)
  ultimately show ?thesis using h f(1) pc by (auto simp: has_listeners_def)
qed

text \<open>
  C31.  No run leaves anything behind.  In every reachable state in which no \<open>Run\<close> is active no listener is
  open, every serving goroutine has returned, and the flags, the reported address and the cancel
  function of the run are cleared.
\<close>

theorem idle_is_clean:
  assumes "reachable st" "lf_pc st = RIdle"
  shows "nt_open (lf_net st) = [] \<and> set (lf_serves st) \<subseteq> {GDone}
    \<and> \<not> sv_running (lf_srv st) \<and> \<not> sv_listening (lf_srv st) \<and> sv_run_cancel (lf_srv st) = None
    \<and> sv_bound_address (lf_srv st) = []"
  using reachable_inv [OF assms(1)] assms(2)
  by (auto simp: life_inv_def phase_ok_def quiet_def run_fields_def listening_in_def bound_in_def)

subsection \<open>Refinement of a four-phase specification\<close>

datatype phase = Down | Starting | Ready | Stopping

definition phase_of :: "run_pc \<Rightarrow> phase" where
  "phase_of pc =
     (case pc of
        RIdle \<Rightarrow> Down
      | RChecking \<Rightarrow> Starting | RWaiting \<Rightarrow> Starting | RListening \<Rightarrow> Starting
      | ROpened \<Rightarrow> Starting | RStarted \<Rightarrow> Starting | RBound \<Rightarrow> Starting
      | RServing \<Rightarrow> Ready
      | _ \<Rightarrow> Stopping)"

text \<open>The specification: a server that is down can start, and goes down again through stopping; one run
  is counted each time round.\<close>

inductive spec_step :: "phase \<times> nat \<Rightarrow> phase \<times> nat \<Rightarrow> bool" where
  "spec_step (Down, n) (Starting, n)"
| "spec_step (Starting, n) (Ready, n)"
| "spec_step (Starting, n) (Stopping, n)"
| "spec_step (Ready, n) (Stopping, n)"
| "spec_step (Stopping, n) (Down, Suc n)"

inductive_simps spec_step_simps [simp]: "spec_step (a, n) (b, m)"

definition spec_of :: "life \<Rightarrow> phase \<times> nat" where
  "spec_of st = (phase_of (lf_pc st), lf_run st)"

text \<open>
  C32.  \<open>Run\<close> refines the specification.  Every step of the server is a step of the four-phase specification
  or leaves its state alone, and in every reachable state the flags tell the phase: running unless down,
  listening when ready and never while down or starting; listeners are open in no other case than a
  server that is not down.
\<close>

theorem run_refines_phases:
  assumes "reachable st" "life_step st st'"
  shows "(spec_of st' = spec_of st \<or> spec_step (spec_of st) (spec_of st'))
    \<and> (sv_running (lf_srv st) \<longleftrightarrow> fst (spec_of st) \<noteq> Down)
    \<and> (fst (spec_of st) = Ready \<longrightarrow> sv_listening (lf_srv st))
    \<and> (sv_listening (lf_srv st) \<longrightarrow> fst (spec_of st) \<in> {Ready, Stopping})
    \<and> (nt_open (lf_net st) \<noteq> [] \<longrightarrow> fst (spec_of st) \<noteq> Down)"
proof -
  have inv: "life_inv st" using assms(1) by (rule reachable_inv)
  have "spec_of st' = spec_of st \<or> spec_step (spec_of st) (spec_of st')"
    using assms(2) by cases (auto simp: spec_of_def phase_of_def split: option.split)
  moreover have "(sv_running (lf_srv st) \<longleftrightarrow> phase_of (lf_pc st) \<noteq> Down)
      \<and> (phase_of (lf_pc st) = Ready \<longrightarrow> sv_listening (lf_srv st))
      \<and> (sv_listening (lf_srv st) \<longrightarrow> phase_of (lf_pc st) \<in> {Ready, Stopping})"
    using inv by (cases "lf_pc st") (auto simp: life_inv_def run_fields_def listening_in_def phase_of_def)
  moreover have "nt_open (lf_net st) \<noteq> [] \<longrightarrow> phase_of (lf_pc st) \<noteq> Down"
    using inv by (cases "lf_pc st") (auto simp: life_inv_def phase_ok_def quiet_def phase_of_def)
  ultimately show ?thesis by (simp add: spec_of_def)
qed

subsection \<open>A run can always finish\<close>

lemma life_steps_trans: "life_steps a b \<Longrightarrow> life_steps b c \<Longrightarrow> life_steps a c"
  by (induction rule: life_steps.induct) (auto intro: life_steps.step)

lemma reachable_steps: "life_steps a b \<Longrightarrow> reachable a \<Longrightarrow> reachable b"
  by (induction rule: life_steps.induct) (auto intro: reachable.step)

definition finishes :: "life \<Rightarrow> bool" where
  "finishes st \<longleftrightarrow> (\<exists>st'. life_steps st st' \<and> lf_pc st' = RIdle \<and> lf_run st' = Suc (lf_run st))"

lemma finishes_step: "life_step st st' \<Longrightarrow> lf_run st' = lf_run st \<Longrightarrow> finishes st' \<Longrightarrow> finishes st"
  by (auto simp: finishes_def intro: life_steps.step)

lemma finishes_cleared: "lf_pc st = RCleared r \<Longrightarrow> finishes st"
  unfolding finishes_def
  by (intro exI conjI, rule life_steps.step [OF run_returns life_steps.refl]) auto

lemma finishes_returning: "lf_pc st = RReturning r \<Longrightarrow> finishes st"
  by (rule finishes_step [OF run_clears]) (auto intro: finishes_cleared)

text \<open>Collecting the results of the goroutines: \<open>k\<close> have been received.\<close>

definition collecting :: "nat \<Rightarrow> life \<Rightarrow> bool" where
  "collecting k st \<longleftrightarrow> (\<exists>f l. lf_pc st = RFailed f l k) \<or> (\<exists>r l. lf_pc st = RDraining r l k)"

lemma collecting_receives:
  assumes "collecting k st" "k < length (lf_lns st)" "lf_errs st = e # es"
  obtains st' where "life_step st st'" "collecting (Suc k) st'" "lf_run st' = lf_run st" "lf_lns st' = lf_lns st"
    "lf_serves st' = lf_serves st"
proof (cases "\<exists>f l. lf_pc st = RFailed f l k")
  case True
  then obtain f l where "lf_pc st = RFailed f l k" by blast
  from run_failed_receives [OF this assms(2,3)] show ?thesis by (rule that) (simp_all add: collecting_def)
next
  case False
  then obtain r l where "lf_pc st = RDraining r l k" using assms(1) by (auto simp: collecting_def)
  from run_drains [OF this assms(2,3)] show ?thesis by (rule that) (simp_all add: collecting_def)
qed

lemma collecting_ends:
  assumes "collecting k st" "k = length (lf_lns st)"
  shows "finishes st"
proof (cases "\<exists>f l. lf_pc st = RFailed f l k")
  case True
  then obtain f l where "lf_pc st = RFailed f l k" by blast
  from run_failed_returns [OF this assms(2)] show ?thesis by (rule finishes_step) (auto intro: finishes_returning)
next
  case False
  then obtain r l where "lf_pc st = RDraining r l k" using assms(1) by (auto simp: collecting_def)
  from run_drained [OF this assms(2)] show ?thesis by (rule finishes_step) (auto intro: finishes_returning)
qed

lemma collecting_inv: "collecting k st \<Longrightarrow> life_inv st \<Longrightarrow> serves_ok k st \<and> lf_closing st"
  by (auto simp: collecting_def life_inv_def phase_ok_def)

text \<open>When nothing has arrived yet some goroutine can still return.\<close>

lemma serve_can_return:
  assumes "serves_ok k st" "lf_closing st" "k < length (lf_lns st)" "lf_errs st = []"
  obtains i where "i < length (lf_serves st)" "lf_serves st ! i \<noteq> GDone"
    "life_step st (serve_returns i ServerClosed st)"
proof -
  have "done_count (lf_serves st) \<noteq> length (lf_serves st)" using assms by (simp add: serves_ok_def)
  then have "\<not> set (lf_serves st) \<subseteq> {GDone}" by (simp add: done_count_all)
  then obtain i where i: "i < length (lf_serves st)" "lf_serves st ! i \<noteq> GDone"
    by (auto simp: subset_iff in_set_conv_nth)
  show ?thesis
  proof (cases "lf_serves st ! i")
    case GNew
    then show ?thesis using that [OF i] serve_too_late [OF i(1) GNew assms(2)] by simp
  next
    case GServing
    then show ?thesis using that [OF i] serve_closed [OF i(1) GServing assms(2)] by simp
  next
    case GDone
    then show ?thesis using i(2) by simp
  qed
qed

lemma finishes_collecting: "collecting k st \<Longrightarrow> life_inv st \<Longrightarrow> finishes st"
proof (induction "(length (lf_lns st) - k) + (length (lf_lns st) - done_count (lf_serves st))" arbitrary: st k rule: less_induct)
  case less
  have s: "serves_ok k st" "lf_closing st" using collecting_inv [OF less.prems] by auto
  have d: "done_count (lf_serves st) = k + length (lf_errs st)" "done_count (lf_serves st) \<le> length (lf_lns st)"
    using s(1) done_count_le [of "lf_serves st"] by (simp_all add: serves_ok_def)
  consider "k = length (lf_lns st)" | e es where "k < length (lf_lns st)" "lf_errs st = e # es"
    | "k < length (lf_lns st)" "lf_errs st = []" using d by (cases "lf_errs st") (auto simp: le_less)
  then show ?case
  proof cases
    case 1
    with less.prems(1) show ?thesis by (rule collecting_ends)
  next
    case 2
    from collecting_receives [OF less.prems(1) 2] obtain st' where st': "life_step st st'" "collecting (Suc k) st'"
      "lf_run st' = lf_run st" "lf_lns st' = lf_lns st" "lf_serves st' = lf_serves st" .
    have "finishes st'"
      using 2 st' life_step_inv [OF st'(1) less.prems(2)] by (intro less.hyps [of st' "Suc k"]) auto
    with st'(1,3) show ?thesis by (rule finishes_step)
  next
    case 3
    from serve_can_return [OF s 3] obtain i where i: "i < length (lf_serves st)" "lf_serves st ! i \<noteq> GDone"
      "life_step st (serve_returns i ServerClosed st)" .
    let ?st = "serve_returns i ServerClosed st"
    have "done_count (lf_serves ?st) = Suc (done_count (lf_serves st))" using done_count_new [OF i(1,2)] by simp
    moreover have "done_count (lf_serves st) < length (lf_lns st)" using d 3 by simp
    moreover have "collecting k ?st" using less.prems(1) by (simp add: collecting_def)
    ultimately have "finishes ?st"
      using life_step_inv [OF i(3) less.prems(2)] by (intro less.hyps [of ?st k]) auto
    then show ?thesis by (intro finishes_step [OF i(3)]) simp_all
  qed
qed

text \<open>While a run is active its context is over whenever the caller's is.\<close>

definition ctx_ok :: "life \<Rightarrow> bool" where
  "ctx_ok st \<longleftrightarrow> (lf_pc st \<noteq> RIdle \<and> lf_outer st \<noteq> None \<longrightarrow> lf_ctx st \<noteq> None)"

lemma first_error_Some [simp]: "first_error c e = Some (case c of None \<Rightarrow> e | Some x \<Rightarrow> x)"
  by (simp add: first_error_def split: option.split)

lemma ctx_ok_step: "life_step st st' \<Longrightarrow> ctx_ok st \<Longrightarrow> ctx_ok st'"
  by (induction rule: life_step.induct) (auto simp: ctx_ok_def cancel_run_def)

lemma reachable_ctx_ok: "reachable st \<Longrightarrow> ctx_ok st"
  by (induction rule: reachable.induct) (auto simp: ctx_ok_step, simp add: ctx_ok_def life_start_def)

lemma wait_possible:
  "\<exists>env r. wait_for_health_providers env fwo own t = Some r \<and> r \<noteq> Some (ErrCtx Canceled)"
proof -
  let ?env = "\<lparr>we_check = (\<lambda>n h. None), we_err = (\<lambda>n. None), we_done = (\<lambda>n. None)\<rparr>"
  have "wait_loop ?env ps 0 = Some None" for ps by (rule wait_loop_healthy) (auto simp: healthy_round_def)
  then show ?thesis by (intro exI [of _ ?env]) (auto simp: wait_for_health_providers_def Let_def split: option.split)
qed

text \<open>Every phase of a run can go on to the end.\<close>

lemma finishes_go:
  assumes "life_step st st'" "life_inv st" "ctx_ok st" "lf_run st' = lf_run st"
    and "life_inv st' \<Longrightarrow> ctx_ok st' \<Longrightarrow> finishes st'"
  shows "finishes st"
  using assms life_step_inv ctx_ok_step finishes_step by blast

lemma finishes_draining:
  assumes "life_inv st" "ctx_ok st" "lf_pc st = RDraining r l k"
  shows "finishes st"
  using assms finishes_collecting [of k st] by (simp add: collecting_def)

lemma finishes_failed:
  assumes "life_inv st" "ctx_ok st" "lf_pc st = RFailed f l k"
  shows "finishes st"
  using assms finishes_collecting [of k st] by (simp add: collecting_def)

lemma finishes_shutdown:
  assumes "life_inv st" "ctx_ok st" "lf_pc st = RShutdown"
  shows "finishes st"
  by (rule finishes_go [OF run_shut_down [OF assms(3), of ShutdownOk] assms(1,2)])
    (simp, erule (1) finishes_draining, simp)

lemma finishes_stopping:
  assumes "life_inv st" "ctx_ok st" "lf_pc st = RStopping"
  shows "finishes st"
  by (rule finishes_go [OF run_shuts_down [OF assms(3)] assms(1,2)])
    (simp, erule (1) finishes_shutdown, simp)

lemma finishes_cancelled:
  assumes "life_inv st" "ctx_ok st" "lf_pc st = RServing" "lf_ctx st \<noteq> None"
  shows "finishes st"
  by (rule finishes_go [OF run_selects_done [OF assms(3,4)] assms(1,2)])
    (simp, erule (1) finishes_stopping, simp)

lemma finishes_serving:
  assumes "life_inv st" "ctx_ok st" "lf_pc st = RServing"
  shows "finishes st"
proof (cases "lf_ctx st")
  case None
  then have o: "lf_pc st \<noteq> RIdle" "lf_outer st = None" using assms by (auto simp: ctx_ok_def)
  show ?thesis
    by (rule finishes_go [OF do_outer [OF o, of Canceled] assms(1,2)])
      (simp, erule (1) finishes_cancelled, simp_all add: assms(3))
next
  case (Some e)
  then show ?thesis using assms by (intro finishes_cancelled) simp_all
qed

lemma finishes_bound:
  assumes "life_inv st" "ctx_ok st" "lf_pc st = RBound"
  shows "finishes st"
  by (rule finishes_go [OF run_serves [OF assms(3)] assms(1,2)]) (simp, erule (1) finishes_serving, simp)

lemma finishes_started:
  assumes "life_inv st" "ctx_ok st" "lf_pc st = RStarted"
  shows "finishes st"
  by (rule finishes_go [OF run_binds [OF assms(3)] assms(1,2)]) (simp, erule (1) finishes_bound, simp)

lemma finishes_opened:
  assumes "life_inv st" "ctx_ok st" "lf_pc st = ROpened"
  shows "finishes st"
proof (cases "lf_ctx st")
  case None
  show ?thesis
    by (rule finishes_go [OF run_counts [OF assms(3) None] assms(1,2)]) (simp, erule (1) finishes_started, simp)
next
  case (Some e)
  show ?thesis
    by (rule finishes_go [OF run_too_late [OF assms(3) Some] assms(1,2)]) (simp, rule finishes_returning, simp)
qed

lemma finishes_listening:
  assumes "life_inv st" "ctx_ok st" "lf_pc st = RListening"
  shows "finishes st"
proof (cases "listen_all (rn_binds (lf_snap st)) (lf_net st)")
  case (Pair res net)
  show ?thesis
  proof (cases res)
    case (Inl ae)
    obtain a e where "ae = (a, e)" by fastforce
    note l = Pair [unfolded Inl this]
    show ?thesis
      by (rule finishes_go [OF run_listen_fails [OF assms(3) l] assms(1,2)]) (simp, rule finishes_returning, simp)
  next
    case (Inr lns)
    note l = Pair [unfolded Inr]
    show ?thesis
      by (rule finishes_go [OF run_listens [OF assms(3) l] assms(1,2)]) (simp, erule (1) finishes_opened, simp)
  qed
qed

lemma finishes_waiting:
  assumes "life_inv st" "ctx_ok st" "lf_pc st = RWaiting"
  shows "finishes st"
proof -
  obtain env r where w: "wait_for_health_providers env (sv_fw (lf_srv st)) (server_name (lf_srv st))
      (rn_wait_for_health (lf_snap st)) = Some r" "r \<noteq> Some (ErrCtx Canceled)" using wait_possible by blast
  then have "r = Some (ErrCtx Canceled) \<longrightarrow> lf_ctx st = Some Canceled" by simp
  note l = run_waited [OF assms(3) w(1) this]
  show ?thesis
  proof (cases r)
    case None
    show ?thesis by (rule finishes_go [OF l assms(1,2)]) (simp, erule (1) finishes_listening, simp add: None)
  next
    case (Some e)
    show ?thesis by (rule finishes_go [OF l assms(1,2)]) (simp, rule finishes_returning, simp add: Some)
  qed
qed

lemma finishes_checking:
  assumes "life_inv st" "ctx_ok st" "lf_pc st = RChecking"
  shows "finishes st"
proof (cases "lf_outer st")
  case (Some e)
  show ?thesis
    by (rule finishes_go [OF run_rejected_ctx [OF assms(3) Some] assms(1,2)]) (simp, rule finishes_returning, simp)
next
  case None
  show ?thesis
  proof (cases "rn_binds (lf_snap st) = []")
    case True
    show ?thesis
      by (rule finishes_go [OF run_rejected_bind [OF assms(3) None True] assms(1,2)])
        (simp, rule finishes_returning, simp)
  next
    case False
    note l = run_checked [OF assms(3) None False]
    show ?thesis
    proof (cases "0 < sint (rn_wait_for_health (lf_snap st))")
      case True
      show ?thesis by (rule finishes_go [OF l assms(1,2)]) (simp, erule (1) finishes_waiting, simp add: True)
    next
      case False
      show ?thesis by (rule finishes_go [OF l assms(1,2)]) (simp, erule (1) finishes_listening, simp add: False)
    qed
  qed
qed

text \<open>
  C33.  \<open>Run\<close> never gets stuck.  From every reachable state with an active run there is a continuation in which
  this run returns: the wait for health, the goroutines and the drain always leave a step to take.
\<close>

theorem run_can_finish:
  assumes "reachable st" "lf_pc st \<noteq> RIdle"
  shows "\<exists>st'. life_steps st st' \<and> lf_pc st' = RIdle \<and> lf_run st' = Suc (lf_run st)"
proof -
  have i: "life_inv st" "ctx_ok st" using assms(1) by (auto intro: reachable_inv reachable_ctx_ok)
  have "finishes st"
    by (cases "lf_pc st")
      (use assms(2) in simp, rule finishes_checking [OF i], assumption, rule finishes_waiting [OF i], assumption,
       rule finishes_listening [OF i], assumption, rule finishes_opened [OF i], assumption,
       rule finishes_started [OF i], assumption, rule finishes_bound [OF i], assumption,
       rule finishes_serving [OF i], assumption, rule finishes_failed [OF i], assumption,
       rule finishes_stopping [OF i], assumption, rule finishes_shutdown [OF i], assumption,
       rule finishes_draining [OF i], assumption, rule finishes_returning, assumption,
       rule finishes_cleared, assumption)
  then show ?thesis by (simp add: finishes_def)
qed

end
