(* ===== verification/Life_Restart.thy ===== *)
theory Life_Restart imports Life_Props begin

text \<open>
  What becomes of a restart that a reload requests: while the server serves it is never lost; while it still
  waits for health it is.  The second half builds concrete runs, which are also the witnesses of the
  properties of the life cycle.
\<close>

subsection \<open>A restart requested while serving\<close>

text \<open>The errors with which a run ends loudly.\<close>

definition loud :: "server_error option \<Rightarrow> bool" where
  "loud r \<longleftrightarrow>
     (case r of
        Some ErrServerRestartRequired \<Rightarrow> True
      | Some (ErrServe m) \<Rightarrow> True
      | Some (ErrCtx e) \<Rightarrow> e = DeadlineExceeded
      | Some (ErrText m) \<Rightarrow> True
      | _ \<Rightarrow> False)"

definition loud_pc :: "run_pc \<Rightarrow> bool" where
  "loud_pc pc \<longleftrightarrow>
     (case pc of
        RServing \<Rightarrow> True | RStopping \<Rightarrow> True | RShutdown \<Rightarrow> True | RDraining r l k \<Rightarrow> True
      | RFailed f l k \<Rightarrow> loud f | RReturning r \<Rightarrow> loud r | RCleared r \<Rightarrow> loud r
      | _ \<Rightarrow> False)"

definition wants_restart :: "nat \<Rightarrow> life \<Rightarrow> bool" where
  "wants_restart run st \<longleftrightarrow>
     (lf_run st = run \<and> sv_restart_requested (lf_srv st) \<and> loud_pc (lf_pc st))
     \<or> (run < lf_run st \<and> (\<exists>r. (run, r) \<in> set (lf_results st) \<and> loud r))"

lemma requested_frames [simp]:
  "sv_restart_requested (unsubscribe_logs c) = sv_restart_requested c"
  "sv_restart_requested (apply_config cv cfg c) = sv_restart_requested c"
  "sv_restart_requested (set_handler h c) = sv_restart_requested c"
  "sv_restart_requested (shutdown c) = sv_restart_requested c"
  "sv_restart_requested (logs_reconfigured l c) = sv_restart_requested c"
  "sv_restart_requested (on_conn_state cs c) = sv_restart_requested c"
  "sv_restart_requested (count_reload c) = sv_restart_requested c"
  by (simp_all add: unsubscribe_logs_def apply_config_def set_handler_def shutdown_def logs_reconfigured_def
      on_conn_state_def count_reload_def split: conn_state.split)

lemma requested_init [simp]: "sv_restart_requested (snd (init cv ctx fw c)) = sv_restart_requested c"
proof -
  have s: "sv_restart_requested (init_subscribe fw c) = sv_restart_requested c" by (simp add: init_subscribe_def Let_def)
  have a: "sv_restart_requested (snd (apply_config_from_source cv d)) = sv_restart_requested d" for d
    by (simp add: apply_config_from_source_def split: option.split)
  show ?thesis
    using s a [of "init_subscribe fw c"]
    by (auto simp: init_def Let_def split: option.split prod.split if_split)
qed

lemma drain_result_loud: "loud (drain_result r True l)"
  by (cases r) (simp_all add: drain_result_def shutdown_error_def loud_def)

lemma wants_restart_step:
  assumes "life_step st st'" "life_inv st" "wants_restart run st"
  shows "wants_restart run st'"
  using assms
proof (induction rule: life_step.induct)
  case (do_reload st source cfg c rest)
  then show ?case using reload_locked_frame(11) [OF do_reload(1)] by (auto simp: wants_restart_def)
next
  case (run_waited st env r)
  then show ?case by (auto simp: wants_restart_def loud_pc_def)
next
  case (run_selects_error st e es)
  then have "serves_open st" by (simp add: life_inv_def phase_ok_def)
  then have "loud (normalize_server_error e)"
    using run_selects_error(2) by (cases e) (auto simp: serves_open_def normalize_server_error_def loud_def)
  then show ?case using run_selects_error by (auto simp: wants_restart_def loud_pc_def)
next
  case (run_failed_returns st first latest k)
  then have "first \<noteq> None" by (auto simp: life_inv_def phase_ok_def)
  then show ?case using run_failed_returns by (auto simp: wants_restart_def loud_pc_def)
next
  case (run_drained st r latest k)
  then show ?case by (auto simp: wants_restart_def loud_pc_def drain_result_loud)
qed (auto simp: wants_restart_def loud_pc_def)

lemma wants_restart_steps: "life_steps st st' \<Longrightarrow> life_inv st \<Longrightarrow> wants_restart run st \<Longrightarrow> wants_restart run st'"
  by (induction rule: life_steps.induct) (auto intro: wants_restart_step life_step_inv)

text \<open>
  C34.  A restart requested while the server serves is never lost.  Once \<open>restartRequested\<close> is set during the
  serving phase of a run, this run can only return an error: that a restart is required, that a listener
  or the drain failed - never nil, and never the bare cancellation.
\<close>

theorem immediate_restart_kept:
  assumes "reachable st" "lf_pc st = RServing" "sv_restart_requested (lf_srv st)"
    and "life_steps st st'" "lf_run st < lf_run st'"
  shows "\<exists>e. (lf_run st, Some e) \<in> set (lf_results st')
    \<and> (e = ErrServerRestartRequired \<or> (\<exists>m. e = ErrServe m) \<or> e = ErrCtx DeadlineExceeded \<or> (\<exists>m. e = ErrText m))"
proof -
  have "wants_restart (lf_run st) st" using assms(2,3) by (simp add: wants_restart_def loud_pc_def)
  with assms(4) reachable_inv [OF assms(1)] have "wants_restart (lf_run st) st'" by (rule wants_restart_steps)
  then obtain r where "(lf_run st, r) \<in> set (lf_results st')" "loud r"
    using assms(5) by (auto simp: wants_restart_def)
  then show ?thesis
    by (intro exI [of _ "the r"]) (auto simp: loud_def split: option.splits server_error.splits)
qed


subsection \<open>Concrete runs\<close>

definition demo_cv :: "f64 \<Rightarrow> duration" where
  "demo_cv = (\<lambda>_. 0)"

definition demo_config :: server_config where
  "demo_config = \<lparr>cf_bind = [''127.0.0.1:8080''], cf_read_timeout_sec = None, cf_write_timeout_sec = None,
     cf_idle_timeout_sec = None, cf_read_header_timeout_sec = None, cf_max_header_bytes = None,
     cf_shutdown_timeout_sec = None, cf_metrics_enabled = None, cf_restart_policy = []\<rparr>"

definition demo_reload :: server_config where
  "demo_reload = demo_config\<lparr>cf_bind := [''127.0.0.1:9090''], cf_restart_policy := ''immediate''\<rparr>"

definition demo_framework :: framework where
  "demo_framework = \<lparr>fw_logs = False, fw_configuration = Some (\<lambda>s. Some demo_config),
     fw_components = [Some (''db'', Some 1)]\<rparr>"

definition demo_options :: "option_fun list" where
  "demo_options = [with_config_source ''http'' ''http.json'' [], with_wait_for_health (seconds 30)]"

definition demo_net :: netst where
  "demo_net = \<lparr>nt_open = [], nt_calls = 0, nt_oracle = (\<lambda>n a. Inr a)\<rparr>"

definition demo_ready :: server where
  "demo_ready = set_handler (Some 7) (snd (init demo_cv None demo_framework (new_server demo_cv demo_options)))"

lemma demo_ready_facts:
  "sv_initialized demo_ready" "\<not> sv_running demo_ready" "sv_handler demo_ready = Some 7"
  "sv_binds demo_ready = [''127.0.0.1:8080'']" "sv_config_source demo_ready = ''http''"
  "sv_wait_for_health demo_ready = 30000000000" "sv_name demo_ready = []" "\<not> sv_listening demo_ready"
  by code_simp+

lemma demo_ready_fw: "sv_fw demo_ready = Some demo_framework"
proof -
  have "\<not> sv_initialized (new_server demo_cv demo_options)" by code_simp
  moreover have "fst (init demo_cv None demo_framework (new_server demo_cv demo_options)) = None" by code_simp
  ultimately show ?thesis
    using init_all_or_nothing [of "new_server demo_cv demo_options" demo_cv None demo_framework]
    by (simp add: demo_ready_def set_handler_def)
qed

definition demo_base :: life where
  "demo_base = (life_start demo_cv demo_options demo_net)\<lparr>lf_srv := demo_ready\<rparr>"

lemma reachable_base: "reachable demo_base"
proof -
  let ?s0 = "life_start demo_cv demo_options demo_net"
  let ?s1 = "on_srv (\<lambda>c. snd (init (lf_cv ?s0) None demo_framework c)) ?s0"
  have "reachable ?s1" by (rule reachable.step [OF reachable.start do_init])
  then have "reachable (on_srv (set_handler (Some 7)) ?s1)" by (rule reachable.step [OF _ do_set_handler])
  then show ?thesis by (simp add: on_srv_def demo_base_def demo_ready_def life_start_def)
qed

definition demo_running :: server where
  "demo_running = demo_ready\<lparr>sv_running := True, sv_run_cancel := Some 0, sv_restart_requested := False\<rparr>"

definition demo_snap :: run_snap where
  "demo_snap = \<lparr>rn_handler = 7, rn_binds = [''127.0.0.1:8080''], rn_read_timeout = sv_read_timeout demo_ready,
     rn_write_timeout = sv_write_timeout demo_ready, rn_idle_timeout = sv_idle_timeout demo_ready,
     rn_read_header_timeout = sv_read_header_timeout demo_ready, rn_max_header_bytes = sv_max_header_bytes demo_ready,
     rn_shutdown_timeout = sv_shutdown_timeout demo_ready, rn_wait_for_health = 30000000000\<rparr>"

definition demo_waiting :: life where
  "demo_waiting = demo_base\<lparr>lf_pc := RWaiting, lf_srv := demo_running, lf_snap := demo_snap\<rparr>"

lemma base_fields [simp]:
  "lf_cv demo_base = demo_cv" "lf_srv demo_base = demo_ready" "lf_net demo_base = demo_net" "lf_pc demo_base = RIdle"
  "lf_run demo_base = 0" "lf_snap demo_base = no_snap" "lf_lns demo_base = []" "lf_outer demo_base = None"
  "lf_ctx demo_base = None" "\<not> lf_closing demo_base" "lf_serves demo_base = []" "lf_errs demo_base = []"
  "lf_reloads demo_base = []" "lf_results demo_base = []"
  by (simp_all add: demo_base_def life_start_def demo_net_def)

lemma reachable_waiting: "reachable demo_waiting"
proof -
  have e: "run_enter (lf_run demo_base) (lf_srv demo_base) = Inr (demo_snap, demo_running)"
    using demo_ready_facts by (simp add: run_enter_def demo_snap_def demo_running_def)
  let ?s = "demo_base\<lparr>lf_pc := RChecking, lf_srv := demo_running, lf_snap := demo_snap\<rparr>"
  have "demo_base\<lparr>lf_pc := RChecking, lf_srv := demo_running, lf_snap := demo_snap, lf_lns := [], lf_outer := None,
      lf_ctx := None, lf_closing := False, lf_serves := [], lf_errs := []\<rparr> = ?s"
    by (rule life.equality) simp_all
  with run_starts [OF _ e, of None] have "life_step demo_base ?s" by simp
  then have r: "reachable ?s" by (rule reachable.step [OF reachable_base])
  have "life_step ?s (at_pc (if sint (rn_wait_for_health (lf_snap ?s)) > 0 then RWaiting else RListening) ?s)"
    by (rule run_checked) (simp_all add: demo_snap_def)
  moreover have "at_pc (if sint (rn_wait_for_health (lf_snap ?s)) > 0 then RWaiting else RListening) ?s = demo_waiting"
    by (simp add: at_pc_def demo_waiting_def demo_snap_def)
  ultimately show ?thesis using r by (auto intro: reachable.step)
qed

text \<open>A reload with the immediate policy and another address, on a server with the demo settings.\<close>

lemma demo_reload_locked:
  assumes "sv_config_source c = ''http''" "sv_initialized c" "sv_binds c = [''127.0.0.1:8080'']"
  shows "reload_locked cv ''http'' (Some demo_reload) c =
    (c\<lparr>sv_restart_policy := ''immediate'', sv_restart_required := True, sv_restart_requested := True\<rparr>,
     ReloadCancel (sv_run_cancel c))"
  using assms
  by (simp add: reload_locked_def Let_def demo_reload_def demo_config_def server_settings_changed_def
      restart_policy_immediate_def)

definition impatient_env :: wait_env where
  "impatient_env = \<lparr>we_check = (\<lambda>n h. Some ''not initialized''), we_err = (\<lambda>n. Some Canceled), we_done = (\<lambda>n. None)\<rparr>"

lemma impatient_wait:
  "wait_for_health_providers impatient_env (Some demo_framework) ''http'' 30000000000 = Some (Some (ErrCtx Canceled))"
  by (simp add: wait_for_health_providers_def demo_framework_def impatient_env_def wait_loop.simps)

text \<open>The wait for health reports the health or a context error, never that a restart is required.\<close>

lemma wait_loop_errors:
  assumes "wait_loop env ps n = Some r"
  shows "r \<noteq> Some ErrServerRestartRequired"
  by (rule wait_loop.raw_induct [OF _ assms, where P = "\<lambda>env ps n r. r \<noteq> Some ErrServerRestartRequired"])
    (auto simp: wait_timed_out_def wait_ended_def Let_def split: prod.splits if_splits option.splits)

lemma wait_errors:
  "wait_for_health_providers env fwo own timeout = Some r \<Longrightarrow> r \<noteq> Some ErrServerRestartRequired"
  by (auto simp: wait_for_health_providers_def Let_def wait_loop_errors split: option.splits if_splits)

text \<open>A run that was cancelled before it served: it goes nowhere but to an end without the restart error.\<close>

definition gives_up :: "nat \<Rightarrow> life \<Rightarrow> bool" where
  "gives_up run st \<longleftrightarrow>
     (run, Some ErrServerRestartRequired) \<notin> set (lf_results st)
     \<and> (run < lf_run st
        \<or> (lf_run st = run
           \<and> (case lf_pc st of
                RWaiting \<Rightarrow> lf_ctx st \<noteq> None | RListening \<Rightarrow> lf_ctx st \<noteq> None | ROpened \<Rightarrow> lf_ctx st \<noteq> None
              | RReturning r \<Rightarrow> r \<noteq> Some ErrServerRestartRequired
              | RCleared r \<Rightarrow> r \<noteq> Some ErrServerRestartRequired
              | _ \<Rightarrow> False)))"

lemma gives_up_step: "life_step st st' \<Longrightarrow> gives_up run st \<Longrightarrow> gives_up run st'"
proof (induction rule: life_step.induct)
  case (do_reload_cancel st before r after)
  then show ?case by (auto simp: gives_up_def cancel_run_def first_error_def split: run_pc.splits option.splits)
next
  case (do_outer st e)
  then show ?case by (auto simp: gives_up_def first_error_def split: run_pc.splits option.splits)
next
  case (run_waited st env r)
  have "wait_return e \<noteq> Some ErrServerRestartRequired" if "r = Some e" for e
    using wait_errors [OF run_waited(2)] that by (auto simp: wait_return_def)
  then show ?case using run_waited(1,4) by (auto simp: gives_up_def split: option.splits)
qed (auto simp: gives_up_def serve_returns_def begin_closing_def split: run_pc.splits)

lemma gives_up_steps: "life_steps st st' \<Longrightarrow> gives_up run st \<Longrightarrow> gives_up run st'"
  by (induction rule: life_steps.induct) (auto intro: gives_up_step)

lemma returning_ends:
  assumes "lf_pc st = RReturning r"
  shows "\<exists>st'. life_steps st st' \<and> lf_pc st' = RIdle \<and> lf_results st' = lf_results st @ [(lf_run st, r)]
     \<and> sv_restart_requested (lf_srv st') = sv_restart_requested (lf_srv st)"
proof -
  let ?a = "at_pc (RCleared r) (on_srv (\<lambda>c. c\<lparr>sv_listening := False\<rparr>) (st\<lparr>lf_ctx := first_error (lf_ctx st) Canceled\<rparr>))"
  let ?b = "at_pc RIdle (on_srv (\<lambda>c. c\<lparr>sv_running := False, sv_run_cancel := None, sv_bound_address := []\<rparr>)
      (?a\<lparr>lf_run := Suc (lf_run ?a), lf_results := lf_results ?a @ [(lf_run ?a, r)]\<rparr>))"
  have "life_step ?a ?b" by (rule run_returns) simp
  then have "life_steps ?a ?b" by (rule life_steps.step) (rule life_steps.refl)
  then have "life_steps st ?b" by (rule life_steps.step [OF run_clears [OF assms]])
  then show ?thesis by (intro exI [of _ ?b]) simp
qed

text \<open>The demo server, waiting: a reload asks for a restart, then cancels the run; the wait ends.\<close>

definition demo_asked :: life where
  "demo_asked = demo_waiting\<lparr>lf_srv := demo_running\<lparr>sv_restart_policy := ''immediate'', sv_restart_required := True,
     sv_restart_requested := True\<rparr>, lf_reloads := [ReloadCancel (Some 0)]\<rparr>"

definition demo_cancelled :: life where
  "demo_cancelled = demo_asked\<lparr>lf_reloads := [ReloadCount], lf_ctx := Some Canceled\<rparr>"

lemma demo_running_facts:
  "sv_config_source demo_running = ''http''" "sv_initialized demo_running" "sv_binds demo_running = [''127.0.0.1:8080'']"
  "sv_run_cancel demo_running = Some 0" "sv_fw demo_running = Some demo_framework" "sv_name demo_running = []"
  "\<not> sv_restart_requested demo_running"
  using demo_ready_facts demo_ready_fw by (simp_all add: demo_running_def)

lemma demo_reload_waiting:
  "reload_locked demo_cv ''http'' (Some demo_reload) demo_running = (lf_srv demo_asked, ReloadCancel (Some 0))"
  using demo_reload_locked [OF demo_running_facts(1-3)] demo_running_facts(4) by (simp add: demo_asked_def)

lemma demo_lost_steps:
  "life_step demo_waiting demo_asked" "life_step demo_asked demo_cancelled"
  "life_step demo_cancelled (at_pc (RReturning None) demo_cancelled)"
proof -
  show "life_step demo_waiting demo_asked"
    using do_reload [of demo_waiting "''http''" "Some demo_reload"] demo_reload_waiting
    by (simp add: demo_waiting_def demo_asked_def)
  show "life_step demo_asked demo_cancelled"
    using do_reload_cancel [of demo_asked "[]" "Some 0" "[]"]
    by (simp add: demo_cancelled_def demo_asked_def demo_waiting_def cancel_run_def first_error_def)
  show "life_step demo_cancelled (at_pc (RReturning None) demo_cancelled)"
    using run_waited [of demo_cancelled impatient_env "Some (ErrCtx Canceled)"] impatient_wait demo_running_facts(5,6)
    by (simp add: demo_cancelled_def demo_asked_def demo_waiting_def demo_snap_def server_name_def component_name_def
        wait_return_def)
qed

text \<open>
  C35.  A restart requested during the wait for health is lost.  There is a reachable state in which a run, not
  cancelled by anybody, waits for health (\<open>st0\<close>), such that: a reload under the immediate policy changes
  its settings, so the restart is required and requested, and the run is still waiting (\<open>st1\<close>); the reload
  cancels the context of the run, the caller's context being alive (\<open>st2\<close>); the wait ends and \<open>Run\<close> is
  about to return nil (\<open>st3\<close>); the run ends with nil, the request still standing (\<open>st4\<close>).  And whatever
  happens after the cancellation instead, this run never reports that a restart is required.
\<close>

theorem restart_lost_while_waiting:
  "\<exists>st0 st1 st2 st3 st4 cfg.
     reachable st0 \<and> lf_pc st0 = RWaiting \<and> lf_outer st0 = None \<and> lf_ctx st0 = None
     \<and> \<not> sv_restart_requested (lf_srv st0)
     \<and> reload_locked (lf_cv st0) (sv_config_source (lf_srv st0)) (Some cfg) (lf_srv st0)
         = (lf_srv st1, ReloadCancel (Some (lf_run st0)))
     \<and> life_step st0 st1
     \<and> st1 = st0\<lparr>lf_srv := lf_srv st1, lf_reloads := ReloadCancel (Some (lf_run st0)) # lf_reloads st0\<rparr>
     \<and> sv_restart_requested (lf_srv st1) \<and> sv_restart_required (lf_srv st1)
     \<and> sv_restart_policy (lf_srv st1) = restart_policy_immediate
     \<and> life_step st1 st2
     \<and> st2 = st1\<lparr>lf_reloads := ReloadCount # lf_reloads st0, lf_ctx := Some Canceled\<rparr>
     \<and> life_step st2 st3 \<and> st3 = at_pc (RReturning None) st2
     \<and> life_steps st3 st4 \<and> lf_pc st4 = RIdle \<and> lf_results st4 = lf_results st0 @ [(lf_run st0, None)]
     \<and> sv_restart_requested (lf_srv st4)
     \<and> (\<nexists>st. life_steps st2 st \<and> (lf_run st0, Some ErrServerRestartRequired) \<in> set (lf_results st))"
proof -
  have w: "lf_pc demo_waiting = RWaiting" "lf_srv demo_waiting = demo_running" "lf_run demo_waiting = 0"
    "lf_outer demo_waiting = None" "lf_ctx demo_waiting = None" "lf_reloads demo_waiting = []"
    "lf_results demo_waiting = []" "lf_cv demo_waiting = demo_cv"
    by (simp_all add: demo_waiting_def)
  have a: "lf_srv demo_asked = demo_running\<lparr>sv_restart_policy := ''immediate'', sv_restart_required := True,
      sv_restart_requested := True\<rparr>" by (simp add: demo_asked_def)
  let ?ret = "at_pc (RReturning None) demo_cancelled"
  obtain st4 where 4: "life_steps ?ret st4" "lf_pc st4 = RIdle" "lf_results st4 = [(0, None)]" "sv_restart_requested (lf_srv st4)"
    using returning_ends [of ?ret None] w(3,7) by (auto simp: demo_cancelled_def demo_asked_def)
  have "gives_up 0 demo_cancelled" using w by (simp add: gives_up_def demo_cancelled_def demo_asked_def)
  then have 5: "\<nexists>st. life_steps demo_cancelled st \<and> (lf_run demo_waiting, Some ErrServerRestartRequired) \<in> set (lf_results st)"
    using gives_up_steps w(3) by (auto simp: gives_up_def)
  show ?thesis
  proof (intro exI conjI)
    show "reachable demo_waiting" by (rule reachable_waiting)
    show "life_step demo_waiting demo_asked" "life_step demo_asked demo_cancelled" "life_step demo_cancelled ?ret"
      by (rule demo_lost_steps)+
    show "reload_locked (lf_cv demo_waiting) (sv_config_source (lf_srv demo_waiting)) (Some demo_reload) (lf_srv demo_waiting)
        = (lf_srv demo_asked, ReloadCancel (Some (lf_run demo_waiting)))"
      unfolding w demo_running_facts(1) by (rule demo_reload_waiting)
  qed (use 4 5 w a demo_running_facts(7) in \<open>simp_all add: restart_policy_immediate_def demo_asked_def demo_cancelled_def\<close>)
qed


subsection \<open>A run that serves, and the witnesses\<close>

definition demo_lns :: "listener list" where
  "demo_lns = [\<lparr>ln_id = 0, ln_addr = ''127.0.0.1:8080''\<rparr>]"

definition demo_open_net :: netst where
  "demo_open_net = demo_net\<lparr>nt_open := demo_lns, nt_calls := 1\<rparr>"

definition demo_serving_server :: server where
  "demo_serving_server = demo_running\<lparr>sv_starts := sv_starts demo_running + 1,
     sv_bound_address := ''127.0.0.1:8080'', sv_listening := True\<rparr>"

definition demo_serving :: life where
  "demo_serving = demo_waiting\<lparr>lf_pc := RServing, lf_srv := demo_serving_server, lf_net := demo_open_net,
     lf_lns := demo_lns, lf_serves := [GNew]\<rparr>"

lemma waiting_fields [simp]:
  "lf_cv demo_waiting = demo_cv" "lf_srv demo_waiting = demo_running" "lf_net demo_waiting = demo_net"
  "lf_pc demo_waiting = RWaiting" "lf_run demo_waiting = 0" "lf_snap demo_waiting = demo_snap"
  "lf_lns demo_waiting = []" "lf_outer demo_waiting = None" "lf_ctx demo_waiting = None"
  "\<not> lf_closing demo_waiting" "lf_serves demo_waiting = []" "lf_errs demo_waiting = []"
  "lf_reloads demo_waiting = []" "lf_results demo_waiting = []"
  by (simp_all add: demo_waiting_def)

lemma reachable_serving: "reachable demo_serving"
proof -
  obtain env where w: "wait_for_health_providers env (sv_fw demo_running) (server_name demo_running) 30000000000 = Some None"
  proof -
    let ?env = "\<lparr>we_check = (\<lambda>n h. None), we_err = (\<lambda>n. None), we_done = (\<lambda>n. None)\<rparr>"
    have "wait_loop ?env ps 0 = Some None" for ps by (rule wait_loop_healthy) (auto simp: healthy_round_def)
    then have "wait_for_health_providers ?env (sv_fw demo_running) (server_name demo_running) 30000000000 = Some None"
      using demo_ready_fw by (simp add: wait_for_health_providers_def demo_running_def Let_def)
    then show ?thesis by (rule that)
  qed
  let ?s1 = "at_pc (case None of None \<Rightarrow> RListening | Some e \<Rightarrow> RReturning (wait_return e)) demo_waiting"
  have "life_step demo_waiting ?s1" by (rule run_waited [of _ env]) (simp_all add: w demo_snap_def)
  then have r1: "reachable ?s1" by (rule reachable.step [OF reachable_waiting])
  have l: "listen_all (rn_binds (lf_snap ?s1)) (lf_net ?s1) = (Inr demo_lns, demo_open_net)"
    by (simp add: listen_all_def net_listen_def demo_snap_def demo_net_def demo_lns_def demo_open_net_def Let_def)
  let ?s2 = "at_pc ROpened (?s1\<lparr>lf_net := demo_open_net, lf_lns := demo_lns\<rparr>)"
  have r2: "reachable ?s2" by (rule reachable.step [OF r1 run_listens [OF _ l]]) simp
  let ?s3 = "at_pc RStarted (on_srv (\<lambda>c. c\<lparr>sv_starts := sv_starts c + 1\<rparr>) ?s2)"
  have r3: "reachable ?s3" by (rule reachable.step [OF r2 run_counts]) simp_all
  let ?s4 = "at_pc RBound (on_srv (\<lambda>c. c\<lparr>sv_bound_address := pick_bound_addr (lf_lns ?s3)\<rparr>) ?s3)"
  have r4: "reachable ?s4" by (rule reachable.step [OF r3 run_binds]) simp
  let ?s5 = "at_pc RServing (on_srv (\<lambda>c. c\<lparr>sv_listening := True\<rparr>)
      (?s4\<lparr>lf_serves := replicate (length (lf_lns ?s4)) GNew\<rparr>))"
  have r5: "reachable ?s5" by (rule reachable.step [OF r4 run_serves]) simp
  have "pick_bound_addr demo_lns = ''127.0.0.1:8080''" by code_simp
  then have "?s5 = demo_serving"
    by (simp add: at_pc_def on_srv_def demo_serving_def demo_serving_server_def demo_lns_def)
  with r5 show ?thesis by simp
qed

lemma serving_fields [simp]:
  "lf_srv demo_serving = demo_serving_server" "lf_net demo_serving = demo_open_net"
  "lf_pc demo_serving = RServing" "lf_run demo_serving = 0" "lf_snap demo_serving = demo_snap"
  "lf_lns demo_serving = demo_lns" "lf_errs demo_serving = []" "lf_reloads demo_serving = []"
  by (simp_all add: demo_serving_def)

lemma serving_server_facts:
  "sv_config_source demo_serving_server = ''http''" "sv_initialized demo_serving_server"
  "sv_binds demo_serving_server = [''127.0.0.1:8080'']" "sv_handler demo_serving_server = Some 7"
  "sv_listening demo_serving_server"
  using demo_ready_facts by (simp_all add: demo_serving_server_def demo_running_def)

lemma ready_means_listening_witness:
  "sv_running (lf_srv demo_serving) \<and> nt_open (lf_net demo_serving) = demo_lns"
proof -
  have "health None (lf_srv demo_serving) = None" using serving_server_facts by (simp add: health_def)
  moreover have "lf_pc demo_serving = RServing \<and> lf_errs demo_serving = []" by simp
  ultimately have "sv_running (lf_srv demo_serving) \<and> nt_open (lf_net demo_serving) = lf_lns demo_serving"
    using ready_means_listening [OF reachable_serving] by blast
  then show ?thesis by (simp only: serving_fields)
qed

lemma idle_is_clean_witness: "nt_open (lf_net demo_base) = [] \<and> \<not> sv_running (lf_srv demo_base)"
  using idle_is_clean [OF reachable_base] by simp

lemma run_refines_phases_witness:
  "spec_of demo_serving = (Ready, 0) \<and> sv_listening (lf_srv demo_serving)"
proof -
  have p: "spec_of demo_serving = (Ready, 0)" by (simp add: spec_of_def phase_of_def)
  from run_refines_phases [OF reachable_serving do_shutdown] p show ?thesis by simp
qed

lemma run_can_finish_witness: "\<exists>st'. life_steps demo_waiting st' \<and> lf_pc st' = RIdle \<and> lf_run st' = 1"
  using run_can_finish [OF reachable_waiting] by simp

definition demo_requested :: life where
  "demo_requested = demo_serving\<lparr>lf_srv := demo_serving_server\<lparr>sv_restart_policy := ''immediate'',
       sv_restart_required := True, sv_restart_requested := True\<rparr>,
     lf_reloads := [ReloadCancel (sv_run_cancel demo_serving_server)]\<rparr>"

lemma reachable_requested: "reachable demo_requested"
proof -
  have "life_step demo_serving demo_requested"
    using do_reload [of demo_serving "''http''" "Some demo_reload"] demo_reload_locked [OF serving_server_facts(1-3)]
    by (simp add: demo_requested_def)
  then show ?thesis by (rule reachable.step [OF reachable_serving])
qed

lemma immediate_restart_kept_witness:
  "\<exists>st' e. life_steps demo_requested st' \<and> lf_pc st' = RIdle \<and> (0, Some e) \<in> set (lf_results st')"
proof -
  have f: "lf_pc demo_requested = RServing" "sv_restart_requested (lf_srv demo_requested)" "lf_run demo_requested = 0"
    by (simp_all add: demo_requested_def)
  have "lf_pc demo_requested \<noteq> RIdle" using f(1) by simp
  with finishes_serving reachable_inv [OF reachable_requested] reachable_ctx_ok [OF reachable_requested] f(1)
  have "finishes demo_requested" by blast
  then obtain st' where st': "life_steps demo_requested st'" "lf_pc st' = RIdle" "lf_run st' = Suc (lf_run demo_requested)"
    by (auto simp: finishes_def)
  have "lf_run demo_requested < lf_run st'" using st'(3) by simp
  from immediate_restart_kept [OF reachable_requested f(1,2) st'(1) this] st' f(3) show ?thesis by auto
qed

subsection \<open>Ready after the last listener is gone\<close>

text \<open>
  \<open>Health\<close> does not fail when a goroutine's \<open>Serve\<close> does: between the failure of \<open>Accept\<close> and the end of the run
  the only listener can be closed while the server still reports ready.
\<close>

theorem ready_while_closed:
  "\<exists>st. reachable st \<and> health None (lf_srv st) = None \<and> nt_open (lf_net st) = [] \<and> lf_closing st"
proof -
  let ?a = "demo_serving\<lparr>lf_serves := (lf_serves demo_serving)[0 := GServing]\<rparr>"
  let ?b = "serve_returns 0 (AcceptFailed ''too many open files'') ?a"
  let ?c = "at_pc (RFailed (normalize_server_error (AcceptFailed ''too many open files'')) None 1)
      (begin_closing (?b\<lparr>lf_errs := []\<rparr>))"
  have "life_step demo_serving ?a"
    by (rule serve_begins) (simp_all add: demo_serving_def)
  then have a: "reachable ?a" by (rule reachable.step [OF reachable_serving])
  have "life_step ?a ?b" by (rule serve_fails) (simp_all add: demo_serving_def)
  then have b: "reachable ?b" by (rule reachable.step [OF a])
  have "life_step ?b ?c" by (rule run_selects_error) (simp_all add: serve_returns_def at_pc_def)
  then have "reachable ?c" by (rule reachable.step [OF b])
  moreover have "health None (lf_srv ?c) = None"
    using serving_server_facts by (simp add: health_def)
  moreover have "nt_open (lf_net ?c) = []" "lf_closing ?c"
    by (simp_all add: serve_returns_def begin_closing_def at_pc_def demo_open_net_def demo_lns_def net_close_def
      demo_serving_def tracked_def)
  ultimately show ?thesis by blast
qed

end
