(* ===== verification/Golden.thy ===== *)
theory Golden imports Handlers begin

text \<open>
  The chain of middlewares that the documentation and both example programs put in front of a router,
  \<open>Chain(Metrics, RequestID, RequestLog, Recover)\<close>, and what it guarantees as a whole: every panic is contained,
  the metric sample, the log line and the response agree, and one request id correlates them.

  The middlewares of a chain run on different machines: each recorder and each counted body is one more
  layer.  The locale \<open>env_machine\<close> states what they all rely on, for every stack of the module's layers.
\<close>

subsection \<open>Machines made of the module's layers\<close>

text \<open>Operations on the header map and the environment; every layer of the module hands them down as they are.\<close>

definition env_op :: "op \<Rightarrow> bool" where
  "env_op e \<longleftrightarrow> (case e of WHeader c \<Rightarrow> False | WWrite p \<Rightarrow> False | WFlush \<Rightarrow> False | WHijack \<Rightarrow> False
     | WPush t \<Rightarrow> False | WHas i \<Rightarrow> False | BRead n \<Rightarrow> False | BClose \<Rightarrow> False | _ \<Rightarrow> True)"

lemma env_op_simps [simp]:
  "env_op (HGet k)" "env_op (HSet k v)" "env_op (HAdd k v)" "env_op (HDel k)" "env_op Now" "env_op (Rand n)"
  "env_op Stack" "env_op AskLogger" "env_op (Log lg lv msg ats)" "env_op (InFlight i)" "env_op (RecMiddleware a b d)"
  by (simp_all add: env_op_def)

definition writer_op :: "op \<Rightarrow> bool" where
  "writer_op e \<longleftrightarrow> env_op e \<or> (case e of WHeader c \<Rightarrow> True | WWrite p \<Rightarrow> True | _ \<Rightarrow> False)"

definition passes :: "(op \<Rightarrow> bool) \<Rightarrow> ('s \<Rightarrow> op \<Rightarrow> (res \<times> 's) prog) \<Rightarrow> bool" where
  "passes P f \<longleftrightarrow> (\<forall>s e. P e \<longrightarrow> f s e = pass e s)"

lemma passes_simps [simp]: "passes env_op status_recorder" "passes writer_op counting_body" "passes writer_op no_body"
  unfolding passes_def writer_op_def env_op_def by (intro allI impI, rename_tac s e, case_tac e; simp)+

lemma over_passes:
  "passes P f \<Longrightarrow> P e \<Longrightarrow> over f m sw e = (fst (m (snd sw) e), (fst sw, snd (m (snd sw) e)))"
  by (cases sw) (simp add: passes_def over_pass split: prod.split)

text \<open>A predicate on operations that all layers of the chain keep to.\<close>

definition chain_layers :: "(op \<Rightarrow> bool) \<Rightarrow> bool" where
  "chain_layers P \<longleftrightarrow> layer_ok P status_recorder \<and> layer_ok P counting_body \<and> layer_ok P no_body"

lemma chain_layersI:
  assumes "\<And>i. P (WHas i)"
  shows "chain_layers P"
proof -
  have "ops_ok P (status_recorder s e)" if "P e" for s e
    using that assms
    by (cases e) (auto simp: sr_write_header_def sr_write_def sr_flush_def sr_hijack_def sr_push_def Let_def split: res.split)
  moreover have "ops_ok P (counting_body n e)" if "P e" for n e
    using that by (cases e) (auto simp: cb_read_def split: res.split)
  moreover have "ops_ok P (no_body u e)" if "P e" for u e
    using that by (cases e) auto
  ultimately show ?thesis by (simp add: chain_layers_def layer_ok_def)
qed

lemma chain_layers_recorder: "chain_layers P \<Longrightarrow> layer_ok P status_recorder"
  by (simp add: chain_layers_def)

text \<open>
  \<open>base\<close> is the world at the bottom.  Environment operations reach it unchanged, nothing undoes a commitment,
  a valid status and a write do not panic, and an invariant of \<open>net/http\<close>'s machine is one of this machine.
\<close>

locale env_machine =
  fixes m :: "'w machine" and base :: "'w \<Rightarrow> world"
  assumes env: "env_op e \<Longrightarrow>
      fst (m w e) = fst (net_step (base w) e) \<and> base (snd (m w e)) = snd (net_step (base w) e)"
    and along: "commit_le (base w) (base (snd (m w e)))"
    and header_ok: "100 \<le> c \<Longrightarrow> c \<le> 999 \<Longrightarrow> \<not> is_panic (fst (m w (WHeader c)))"
    and write_ok: "\<not> is_panic (fst (m w (WWrite p)))"
    and inherits: "chain_layers P \<Longrightarrow> machine_invariant net_step P I \<Longrightarrow> machine_invariant m P (\<lambda>w. I (base w))"

interpretation netenv: env_machine net_step "\<lambda>w. w"
proof (rule env_machine.intro)
  show "\<not> is_panic (fst (net_step w (WHeader c)))" if "100 \<le> c" "c \<le> 999" for w c
    using that by (simp add: net_write_header_def)
  show "\<not> is_panic (fst (net_step w (WWrite p)))" for w p
    by (simp add: net_write_def Let_def split: option.split)
  show "machine_invariant net_step P I" if "machine_invariant net_step P I" for P I
    by (rule that)
qed (simp_all add: commit_le_step)

context env_machine begin

sublocale down: machine_order m "\<lambda>a b. commit_le (base a) (base b)"
  by unfold_locales (rule net.le_refl, rule net.le_trans, assumption+, rule along)

lemma over_inherits:
  assumes "chain_layers P" "layer_ok P f" "machine_invariant net_step P I"
  shows "machine_invariant (over f m) P (\<lambda>sw. I (base (snd sw)))"
  using machine_invariant.over_invariant [OF inherits [OF assms(1,3)] assms(2)] .

lemma over_along: "commit_le (base (snd sw)) (base (snd (snd (over f m sw e))))"
  using machine_order.step_le [OF down.over_order] .

text \<open>A layer of body reads, and the recorder, make a machine of this kind again.\<close>

lemma over_passing:
  assumes "passes writer_op f" "\<And>P. chain_layers P \<Longrightarrow> layer_ok P f"
  shows "env_machine (over f m) (\<lambda>sw. base (snd sw))"
proof (rule env_machine.intro)
  show "fst (over f m sw e) = fst (net_step (base (snd sw)) e)
      \<and> base (snd (snd (over f m sw e))) = snd (net_step (base (snd sw)) e)" if "env_op e" for sw e
    using env [OF that] that over_passes [OF assms(1), of e m sw] by (simp add: writer_op_def)
  show "\<not> is_panic (fst (over f m sw (WHeader c)))" if "100 \<le> c" "c \<le> 999" for sw c
    using header_ok [OF that] by (simp add: over_passes [OF assms(1)] writer_op_def)
  show "\<not> is_panic (fst (over f m sw (WWrite p)))" for sw p
    using write_ok by (simp add: over_passes [OF assms(1)] writer_op_def)
qed (simp_all add: over_along over_inherits assms(2))

lemma over_recorder: "env_machine (over status_recorder m) (\<lambda>sw. base (snd sw))"
proof (rule env_machine.intro)
  show "fst (over status_recorder m sw e) = fst (net_step (base (snd sw)) e)
      \<and> base (snd (snd (over status_recorder m sw e))) = snd (net_step (base (snd sw)) e)" if "env_op e" for sw e
    using env [OF that] that by (simp add: over_passes [of env_op])
  show "\<not> is_panic (fst (over status_recorder m sw (WHeader c)))" if "100 \<le> c" "c \<le> 999" for sw c
    using header_ok [OF that, of "snd sw"]
    by (auto simp: over_def sr_write_header_def split: prod.splits)
  show "\<not> is_panic (fst (over status_recorder m sw (WWrite p)))" for sw p
    using write_ok [of "snd sw" p]
    by (auto simp: over_def sr_write_def Let_def split: prod.splits res.splits)
qed (simp_all add: over_along over_inherits chain_layers_def)

lemma over_counting: "env_machine (over counting_body m) (\<lambda>sw. base (snd sw))"
  by (rule over_passing) (simp_all add: chain_layers_def)

lemma over_no_body: "env_machine (over no_body m) (\<lambda>sw. base (snd sw))"
  by (rule over_passing) (simp_all add: chain_layers_def)

end

subsection \<open>The middlewares on such a machine\<close>

definition panic_attrs :: "string \<Rightarrow> request \<Rightarrow> (string \<times> attr) list" where
  "panic_attrs p r = [(''panic'', AStr p), (''stack'', AStr ''goroutine''),
     (''request_id'', AStr (request_id_from r)), (''route'', AStr (get_route_pattern r))]"

context env_machine begin

lemma logger_stays: "wd_logger (base (snd (run m p w))) = wd_logger (base w)"
  using down.run_le [of w p] by (simp add: commit_le_def)

lemma env_result: "env_op e \<Longrightarrow> fst (m w e) = fst (net_step (base w) e)"
  using env by simp

lemma env_base: "env_op e \<Longrightarrow> base (snd (m w e)) = snd (net_step (base w) e)"
  using env by simp

lemmas env_simps = env_result env_base

lemma http_error_returns:
  assumes "100 \<le> code" "code \<le> 999"
  shows "fst (run m (http_error msg code) w) = Returned"
  using header_ok [OF assms] write_ok by (simp add: http_error_def case_prod_beta)

lemma default_writer_returns:
  "100 \<le> fl_status f \<Longrightarrow> fl_status f \<le> 999 \<Longrightarrow> fst (run m (default_error_writer r f) w) = (Returned, r)"
  using http_error_returns by (simp add: default_error_writer_def run_bind Let_def case_prod_beta)

lemma run_recorder:
  "run m (lay status_recorder p new_recorder) w =
     (let (x, (s, w')) = run (over status_recorder m) p (new_recorder, w) in ((x, s), w'))"
  by (rule run_lay)

text \<open>\<open>Recover\<close> with the application's logger there: nothing after a return; after a panic a record and, when
  nothing was committed, the error writer.\<close>

lemma recover_return:
  assumes "run (over status_recorder m) (h r) (new_recorder, w) = ((Returned, r2), (s, w2))"
  shows "run m (recover get write h r) w = ((Returned, r2), w2)"
  using assms by (simp add: recover_def run_bind run_recorder Let_def)

lemma recover_panic:
  assumes logger: "wd_logger (base w)"
    and rec: "run (over status_recorder m) (h r) (new_recorder, w) = ((Panicked p, r2), (s, w2))"
  obtains w3 where
    "base w3 = (base w2)\<lparr>wd_logs := wd_logs (base w2) @ [(AppLogger, LError, ''panic recovered'', panic_attrs p r2)]\<rparr>"
    "run m (recover True write h r) w =
       (if sr_committed s then ((Returned, r2), w3) else run m (error_writer_or_default write r2 (recover_failure r2)) w3)"
proof -
  let ?w3 = "snd (m (snd (m (snd (m w2 AskLogger)) Stack)) (Log AppLogger LError ''panic recovered'' (panic_attrs p r2)))"
  have "snd (run m (lay status_recorder (h r) new_recorder) w) = w2" using rec by (simp add: run_recorder)
  then have l: "wd_logger (base w2)" using logger logger_stays by metis
  then have b: "base ?w3 = (base w2)\<lparr>wd_logs :=
      wd_logs (base w2) @ [(AppLogger, LError, ''panic recovered'', panic_attrs p r2)]\<rparr>"
    by (simp add: env_simps)
  have "run m (recover True write h r) w =
      (if sr_committed s then ((Returned, r2), ?w3) else run m (error_writer_or_default write r2 (recover_failure r2)) ?w3)"
    using rec l
    by (simp add: recover_def run_bind run_recorder recover_logger_def env_simps Let_def case_prod_beta
        panic_attrs_def)
  with b show ?thesis by (rule that)
qed

lemma recover_returns:
  assumes "wd_logger (base w)"
  shows "fst (fst (run m (recover True None h r) w)) = Returned"
proof -
  obtain out r2 s w2 where rec: "run (over status_recorder m) (h r) (new_recorder, w) = ((out, r2), (s, w2))"
    by (metis surj_pair)
  show ?thesis
  proof (cases out)
    case Returned
    with rec show ?thesis by (simp add: recover_return)
  next
    case (Panicked p)
    from recover_panic [where h = h and r = r, OF assms rec [unfolded Panicked]] obtain w3 where
      "run m (recover True None h r) w = (if sr_committed s then ((Returned, r2), w3)
         else run m (error_writer_or_default None r2 (recover_failure r2)) w3)" by metis
    then show ?thesis
      using default_writer_returns [of "recover_failure r2" r2 w3]
      by (simp add: error_writer_or_default_def recover_failure_def)
  qed
qed

end

text \<open>One log line after a return of the inner handler, and nothing else.\<close>

definition line_after :: "world \<Rightarrow> world \<Rightarrow> (level \<times> (string \<times> attr) list) \<Rightarrow> bool" where
  "line_after w w' line \<longleftrightarrow> w' = w\<lparr>wd_ticks := wd_ticks w + 1,
     wd_logs := wd_logs w @ [(AppLogger, fst line, ''http request'', snd line)]\<rparr>"

text \<open>The body counters between \<open>RequestLog\<close> and \<open>Recover\<close> change nothing of that.\<close>

context env_machine begin

lemma counted_recover_returns:
  assumes "wd_logger (base w)"
  shows "fst (fst (fst (run m (counted nil_body (recover True None h r)) w))) = Returned"
proof (cases nil_body)
  case True
  have "env_machine (over counting_body (over no_body m)) (\<lambda>sw. base (snd (snd sw)))"
    using env_machine.over_counting [OF over_no_body] .
  from env_machine.recover_returns [OF this, of "(0, ((), w))" h r] assms True show ?thesis
    by (simp add: counted_def run_bind run_lay case_prod_beta)
next
  case False
  from env_machine.recover_returns [OF over_counting, of "(0, w)" h r] assms False show ?thesis
    by (simp add: counted_def run_lay case_prod_beta)
qed

lemma logger_stays_over: "wd_logger (base (snd (snd (run (over f m) p sw)))) = wd_logger (base (snd sw))"
  using machine_order.run_le [OF down.over_order, of sw f p] by (simp add: commit_le_def)

lemma request_log_line:
  assumes logger: "wd_logger (base w)"
    and rec: "run (over status_recorder m) (counted (rq_body_nil r) (h (r\<lparr>rq_body_nil := False\<rparr>)))
      (new_recorder, snd (m w Now)) = (((Returned, r2), n), (s, w2))"
  obtains w3 d where "run m (request_log_with True api cfg h r) w = ((Returned, r2), w3)"
    "line_after (base w2) (base w3) (log_level (sr_status s), log_attrs api cfg r2 s n d)"
    "\<And>I. machine_invariant m env_op I \<Longrightarrow> I w2 \<Longrightarrow> I w3"
proof -
  let ?d = "wd_clock (base w2) (wd_ticks (base w2)) - wd_clock (base w) (wd_ticks (base w))"
  let ?w3 = "snd (m (snd (m (snd (m w2 Now)) AskLogger))
      (Log AppLogger (log_level (sr_status s)) ''http request'' (log_attrs api cfg r2 s n ?d)))"
  have l: "wd_logger (base w2)"
    using logger_stays_over [of status_recorder "counted (rq_body_nil r) (h (r\<lparr>rq_body_nil := False\<rparr>))"
        "(new_recorder, snd (m w Now))"] rec logger by (simp add: env_simps)
  have "run m (request_log_with True api cfg h r) w = ((Returned, r2), ?w3)"
    using rec l by (simp add: request_log_with_def run_bind run_recorder env_simps case_prod_beta unless_panic_def)
  moreover have "line_after (base w2) (base ?w3) (log_level (sr_status s), log_attrs api cfg r2 s n ?d)"
    using l by (simp add: env_simps line_after_def)
  moreover have "I ?w3" if "machine_invariant m env_op I" "I w2" for I
    using machine_invariant.step [OF that(1)] that(2) by simp
  ultimately show ?thesis by (rule that)
qed

lemma logged_recover_returns:
  assumes "wd_logger (base w)"
  shows "fst (fst (run m (request_log_with True api cfg (recover True None h) r) w)) = Returned"
proof -
  let ?p = "counted (rq_body_nil r) (recover True None h (r\<lparr>rq_body_nil := False\<rparr>))"
  let ?w1 = "(new_recorder, snd (m w Now))"
  obtain out r2 n s w2 where rec: "run (over status_recorder m) ?p ?w1 = (((out, r2), n), (s, w2))"
    by (metis surj_pair)
  have "fst (fst (fst (run (over status_recorder m) ?p ?w1))) = Returned"
    using assms by (intro env_machine.counted_recover_returns [OF over_recorder]) (simp add: env_simps)
  then have "out = Returned" using rec by simp
  with request_log_line [where h = "recover True None h" and r = r, OF assms] rec show ?thesis
    by (metis fst_conv)
qed

lemma request_id_served:
  obtains rid w1 where "valid_request_id_regex rid"
    "base w1 = (base w)\<lparr>wd_rands := wd_rands (base w1), wd_header := hset (wd_header (base w)) ''X-Request-ID'' rid\<rparr>"
    "run m (request_id next r) w =
       run m (serve_copy next r (r\<lparr>rq_ctx := (rq_ctx r)(RequestIDKey \<mapsto> rid)\<rparr>)) w1"
    "\<And>I. machine_invariant m env_op I \<Longrightarrow> I w \<Longrightarrow> I w1"
proof -
  let ?id = "hget (rq_header r) ''X-Request-ID''"
  let ?new = "?id = [] \<or> length ?id > 256 \<or> \<not> valid_request_id_regex ?id"
  let ?bs = "fill 16 (fst (wd_random (base w) (wd_rands (base w))))"
  let ?rid = "if ?new then hex_encode ?bs else ?id"
  let ?w0 = "if ?new then snd (m w (Rand 16)) else w"
  let ?w1 = "snd (m ?w0 (HSet ''X-Request-ID'' ?rid))"
  have "?bs \<noteq> []" using length_fill [of 16 "fst (wd_random (base w) (wd_rands (base w)))"] by fastforce
  then have "valid_request_id_regex ?rid" by (simp add: hex_request_id)
  moreover have "base ?w1 = (base w)\<lparr>wd_rands := wd_rands (base ?w1),
      wd_header := hset (wd_header (base w)) ''X-Request-ID'' ?rid\<rparr>"
    by (simp add: env_simps case_prod_beta)
  moreover have "run m (request_id next r) w =
      run m (serve_copy next r (r\<lparr>rq_ctx := (rq_ctx r)(RequestIDKey \<mapsto> ?rid)\<rparr>)) ?w1"
    by (simp add: request_id_def run_bind generate_request_id_def env_simps Let_def case_prod_beta)
  moreover have "I ?w1" if "machine_invariant m env_op I" "I w" for I
    using machine_invariant.step [OF that(1)] that(2) by simp
  ultimately show ?thesis by (rule that)
qed

end


subsection \<open>The chain\<close>

definition golden_chain :: "logs_api \<Rightarrow> middleware" where
  "golden_chain api = chain [metrics, request_id, request_log True api, recover True None]"

lemma golden_chain_nested: "golden_chain api h = metrics (request_id (request_log True api (recover True None h)))"
  by (simp add: golden_chain_def chain_foldr)

text \<open>What the chain inside \<open>RequestID\<close> does on its own account.\<close>

definition chain_op :: "op \<Rightarrow> bool" where
  "chain_op e \<longleftrightarrow> (case e of Now \<Rightarrow> True | AskLogger \<Rightarrow> True | Stack \<Rightarrow> True | Log lg lv msg ats \<Rightarrow> True
     | HDel k \<Rightarrow> k = ''Content-Length'' | HSet k v \<Rightarrow> k = ''Content-Type'' \<or> k = ''X-Content-Type-Options''
     | WHeader c \<Rightarrow> c = 500 | WWrite p \<Rightarrow> True | _ \<Rightarrow> False)"

lemma chain_op_simps [simp]:
  "chain_op Now" "chain_op AskLogger" "chain_op Stack" "chain_op (Log lg lv msg ats)" "chain_op (WWrite p)"
  "chain_op (HDel k) \<longleftrightarrow> k = ''Content-Length''" "chain_op (WHeader c) \<longleftrightarrow> c = 500"
  "chain_op (HSet k v) \<longleftrightarrow> k = ''Content-Type'' \<or> k = ''X-Content-Type-Options''"
  by (simp_all add: chain_op_def)

lemma recover_ops:
  assumes "\<And>e. chain_op e \<Longrightarrow> P e" "chain_layers P" "ops_ok P (h r)"
  shows "ops_ok P (recover True None h r)"
proof -
  have "ops_ok P (default_error_writer r' (recover_failure r'))" for r'
    using assms(1)
    by (auto simp: default_error_writer_def http_error_def recover_failure_def unless_panic_def Let_def
        intro!: ops_ok_bind split: res.split)
  moreover have "ops_ok P (lay status_recorder (h r) new_recorder)"
    using assms(2,3) by (simp add: chain_layers_def ops_ok_lay)
  ultimately show ?thesis using assms(1)
    by (auto simp: recover_def recover_logger_def error_writer_or_default_def Let_def
        intro!: ops_ok_bind split: prod.split outcome.split res.split)
qed

lemma counted_ops: "chain_layers P \<Longrightarrow> ops_ok P p \<Longrightarrow> ops_ok P (counted nil_body p)"
  by (auto simp: counted_def chain_layers_def ops_ok_lay intro!: ops_ok_bind split: prod.split)

lemma request_log_ops:
  assumes "\<And>e. chain_op e \<Longrightarrow> P e" "chain_layers P" "\<And>r. ops_ok P (next r)"
  shows "ops_ok P (request_log_with True api cfg next r)"
proof -
  have "ops_ok P (lay status_recorder (counted (rq_body_nil r) (next (r\<lparr>rq_body_nil := False\<rparr>))) new_recorder)"
    using assms(2,3) by (intro ops_ok_lay counted_ops) (simp_all add: chain_layers_def)
  then show ?thesis using assms(1)
    by (auto simp: request_log_with_def unless_panic_def
        intro!: ops_ok_bind split: prod.split outcome.split res.split)
qed

lemma request_id_ops:
  assumes "\<And>n. P (Rand n)" "\<And>v. P (HSet ''X-Request-ID'' v)" "\<And>r. ops_ok P (next r)"
  shows "ops_ok P (request_id next r)"
  using assms
  by (auto simp: request_id_def generate_request_id_def serve_copy_def Let_def intro!: ops_ok_bind split: prod.split)

lemma inner_ops:
  assumes "\<And>e. chain_op e \<Longrightarrow> P e" "chain_layers P" "\<And>r. ops_ok P (h r)"
  shows "ops_ok P (request_log True api (recover True None h) r)"
  unfolding request_log_def by (intro request_log_ops recover_ops assms)

text \<open>The response and the log of a world, as opposed to its meters and its clock.\<close>

definition response_of where
  "response_of w = (wd_wrote w, wd_hijacked w, wd_status w, wd_sent w, wd_header w, wd_body w, wd_frame_len w, wd_logs w)"

lemma metrics_return:
  assumes rec: "recorded (nx r) (on_meters (w\<lparr>wd_ticks := wd_ticks w + 1\<rparr>) (in_flight_add 1)) = ((Returned, r2), (s, w2))"
    and meter: "http_meter w = Some m"
  obtains w' where "run net_step (metrics nx r) w = ((Returned, r2), w')" "response_of w' = response_of w2"
    "http_meter w2 = Some (m\<lparr>mt_in_flight := mt_in_flight m + 1\<rparr>) \<Longrightarrow>
     \<exists>d. http_meter w' = Some (meter_add m (get_route_pattern r2 @ [key_sep] @ http_instr_middleware)
       (status_class (sr_status s)) d)"
proof -
  let ?d = "wd_clock w2 (wd_ticks w2) - wd_clock w (wd_ticks w)"
  let ?v = "w2\<lparr>wd_ticks := wd_ticks w2 + 1,
    wd_meters := record_http_from_middleware (wd_meters w2) (get_route_pattern r2) (sr_status s) ?d\<rparr>"
  let ?w' = "snd (net_step ?v (InFlight (- 1)))"
  have "has_http_meter w" using meter by (auto simp: http_meter_def has_http_meter_def split: option.splits)
  then have run: "run net_step (metrics nx r) w = ((Returned, r2), ?w')"
    using rec by (simp add: metrics_def run_bind run_recorded has_http_meter_def case_prod_beta)
  have resp: "response_of ?w' = response_of w2" by (simp add: response_of_def on_meters_def)
  have route: "get_route_pattern r2 \<noteq> []" by (simp add: get_route_pattern_def)
  have sample: "http_meter ?w' = Some (meter_add m (get_route_pattern r2 @ [key_sep] @ http_instr_middleware)
      (status_class (sr_status s)) (clamp_duration ?d))"
    if m2: "http_meter w2 = Some (m\<lparr>mt_in_flight := mt_in_flight m + 1\<rparr>)"
  proof -
    obtain ms where ms: "wd_meters w2 = Some ms" "ms_http ms = Some (m\<lparr>mt_in_flight := mt_in_flight m + 1\<rparr>)"
      using m2 by (auto simp: http_meter_def split: option.splits)
    then show ?thesis using route
      by (simp add: http_meter_def on_meters_def in_flight_add_def record_http_from_middleware_def record_http_def
          http_instr_middleware_def Let_def meter_add_def classes_of_def has_http_meter_def)
  qed
  show ?thesis by (rule that [OF run resp]) (blast intro: sample)
qed

interpretation recenv: env_machine "over status_recorder net_step" "\<lambda>sw. snd sw"
  by (rule netenv.over_recorder)

lemma golden_inner_returns:
  assumes "wd_logger w"
  shows "fst (fst (recorded (request_id (request_log True api (recover True None h)) r) w)) = Returned"
proof -
  obtain rid w1 where served: "snd w1 = w\<lparr>wd_rands := wd_rands (snd w1), wd_header := hset (wd_header w) ''X-Request-ID'' rid\<rparr>"
    "recorded (request_id (request_log True api (recover True None h)) r) w =
       run (over status_recorder net_step)
         (serve_copy (request_log True api (recover True None h)) r (r\<lparr>rq_ctx := (rq_ctx r)(RequestIDKey \<mapsto> rid)\<rparr>)) w1"
    using recenv.request_id_served [where w = "(new_recorder, w)" and r = r] by (metis snd_conv)
  have "wd_logger (snd w1)" using assms by (subst served(1)) simp
  from recenv.logged_recover_returns [OF this] show ?thesis
    unfolding served(2) by (simp add: run_serve_copy request_log_def case_prod_beta)
qed

subsection \<open>Recorders on top of each other agree\<close>

lemma stacked_step:
  "fst sw = fst (snd sw) \<Longrightarrow>
   fst (snd (over status_recorder (over status_recorder m) sw e)) = fst (snd (snd (over status_recorder (over status_recorder m) sw e)))"
proof -
  assume eq: "fst sw = fst (snd sw)"
  obtain s w where sw: "sw = (s, (s, w))" using eq by (metis prod.collapse)
  show ?thesis
  proof (cases "env_op e")
    case True
    then show ?thesis using eq by (simp add: over_passes [of env_op])
  next
    case False
    then show ?thesis
      by (cases e)
        (auto simp: sw env_op_def over_def sr_write_header_def sr_write_def sr_flush_def sr_hijack_def sr_push_def Let_def
          split: prod.split res.split if_splits)
  qed
qed

interpretation stacked: machine_invariant "over status_recorder (over status_recorder m)" "\<lambda>e. True"
  "\<lambda>sw. fst sw = fst (snd sw)" for m
  by unfold_locales (rule stacked_step)


interpretation recinv2: machine_invariant "over status_recorder (over status_recorder net_step)" plain_op
  "\<lambda>sw. rec_inv (snd sw)"
  by (rule recinv.over_invariant) (rule chain_layersI [of plain_op, THEN chain_layers_recorder], simp)

interpretation recfresh: machine_invariant "over status_recorder m" env_op "\<lambda>sw. fst sw = s" for m s
  by unfold_locales (simp add: over_passes [of env_op])


lemma rets_all: "(\<And>a. Q a) \<Longrightarrow> rets Q p"
  by (induction p) auto

lemma request_id_keeps_pattern: "rets (\<lambda>x. rq_pattern (snd x) = rq_pattern r) (request_id next r)"
  by (auto simp: request_id_def generate_request_id_def serve_copy_def Let_def intro: rets_all split: prod.split)

lemma golden_inner_log:
  assumes logger: "wd_logger w"
    and run: "recorded (request_id (request_log True api (recover True None h)) r) w = ((Returned, r'), (s, w'))"
  shows "\<exists>logs attrs. wd_logs w' = logs @ [(AppLogger, log_level (sr_status s), ''http request'', attrs)]
    \<and> map_of attrs ''status'' = Some (AInt (sr_status s))
    \<and> map_of attrs ''response_bytes'' = Some (AInt (int (sr_written s)))"
proof -
  let ?m = "over status_recorder net_step" and ?L = "request_log True api (recover True None h)"
  obtain rid w1 where w1: "snd w1 = w\<lparr>wd_rands := wd_rands (snd w1), wd_header := hset (wd_header w) ''X-Request-ID'' rid\<rparr>"
    "recorded (request_id ?L r) w = run ?m (serve_copy ?L r (r\<lparr>rq_ctx := (rq_ctx r)(RequestIDKey \<mapsto> rid)\<rparr>)) w1"
    "\<And>I. machine_invariant ?m env_op I \<Longrightarrow> I (new_recorder, w) \<Longrightarrow> I w1"
    using recenv.request_id_served [where w = "(new_recorder, w)" and r = r] by (metis snd_conv)
  have start: "fst w1 = new_recorder" by (rule w1(3) [OF recfresh.machine_invariant_axioms]) simp
  have l: "wd_logger (snd w1)" using logger by (subst w1(1)) simp
  let ?r1 = "r\<lparr>rq_ctx := (rq_ctx r)(RequestIDKey \<mapsto> rid)\<rparr>"
  let ?p = "counted (rq_body_nil ?r1) (recover True None h (?r1\<lparr>rq_body_nil := False\<rparr>))"
  let ?w2 = "(new_recorder, snd (?m w1 Now))"
  obtain out r2 n s1 s2 w2 where rec: "run (over status_recorder ?m) ?p ?w2 = (((out, r2), n), (s1, (s2, w2)))"
    by (metis surj_pair)
  have "fst (fst (fst (run (over status_recorder ?m) ?p ?w2))) = Returned"
    using l by (intro env_machine.counted_recover_returns [OF recenv.over_recorder]) (simp add: recenv.env_simps)
  with rec have ret: "run (over status_recorder ?m) ?p ?w2 = (((Returned, r2), n), (s1, (s2, w2)))" by simp
  obtain w3 d where line: "run ?m (request_log_with True api default_log_config (recover True None h) ?r1) w1 = ((Returned, r2), w3)"
    "line_after (snd (s2, w2)) (snd w3) (log_level (sr_status s1), log_attrs api default_log_config r2 s1 n d)"
    "\<And>I. machine_invariant ?m env_op I \<Longrightarrow> I (s2, w2) \<Longrightarrow> I w3"
    using recenv.request_log_line [where h = "recover True None h" and r = ?r1 and api = api and cfg = default_log_config, OF l ret]
    by metis
  have "fst w3 = s2" by (rule line(3) [OF recfresh.machine_invariant_axioms]) simp
  moreover have "w3 = (s, w')"
    using run unfolding w1(2) by (simp add: run_serve_copy request_log_def line(1) case_prod_beta prod_eq_iff)
  moreover have "s1 = s2"
    using stacked.run_inv [of ?p ?w2 net_step] ret start by (simp add: over_passes [of env_op])
  ultimately show ?thesis using line(2)
    by (auto simp: line_after_def log_attrs_def Let_def)
qed

text \<open>
  C11.  The chain \<open>Chain(Metrics, RequestID, RequestLog, Recover)\<close> contains every panic: whatever the handler
  behind it does, the call returns to \<open>net/http\<close>, as long as the server has its meter and its logger.
\<close>

theorem golden_contains_every_panic:
  assumes "has_http_meter w" "wd_logger w"
  shows "fst (fst (run net_step (golden_chain api h r) w)) = Returned"
proof -
  let ?w1 = "on_meters (w\<lparr>wd_ticks := wd_ticks w + 1\<rparr>) (in_flight_add 1)"
  obtain out r2 s w2 where rec: "recorded (request_id (request_log True api (recover True None h)) r) ?w1 = ((out, r2), (s, w2))"
    by (metis surj_pair)
  have "fst (fst (recorded (request_id (request_log True api (recover True None h)) r) ?w1)) = Returned"
    using assms(2) by (intro golden_inner_returns) (simp add: on_meters_def)
  with rec have r: "recorded (request_id (request_log True api (recover True None h)) r) ?w1 = ((Returned, r2), (s, w2))" by simp
  obtain m where "http_meter w = Some m" using assms(1) by (auto simp: has_http_meter_def http_meter_def split: option.splits)
  then obtain w' where "run net_step (metrics (request_id (request_log True api (recover True None h))) r) w = ((Returned, r2), w')"
    using metrics_return [where r = r and nx = "request_id (request_log True api (recover True None h))", OF r] by metis
  then show ?thesis by (simp only: golden_chain_nested fst_conv)
qed

text \<open>
  C12.  The chain tells one story about a request.  Whatever a handler does that sends final status codes only,
  neither flushes nor hijacks and does not record on the HTTP meter itself, and wherever it panics: exactly
  one sample is added to the HTTP meter, under the class of the status the client got; the last log line is
  at the level of that status and carries it, with the number of body bytes sent.
\<close>

theorem golden_one_story:
  assumes plain: "\<And>r. ops_ok quiet_op (h r)"
    and fresh: "net_uncommitted w" "wd_body w = []" "http_meter w = Some m" "wd_logger w"
    and run: "run net_step (golden_chain api h r) w = ((out, r'), w')"
  shows "\<exists>d logs attrs. let status = wd_status (net_finish Returned w') in out = Returned
     \<and> http_meter w' = Some (meter_add m (get_route_pattern r @ [key_sep] @ http_instr_middleware) (status_class status) d)
     \<and> wd_logs w' = logs @ [(AppLogger, log_level status, ''http request'', attrs)]
     \<and> map_of attrs ''status'' = Some (AInt status)
     \<and> map_of attrs ''response_bytes'' = Some (AInt (int (sent_bytes w')))"
proof -
  let ?N = "request_id (request_log True api (recover True None h))"
  let ?w1 = "on_meters (w\<lparr>wd_ticks := wd_ticks w + 1\<rparr>) (in_flight_add 1)"
  obtain o2 r2 s w2 where rec: "recorded (?N r) ?w1 = ((o2, r2), (s, w2))" by (metis surj_pair)
  have l: "wd_logger ?w1" using fresh(4) by (simp add: on_meters_def)
  have "o2 = Returned" using golden_inner_returns [OF l, of api h r] rec by simp
  note rec = rec [unfolded this]
  have "ops_ok quiet_op (?N r)"
    by (intro request_id_ops inner_ops chain_layersI plain)
      (auto simp: quiet_op_def chain_op_def plain_op_def split: op.splits)
  moreover have "net_uncommitted ?w1" "wd_body ?w1 = []" using fresh by (simp_all add: net_uncommitted_def on_meters_def)
  ultimately have facts: "rec_inv (s, w2)" "http_meter w2 = http_meter ?w1"
    using recorded_facts [OF _ _ _ rec] by blast+
  have m2: "http_meter w2 = Some (m\<lparr>mt_in_flight := mt_in_flight m + 1\<rparr>)"
    using facts(2) fresh(3) by (auto simp: http_meter_def on_meters_def in_flight_add_def split: option.splits)
  obtain w3 where w3: "run net_step (metrics ?N r) w = ((Returned, r2), w3)" "response_of w3 = response_of w2"
    "\<exists>d. http_meter w3 = Some (meter_add m (get_route_pattern r2 @ [key_sep] @ http_instr_middleware)
       (status_class (sr_status s)) d)"
    using metrics_return [where r = r and nx = ?N, OF rec fresh(3)] m2 by metis
  then have w': "out = Returned" "w3 = w'" using run by (simp_all add: golden_chain_nested)
  have st: "wd_status (net_finish Returned w') = sr_status s" "sent_bytes w' = sr_written s" "wd_logs w' = wd_logs w2"
    using rec_inv_status [OF facts(1)] rec_inv_written [OF facts(1)] w3(2) w'(2) sent_bytes_cong [of w' w2]
    by (auto simp: response_of_def finish_status split: if_splits)
  have route: "get_route_pattern r2 = get_route_pattern r"
    using rets_run [OF request_id_keeps_pattern [of r "request_log True api (recover True None h)"],
        of "over status_recorder net_step" "(new_recorder, ?w1)"] rec by (simp add: get_route_pattern_def)
  show ?thesis using golden_inner_log [OF l rec] w3(3) unfolding Let_def w' st route by blast
qed

subsection \<open>One request id\<close>

text \<open>A handler that leaves the header \<open>X-Request-ID\<close> alone, and one that logs nothing itself.\<close>

definition keeps_id :: "op \<Rightarrow> bool" where
  "keeps_id e \<longleftrightarrow> (case e of HSet k v \<Rightarrow> canonical k \<noteq> ''X-Request-Id'' | HAdd k v \<Rightarrow> canonical k \<noteq> ''X-Request-Id''
     | HDel k \<Rightarrow> canonical k \<noteq> ''X-Request-Id'' | _ \<Rightarrow> True)"

definition no_log :: "op \<Rightarrow> bool" where
  "no_log e \<longleftrightarrow> (case e of Log lg lv msg ats \<Rightarrow> False | _ \<Rightarrow> True)"

definition id_inv :: "string \<Rightarrow> world \<Rightarrow> bool" where
  "id_inv rid w \<longleftrightarrow> hget (wd_header w) ''X-Request-ID'' = rid
     \<and> (wd_wrote w \<longrightarrow> hget (wd_sent w) ''X-Request-ID'' = rid)"

lemma id_inv_header: "id_inv rid w \<Longrightarrow> id_inv rid (snd (net_write_header c w))"
  by (auto simp: id_inv_def net_write_header_def)

lemma net_write_frame:
  "wd_header (snd (net_write p w)) = wd_header (if wd_hijacked w then w else snd (net_write_header 200 w))"
  "wd_sent (snd (net_write p w)) = wd_sent (if wd_hijacked w then w else snd (net_write_header 200 w))"
  "wd_wrote (snd (net_write p w)) = wd_wrote (if wd_hijacked w then w else snd (net_write_header 200 w))"
  by (simp_all add: net_write_def Let_def split: option.split)

lemma id_inv_step: "keeps_id e \<Longrightarrow> id_inv rid w \<Longrightarrow> id_inv rid (snd (net_step w e))"
proof (cases "\<exists>p. e = WWrite p")
  case True
  moreover assume "id_inv rid w"
  ultimately show ?thesis using id_inv_header [of rid w 200]
    by (auto simp: id_inv_def net_write_frame)
next
  case False
  moreover assume "keeps_id e" "id_inv rid w"
  ultimately show ?thesis
    by (cases e)
      (auto simp: id_inv_header, auto simp: id_inv_def keeps_id_def header_simps net_hijack_def net_read_def
        on_meters_def case_prod_beta split: option.split list.split)
qed

interpretation idkept: machine_invariant net_step keeps_id "id_inv rid" for rid
  by unfold_locales (rule id_inv_step)

lemma no_log_step: "no_log e \<Longrightarrow> wd_logs (snd (net_step w e)) = wd_logs w"
  by (cases e)
    (auto simp: no_log_def net_write_header_def net_write_def net_hijack_def net_read_def on_meters_def Let_def
      case_prod_beta split: option.split list.split)

interpretation nolog: machine_invariant net_step no_log "\<lambda>w. wd_logs w = logs" for logs
  by unfold_locales (simp add: no_log_step)

lemma id_layers [simp]: "chain_layers keeps_id" "chain_layers no_log"
  by (intro chain_layersI; simp add: keeps_id_def no_log_def)+

text \<open>A log record that carries a request id.\<close>

definition tagged :: "string \<Rightarrow> logger \<times> level \<times> string \<times> (string \<times> attr) list \<Rightarrow> bool" where
  "tagged rid rec \<longleftrightarrow> (case rec of (lg, lv, msg, attrs) \<Rightarrow> map_of attrs ''request_id'' = Some (AStr rid))"

definition tagged_more :: "string \<Rightarrow> world \<Rightarrow> world \<Rightarrow> bool" where
  "tagged_more rid w w' \<longleftrightarrow> (\<exists>new. wd_logs w' = wd_logs w @ new \<and> list_all (tagged rid) new)"

definition keeps_ctx :: "handler \<Rightarrow> bool" where
  "keeps_ctx h \<longleftrightarrow> (\<forall>r. rets (\<lambda>x. rq_ctx (snd x) = rq_ctx r) (h r))"

lemma default_writer_no_log: "ops_ok no_log (default_error_writer r f)"
  by (auto simp: default_error_writer_def http_error_def unless_panic_def no_log_def Let_def
      intro!: ops_ok_bind split: res.split)

lemma request_id_cong: "rq_ctx r' = rq_ctx r \<Longrightarrow> request_id_from r' = request_id_from r"
  by (simp add: request_id_from_def)

context env_machine begin

lemma recover_tags:
  assumes "wd_logger (base w)" and quiet: "ops_ok no_log (h r)" "keeps_ctx h"
    and run: "run m (recover True None h r) w = ((out, r2), w')"
  shows "tagged_more (request_id_from r) (base w) (base w') \<and> rq_ctx r2 = rq_ctx r"
proof -
  obtain o1 r1 s w1 where rec: "run (over status_recorder m) (h r) (new_recorder, w) = ((o1, r1), (s, w1))"
    by (metis surj_pair)
  have ctx: "rq_ctx r1 = rq_ctx r"
    using rets_run [of "\<lambda>x. rq_ctx (snd x) = rq_ctx r" "h r" "over status_recorder m" "(new_recorder, w)"] quiet(2) rec
    by (simp add: keeps_ctx_def)
  have same: "wd_logs (base w1) = wd_logs (base w)"
    using machine_invariant.run_inv [OF env_machine.inherits [OF over_recorder id_layers(2) nolog.machine_invariant_axioms]
        quiet(1), of "(new_recorder, w)" "wd_logs (base w)"] rec by simp
  show ?thesis
  proof (cases o1)
    case Returned
    with recover_return [where h = h and r = r] rec run same ctx show ?thesis
      by (simp add: tagged_more_def)
  next
    case (Panicked p)
    note rec = rec [unfolded Panicked]
    obtain w3 where w3:
      "base w3 = (base w1)\<lparr>wd_logs := wd_logs (base w1) @ [(AppLogger, LError, ''panic recovered'', panic_attrs p r1)]\<rparr>"
      "run m (recover True None h r) w = (if sr_committed s then ((Returned, r1), w3)
         else run m (error_writer_or_default None r1 (recover_failure r1)) w3)"
      using recover_panic [where h = h and r = r, OF assms(1) rec] by metis
    let ?v = "snd (run m (default_error_writer r1 (recover_failure r1)) w3)"
    have v: "wd_logs (base ?v) = wd_logs (base w3)"
      using machine_invariant.run_inv [OF inherits [OF id_layers(2) nolog.machine_invariant_axioms]
          default_writer_no_log, of w3 "wd_logs (base w3)"] by simp
    have "fst (run m (default_error_writer r1 (recover_failure r1)) w3) = (Returned, r1)"
      by (simp add: default_writer_returns recover_failure_def)
    then have "r2 = r1" "wd_logs (base w') = wd_logs (base w3)"
      using w3(2) run v by (auto simp: error_writer_or_default_def prod_eq_iff split: if_splits)
    then show ?thesis using w3(1) same ctx request_id_cong [OF ctx]
      by (simp add: tagged_more_def tagged_def panic_attrs_def)
  qed
qed

lemma counted_recover_tags:
  assumes "wd_logger (base w)" "ops_ok no_log (h r)" "keeps_ctx h"
    and run: "run m (counted nil_body (recover True None h r)) w = (((out, r2), n), w')"
  shows "tagged_more (request_id_from r) (base w) (base w') \<and> rq_ctx r2 = rq_ctx r"
proof (cases nil_body)
  case True
  have e: "env_machine (over counting_body (over no_body m)) (\<lambda>sw. base (snd (snd sw)))"
    using env_machine.over_counting [OF over_no_body] .
  obtain x v where "run (over counting_body (over no_body m)) (recover True None h r) (0, ((), w)) = (x, v)" by (metis surj_pair)
  with env_machine.recover_tags [OF e, of "(0, ((), w))" h r] assms True show ?thesis
    by (simp add: counted_def run_bind run_lay case_prod_beta)
next
  case False
  obtain x v where "run (over counting_body m) (recover True None h r) (0, w) = (x, v)" by (metis surj_pair)
  with env_machine.recover_tags [OF over_counting, of "(0, w)" h r] assms False show ?thesis
    by (auto simp: counted_def run_lay split: prod.splits)
qed

lemma logged_tags:
  assumes "wd_logger (base w)" "\<And>r. ops_ok no_log (h r)" "keeps_ctx h"
    and run: "run m (request_log_with True api cfg (recover True None h) r) w = ((Returned, r2), w')"
  shows "\<exists>new lv attrs. wd_logs (base w') = wd_logs (base w) @ new @ [(AppLogger, lv, ''http request'', attrs)]
    \<and> list_all (tagged (request_id_from r)) (new @ [(AppLogger, lv, ''http request'', attrs)])"
proof -
  let ?p = "counted (rq_body_nil r) (recover True None h (r\<lparr>rq_body_nil := False\<rparr>))"
  let ?w1 = "(new_recorder, snd (m w Now))"
  obtain out r3 n s w2 where rec: "run (over status_recorder m) ?p ?w1 = (((out, r3), n), (s, w2))"
    by (metis surj_pair)
  have l: "wd_logger (base (snd ?w1))" "base (snd (m w Now)) = (base w)\<lparr>wd_ticks := wd_ticks (base w) + 1\<rparr>"
    using assms(1) by (simp_all add: env_simps)
  have "fst (fst (fst (run (over status_recorder m) ?p ?w1))) = Returned"
    using l by (intro env_machine.counted_recover_returns [OF over_recorder]) simp
  with rec have ret: "run (over status_recorder m) ?p ?w1 = (((Returned, r3), n), (s, w2))" by simp
  have tags: "tagged_more (request_id_from r) (base w) (base w2)" "request_id_from r3 = request_id_from r"
    using env_machine.counted_recover_tags [OF over_recorder _ assms(2,3) rec] l
    by (simp_all add: tagged_more_def request_id_from_def)
  obtain w3 d where run3: "run m (request_log_with True api cfg (recover True None h) r) w = ((Returned, r3), w3)"
    and line: "line_after (base w2) (base w3) (log_level (sr_status s), log_attrs api cfg r3 s n d)"
    by (rule request_log_line [where h = "recover True None h" and r = r and api = api and cfg = cfg, OF assms(1) ret])
      (rule that; assumption)
  have "w' = w3" using run run3 by simp
  moreover have "map_of (log_attrs api cfg r3 s n d) ''request_id'' = Some (AStr (request_id_from r))"
    by (simp add: log_attrs_def tags(2) Let_def)
  then have "tagged (request_id_from r) (AppLogger, log_level (sr_status s), ''http request'', log_attrs api cfg r3 s n d)"
    by (simp add: tagged_def)
  moreover obtain new where "wd_logs (base w2) = wd_logs (base w) @ new" "list_all (tagged (request_id_from r)) new"
    using tags(1) by (auto simp: tagged_more_def)
  ultimately show ?thesis using line by (auto simp: line_after_def)
qed

end

lemma golden_inner_id:
  assumes "net_uncommitted w" "wd_logger w"
    and h: "\<And>r. ops_ok keeps_id (h r)" "\<And>r. ops_ok no_log (h r)" "keeps_ctx h"
    and run: "recorded (request_id (request_log True api (recover True None h)) r) w = ((Returned, r'), (s, w'))"
  shows "\<exists>rid new lv attrs. valid_request_id_regex rid \<and> id_inv rid w'
    \<and> wd_logs w' = wd_logs w @ new @ [(AppLogger, lv, ''http request'', attrs)]
    \<and> list_all (tagged rid) (new @ [(AppLogger, lv, ''http request'', attrs)])"
proof -
  let ?m = "over status_recorder net_step" and ?L = "request_log True api (recover True None h)"
  obtain rid w1 where valid: "valid_request_id_regex rid"
    and w1: "snd w1 = w\<lparr>wd_rands := wd_rands (snd w1), wd_header := hset (wd_header w) ''X-Request-ID'' rid\<rparr>"
    and served: "recorded (request_id ?L r) w = run ?m (serve_copy ?L r (r\<lparr>rq_ctx := (rq_ctx r)(RequestIDKey \<mapsto> rid)\<rparr>)) w1"
    using recenv.request_id_served [where w = "(new_recorder, w)" and r = r] by (metis snd_conv)
  let ?r1 = "r\<lparr>rq_ctx := (rq_ctx r)(RequestIDKey \<mapsto> rid)\<rparr>"
  have start: "id_inv rid (snd w1)" "wd_logger (snd w1)" "wd_logs (snd w1) = wd_logs w"
    using assms(1,2) by (subst w1; simp add: id_inv_def header_simps net_uncommitted_def)+
  obtain r2 where ran: "run ?m (?L ?r1) w1 = ((Returned, r2), (s, w'))"
    using run unfolding served by (auto simp: run_serve_copy split: prod.splits)
  have "ops_ok keeps_id (?L ?r1)"
    by (intro inner_ops h) (auto simp: keeps_id_def chain_op_def split: op.splits)
  then have "id_inv rid w'"
    using machine_invariant.run_inv [OF recenv.inherits [OF id_layers(1) idkept.machine_invariant_axioms],
        where p = "?L ?r1" and w = w1]
      start(1) ran by simp
  moreover have "request_id_from ?r1 = rid" by (simp add: request_id_from_def)
  ultimately show ?thesis
    using valid start(3) recenv.logged_tags [OF start(2) h(2,3) ran [unfolded request_log_def]] by auto
qed

text \<open>
  C13.  One request id runs through a request.  Behind the chain, for every handler that leaves the header
  and the context entry of the request id alone and logs nothing itself, there is one valid identifier that the
  client gets as \<open>X-Request-ID\<close> and that every log line of the request carries: the line of the request and, when
  the handler panicked, the line of the panic.
\<close>

theorem golden_request_id:
  assumes h: "\<And>r. ops_ok (\<lambda>e. keeps_id e \<and> no_log e) (h r)" "keeps_ctx h"
    and fresh: "net_uncommitted w" "has_http_meter w" "wd_logger w"
    and run: "run net_step (golden_chain api h r) w = ((out, r'), w')"
  shows "\<exists>rid new lv attrs. valid_request_id_regex rid
    \<and> wd_logs w' = wd_logs w @ new @ [(AppLogger, lv, ''http request'', attrs)]
    \<and> list_all (tagged rid) (new @ [(AppLogger, lv, ''http request'', attrs)])
    \<and> (wd_wrote (net_finish out w') \<longrightarrow> hget (wd_sent (net_finish out w')) ''X-Request-ID'' = rid)"
proof -
  let ?N = "request_id (request_log True api (recover True None h))"
  let ?w1 = "on_meters (w\<lparr>wd_ticks := wd_ticks w + 1\<rparr>) (in_flight_add 1)"
  have fresh1: "net_uncommitted ?w1" "wd_logger ?w1" "wd_logs ?w1 = wd_logs w"
    using fresh by (simp_all add: on_meters_def net_uncommitted_def)
  have ops: "ops_ok keeps_id (h r)" "ops_ok no_log (h r)" for r
    using ops_ok_mono [OF h(1)] by blast+
  obtain o2 r2 s w2 where rec: "recorded (?N r) ?w1 = ((o2, r2), (s, w2))" by (metis surj_pair)
  have "o2 = Returned" using golden_inner_returns [OF fresh1(2), of api h r] rec by simp
  note rec = rec [unfolded this]
  obtain m where m: "http_meter w = Some m" using fresh(2) by (auto simp: has_http_meter_def http_meter_def split: option.splits)
  obtain w3 where "run net_step (metrics ?N r) w = ((Returned, r2), w3)" "response_of w3 = response_of w2"
    using metrics_return [where r = r and nx = ?N, OF rec m] by metis
  then have w': "response_of w' = response_of w2" using run by (simp add: golden_chain_nested)
  obtain rid new lv attrs where id: "valid_request_id_regex rid" "id_inv rid w2"
    "wd_logs w2 = wd_logs ?w1 @ new @ [(AppLogger, lv, ''http request'', attrs)]"
    "list_all (tagged rid) (new @ [(AppLogger, lv, ''http request'', attrs)])"
    using golden_inner_id [OF fresh1(1,2) ops h(2) rec] by blast
  have "id_inv rid w'" using id(2) w' by (simp add: id_inv_def response_of_def)
  then have "id_inv rid (net_finish out w')" by (simp add: net_finish_def id_inv_header)
  moreover have "wd_logs w' = wd_logs w @ new @ [(AppLogger, lv, ''http request'', attrs)]"
    using id(3) w' fresh1(3) by (simp add: response_of_def)
  ultimately show ?thesis using id(1,4) unfolding id_inv_def by blast
qed

subsection \<open>Concrete runs\<close>

lemma fresh_meter: "has_http_meter fresh_world" "wd_logger fresh_world"
  by (simp_all add: fresh_world_def has_http_meter_def new_meters_def)

theorem golden_contains_every_panic_witness:
  "fst (fst (run net_step (golden_chain plain_logs (panicking ''boom'') blank_request) fresh_world)) = Returned"
  by (rule golden_contains_every_panic [OF fresh_meter])

text \<open>A handler that starts a response and panics in the middle of it.\<close>

definition half_a_page :: handler where
  "half_a_page = (\<lambda>r. Op (WHeader 201) (\<lambda>_. Op (WWrite (Raw ''half'')) (\<lambda>_. Ret (Panicked ''boom'', r))))"

theorem golden_one_story_witness:
  "\<exists>w' d logs attrs. let status = wd_status (net_finish Returned w') in
     snd (run net_step (golden_chain plain_logs half_a_page blank_request) fresh_world) = w'
     \<and> http_meter w' = Some (meter_add new_request_meter (''unknown'' @ [key_sep] @ ''middleware'') (status_class status) d)
     \<and> wd_logs w' = logs @ [(AppLogger, log_level status, ''http request'', attrs)]"
proof -
  obtain out r' w' where r: "run net_step (golden_chain plain_logs half_a_page blank_request) fresh_world = ((out, r'), w')"
    by (metis surj_pair)
  have "ops_ok quiet_op (half_a_page r)" for r by (simp add: half_a_page_def quiet_op_def)
  from golden_one_story [OF this fresh_facts fresh_meter(2) r] r show ?thesis
    by (auto simp: get_route_pattern_def blank_request_def http_instr_middleware_def Let_def)
qed

theorem golden_request_id_witness:
  "\<exists>rid new lv attrs. valid_request_id_regex rid
     \<and> wd_logs (snd (run net_step (golden_chain plain_logs (panicking ''boom'') blank_request) fresh_world)) =
         new @ [(AppLogger, lv, ''http request'', attrs)]
     \<and> list_all (tagged rid) (new @ [(AppLogger, lv, ''http request'', attrs)])"
proof -
  obtain out r' w' where r: "run net_step (golden_chain plain_logs (panicking ''boom'') blank_request) fresh_world = ((out, r'), w')"
    by (metis surj_pair)
  have h: "ops_ok (\<lambda>e. keeps_id e \<and> no_log e) (panicking ''boom'' r)" "keeps_ctx (panicking ''boom'')" for r
    by (simp_all add: panicking_def keeps_ctx_def)
  have "wd_logs fresh_world = []" by (simp add: fresh_world_def)
  then show ?thesis using golden_request_id [OF h fresh_facts(1) fresh_meter r] r by auto
qed

end
