(* ===== verification/Examples.thy ===== *)
theory Examples imports Golden Config begin

text \<open>
  The two programs under \<^verbatim>\<open>examples\<close>: the application components that build the router and the chain and
  install them on the server, and the server their \<open>main\<close> declares.  \<open>http.ServeMux\<close> is modelled as far as
  the first program uses it: patterns with a method and a path without wildcards.  The second program's router
  is third-party code: building a route's handler, running a router and adapting a middleware are parameters.
\<close>

subsection \<open>A router of the standard library\<close>

text \<open>A route is a method, a path and a handler; a path that ends with a slash stands for all below it.\<close>

type_synonym route = "string \<times> string \<times> handler"

definition path_matches :: "string \<Rightarrow> string \<Rightarrow> bool" where
  "path_matches p path \<longleftrightarrow> (if has_suffix p ''/'' then has_prefix path p else path = p)"

definition method_matches :: "string \<Rightarrow> string \<Rightarrow> bool" where
  "method_matches m method \<longleftrightarrow> m = method \<or> (m = ''GET'' \<and> method = ''HEAD'')"

text \<open>The route with the longest path among those a request matches.\<close>

fun best_route :: "string \<Rightarrow> string \<Rightarrow> route list \<Rightarrow> route option" where
  "best_route method path [] = None"
| "best_route method path ((m, p, h) # rest) =
     (if method_matches m method \<and> path_matches p path then
        case best_route method path rest of
          None \<Rightarrow> Some (m, p, h)
        | Some (m', p', h') \<Rightarrow> if length p' > length p then Some (m', p', h') else Some (m, p, h)
      else best_route method path rest)"

definition allowed_methods :: "string \<Rightarrow> route list \<Rightarrow> string list" where
  "allowed_methods path routes =
     sort (remdups (concat (map (\<lambda>(m, p, h).
       if path_matches p path then (if m = ''GET'' then [m, ''HEAD''] else [m]) else []) routes)))"

definition answer_error :: "string \<Rightarrow> int \<Rightarrow> handler" where
  "answer_error msg code = (\<lambda>r. bindP (http_error msg code) (\<lambda>out. Ret (out, r)))"

text \<open>\<open>own\<close> is the mux's own answer to a request whose path is not clean or that is for the server as a whole.\<close>

definition serve_mux :: "(request \<Rightarrow> handler option) \<Rightarrow> route list \<Rightarrow> handler" where
  "serve_mux own routes = (\<lambda>r.
     case own r of
       Some h \<Rightarrow> h r
     | None \<Rightarrow>
         (case best_route (rq_method r) (rq_path r) routes of
            Some (m, p, h) \<Rightarrow> mux_route (m @ '' '' @ p) h r
          | None \<Rightarrow>
              (case allowed_methods (rq_path r) routes of
                 [] \<Rightarrow> mux_route [] (answer_error ''404 page not found'' 404) r
               | ms \<Rightarrow> Op (HSet ''Allow'' (join '', '' ms)) (\<lambda>_.
                   mux_route [] (answer_error (status_text 405) 405) r))))"

subsection \<open>The first program\<close>

text \<open>The component; a server is known by its number in the store of servers.\<close>

record app =
  ap_name :: string
  ap_http_srv :: "nat option"

type_synonym servers = "nat \<rightharpoonup> server"

definition new_app :: app where
  "new_app = \<lparr>ap_name = ''stdlib'', ap_http_srv = None\<rparr>"

definition app_name :: "app \<Rightarrow> string" where
  "app_name a = ap_name a"

definition app_stage :: "app \<Rightarrow> string" where
  "app_stage a = component_stage"

definition app_dependencies :: "app \<Rightarrow> string list" where
  "app_dependencies a = [component_name]"

definition write_text :: "string \<Rightarrow> handler" where
  "write_text s = (\<lambda>r. Op (WWrite (Raw s)) (\<lambda>x. bindP (unless_panic x (Ret Returned)) (\<lambda>out. Ret (out, r))))"

definition stdlib_routes :: "route list" where
  "stdlib_routes = [(''GET'', ''/'', write_text ''Hello, World!''), (''GET'', ''/health'', write_text ''OK'')]"

definition stdlib_handler :: "logs_api \<Rightarrow> (request \<Rightarrow> handler option) \<Rightarrow> handler" where
  "stdlib_handler api own = golden_chain api (serve_mux own stdlib_routes)"

text \<open>\<open>Init\<close>: what the framework finds is the argument; \<open>number\<close> names handlers as the server model does.\<close>

definition app_init ::
  "(handler \<Rightarrow> nat) \<Rightarrow> logs_api \<Rightarrow> (request \<Rightarrow> handler option) \<Rightarrow> nat option \<Rightarrow> app \<Rightarrow> servers \<Rightarrow>
   server_error option \<times> app \<times> servers" where
  "app_init number api own found a svs =
     (case found of
        None \<Rightarrow> (Some (ErrText ''http server not registered''), a, svs)
      | Some srv \<Rightarrow>
          (None, a\<lparr>ap_http_srv := Some srv\<rparr>,
           svs(srv := map_option (set_handler (Some (number (stdlib_handler api own)))) (svs srv))))"

definition app_shutdown :: "app \<Rightarrow> server_error option" where
  "app_shutdown a = None"

definition main_server :: "(f64 \<Rightarrow> duration) \<Rightarrow> server" where
  "main_server cv = new_server cv [with_bind ['':8080''], with_config_source ''http'' ''config/http.json'' []]"

subsection \<open>The second program\<close>

text \<open>
  A handler of the router runs on the world and ends with an error value or a panic; its context holds the
  registered pattern and the status of the response.
\<close>

datatype echo_error = EchoHTTPError int | EchoOther string
datatype echo_result = EchoReturn "echo_error option" | EchoPanic string

record echo_context =
  ec_path :: string
  ec_status :: int
  ec_param :: "string \<Rightarrow> string"

type_synonym echo_handler = "echo_context \<Rightarrow> world \<Rightarrow> echo_result \<times> echo_context \<times> world"
type_synonym echo_middleware = "echo_handler \<Rightarrow> echo_handler"

record echo =
  eh_hide_banner :: bool
  eh_hide_port :: bool
  eh_routes :: "(string \<times> echo_handler) list"
  eh_use :: "echo_middleware list"        \<comment> \<open>the first is the outermost\<close>

definition echo_metrics :: echo_middleware where
  "echo_metrics next c w =
     (let start = wd_clock w (wd_ticks w);
          (res, c1, w1) = next c (w\<lparr>wd_ticks := wd_ticks w + 1\<rparr>)
      in case res of
           EchoPanic p \<Rightarrow> (EchoPanic p, c1, w1)
         | EchoReturn err \<Rightarrow>
             let status = (case err of
                   None \<Rightarrow> ec_status c1
                 | Some (EchoHTTPError code) \<Rightarrow> code
                 | Some (EchoOther msg) \<Rightarrow> 500);
                 since = wd_clock w1 (wd_ticks w1) - start
             in (EchoReturn err, c1,
                 w1\<lparr>wd_ticks := wd_ticks w1 + 1, wd_meters := record_app (wd_meters w1) (ec_path c1) status since\<rparr>))"

text \<open>\<open>c.String\<close> and \<open>echo.WrapMiddleware\<close>\<close>

record echo_api =
  ea_string :: "int \<Rightarrow> (echo_context \<Rightarrow> string) \<Rightarrow> echo_handler"
  ea_wrap :: "middleware \<Rightarrow> echo_middleware"
  ea_serve :: "echo \<Rightarrow> handler"

definition echo_router :: "echo_api \<Rightarrow> logs_api \<Rightarrow> echo" where
  "echo_router ea api =
     \<lparr>eh_hide_banner = True, eh_hide_port = True,
      eh_routes = [(''/'', ea_string ea 200 (\<lambda>c. ''Hello, World!'')), (''/health'', ea_string ea 200 (\<lambda>c. ''OK'')),
        (''/users/:id'', ea_string ea 200 (\<lambda>c. ''user '' @ ec_param c ''id''))],
      eh_use = [echo_metrics, ea_wrap ea request_id, ea_wrap ea (request_log True api), ea_wrap ea (recover True None)]\<rparr>"

definition new_echo_app :: app where
  "new_echo_app = \<lparr>ap_name = ''echo'', ap_http_srv = None\<rparr>"

definition echo_app_init ::
  "(handler \<Rightarrow> nat) \<Rightarrow> echo_api \<Rightarrow> logs_api \<Rightarrow> nat option \<Rightarrow> app \<Rightarrow> servers \<Rightarrow> server_error option \<times> app \<times> servers" where
  "echo_app_init number ea api found a svs =
     (case found of
        None \<Rightarrow> (Some (ErrText ''http server not registered''), a, svs)
      | Some srv \<Rightarrow>
          (None, a\<lparr>ap_http_srv := Some srv\<rparr>,
           svs(srv := map_option (set_handler (Some (number (ea_serve ea (echo_router ea api))))) (svs srv))))"

subsection \<open>What the first program answers\<close>

lemma canonical_allow [simp]: "canonical ''Allow'' = ''Allow''"
  by (simp add: canonical_def token_byte_def is_digit_def is_upper_def is_lower_def upper_char_def
      lower_char_def char_code_def char_of_def bit_0)

lemma sorted_methods: "sort [''GET'', ''HEAD''] = [''GET'', ''HEAD'']"
  by (simp add: list_le_def list_less_def lexordp_simps)

lemma stdlib_mux_get:
  assumes "m = ''GET'' \<or> m = ''HEAD''"
  shows "best_route m (CHR ''/'' # p) stdlib_routes = Some (''GET'',
    (if p = ''health'' then (''/health'', write_text ''OK'') else (''/'', write_text ''Hello, World!'')))"
  using assms by (auto simp: stdlib_routes_def method_matches_def path_matches_def has_suffix_def has_prefix_def
      suffix_to_prefix)

lemma stdlib_mux_other:
  assumes "m \<noteq> ''GET''" "m \<noteq> ''HEAD''"
  shows "best_route m (CHR ''/'' # p) stdlib_routes = None"
    "allowed_methods (CHR ''/'' # p) stdlib_routes = [''GET'', ''HEAD'']"
  using assms sorted_methods
  by (auto simp: stdlib_routes_def method_matches_def path_matches_def has_suffix_def has_prefix_def allowed_methods_def
      suffix_to_prefix)

definition plain_request :: "string \<Rightarrow> string \<Rightarrow> request" where
  "plain_request m p = blank_request\<lparr>rq_method := m, rq_path := CHR ''/'' # p\<rparr>"

lemmas chain_simps = golden_chain_nested metrics_def request_id_def request_log_def request_log_with_def recover_def
  serve_copy_def generate_request_id_def counted_def mux_route_def default_log_config_def

lemmas step_simps = run_bind run_recorded run_lay over_def sr_write_header_def sr_write_def net_write_header_def
  net_write_def net_read_def has_http_meter_def fresh_world_def new_meters_def new_recorder_def blank_request_def
  get_route_pattern_def unless_panic_def on_meters_def Let_def payload_len_def frame_size_def
  body_allowed_def parse_digits_def header_simps

text \<open>What a client and an operator see of a request: the answer, the metric key and the route of the last log line.\<close>

definition last_route :: "world \<Rightarrow> attr option" where
  "last_route w = (case rev (wd_logs w) of [] \<Rightarrow> None | (lg, lv, msg, attrs) # rest \<Rightarrow> map_of attrs ''route'')"

text \<open>
  C40.  The first example program answers every clean path: GET and HEAD with \<open>OK\<close> under \<open>/health\<close> and with
  the greeting elsewhere, any other method with 405 and the methods it allows.  The log line names the pattern
  the router matched; the one metric sample is labelled \<open>unknown\<close>, since \<open>RequestID\<close> stands between \<open>Metrics\<close>
  and the router.
\<close>

theorem stdlib_answers:
  "let (out, r', w) = serve (stdlib_handler api (\<lambda>_. None)) (plain_request m p) fresh_world;
       get = (m = ''GET'' \<or> m = ''HEAD'')
   in out = Returned
      \<and> wd_status w = (if get then 200 else 405)
      \<and> wd_body w = [Raw (if \<not> get then ''Method Not Allowed'' @ [CHR 0x0A]
           else if p = ''health'' then ''OK'' else ''Hello, World!'')]
      \<and> (get \<or> hget (wd_sent w) ''Allow'' = ''GET, HEAD'')
      \<and> last_route w = Some (AStr (if \<not> get then ''unknown'' else if p = ''health'' then ''GET /health'' else ''GET /''))
      \<and> sample_keys w = Some [''unknown'' @ [key_sep] @ ''middleware'']"
proof (cases "m = ''GET'' \<or> m = ''HEAD''")
  case True
  then show ?thesis
    by (simp add: serve_def stdlib_handler_def chain_simps plain_request_def serve_mux_def stdlib_mux_get [OF True]
      step_simps write_text_def net_finish_def last_route_def log_attrs_def sample_keys_def record_http_from_middleware_def
      record_http_def http_instr_middleware_def http_meter_def in_flight_add_def meter_add_def new_request_meter_def
      classes_of_def)
next
  case False
  then have "m \<noteq> ''GET''" "m \<noteq> ''HEAD''" by auto
  note mux = stdlib_mux_other [OF this]
  show ?thesis using False
    by (simp add: serve_def stdlib_handler_def chain_simps plain_request_def serve_mux_def mux answer_error_def http_error_def
      status_text_def
      step_simps write_text_def net_finish_def last_route_def log_attrs_def sample_keys_def record_http_from_middleware_def
      record_http_def http_instr_middleware_def http_meter_def in_flight_add_def meter_add_def new_request_meter_def
      classes_of_def)
qed

subsection \<open>The second program's metrics, and the wiring of both\<close>

text \<open>
  \<open>echoMetrics\<close> records one application sample when the handler returns, under the registered pattern, with the
  code of an HTTP error, 500 for any other error and the status of the response otherwise; none on a panic.
\<close>

lemma echo_metrics_sample:
  assumes "next c (w\<lparr>wd_ticks := wd_ticks w + 1\<rparr>) = (res, c1, w1)" "http_meter w1 = Some m"
  shows "\<exists>d. echo_metrics next c w = (res, c1, snd (snd (echo_metrics next c w)))
    \<and> http_meter (snd (snd (echo_metrics next c w))) = Some (case res of
        EchoPanic p \<Rightarrow> m
      | EchoReturn err \<Rightarrow> meter_add m ((if ec_path c1 = [] then ''unknown'' else ec_path c1) @ [key_sep] @ ''app'')
          (status_class (case err of None \<Rightarrow> ec_status c1 | Some (EchoHTTPError code) \<Rightarrow> code | Some (EchoOther msg) \<Rightarrow> 500)) d)"
proof -
  obtain ms where "wd_meters w1 = Some ms" "ms_http ms = Some m"
    using assms(2) by (auto simp: http_meter_def split: option.splits)
  then show ?thesis using assms(1)
    by (cases res) (auto simp: echo_metrics_def http_meter_def record_app_def record_http_def http_instr_app_def Let_def)
qed

lemma new_server_idle: "\<not> sv_listening (new_server cv opts)" "\<not> sv_initialized (new_server cv opts)"
  by (simp_all add: new_server_def apply_config_def Let_def split: option.split)

lemma listening_frame:
  "sv_listening (init_subscribe fw c) = sv_listening c" "sv_listening (unsubscribe_logs c) = sv_listening c"
  "sv_listening (snd (apply_config_from_source cv c)) = sv_listening c"
  by (simp_all add: init_subscribe_def unsubscribe_logs_def apply_config_from_source_def apply_config_def Let_def
      split: option.split)

lemma init_frame:
  assumes "\<not> sv_initialized c" "fst (init cv None fw c) = None"
  shows "sv_initialized (snd (init cv None fw c))" "sv_listening (snd (init cv None fw c)) = sv_listening c"
proof -
  define src where "src = (if sv_config_source (init_subscribe fw c) \<noteq> [] then apply_config_from_source cv (init_subscribe fw c)
      else (None, init_subscribe fw c))"
  have "sv_listening (snd src) = sv_listening c" by (simp add: src_def listening_frame)
  moreover have "init cv None fw c = (None, (snd src)\<lparr>sv_initialized := True\<rparr>)"
    using assms unfolding init_def Let_def src_def [symmetric]
    by (auto split: if_splits option.splits prod.splits)
  ultimately show "sv_initialized (snd (init cv None fw c))" "sv_listening (snd (init cv None fw c)) = sv_listening c"
    by simp_all
qed

text \<open>
  After the server's \<open>Init\<close> and the component's, only listening is missing for health.
\<close>

lemma app_init_ready:
  assumes "svs k = Some (snd (init cv None fw (main_server cv)))" "fst (init cv None fw (main_server cv)) = None"
    and "app_init number api own (Some k) new_app svs = (err, a, svs')"
  shows "err = None \<and> ap_http_srv a = Some k
    \<and> (\<exists>c. svs' k = Some c \<and> sv_handler c = Some (number (stdlib_handler api own))
          \<and> health None c = Some (ErrText ''cf_http: server is not listening''))"
proof -
  let ?c = "snd (init cv None fw (main_server cv))"
  have "sv_initialized ?c" "\<not> sv_listening ?c"
    using init_frame [OF _ assms(2)] by (simp_all add: main_server_def new_server_idle)
  then have "health None (set_handler (Some (number (stdlib_handler api own))) ?c)
      = Some (ErrText ''cf_http: server is not listening'')"
    by (simp add: health_def set_handler_def)
  then show ?thesis using assms(1,3) by (auto simp: app_init_def set_handler_def)
qed

subsection \<open>The other order of the documentation\<close>

text \<open>
  \<^verbatim>\<open>docs/wiring-and-health.md\<close> puts \<open>Recover\<close> outside \<open>RequestLog\<close> and \<open>Metrics\<close>.  Then a request whose handler
  panics is answered 500 and leaves the line of the panic, but no request line and no sample.
\<close>

theorem recover_outside_drops_panics:
  "let (out, r', w) = serve (chain [request_id, recover True None, request_log True api, metrics] (panicking msg))
       blank_request fresh_world
   in out = Returned \<and> wd_status w = 500 \<and> map (\<lambda>(lg, lv, msg, attrs). msg) (wd_logs w) = [''panic recovered'']
      \<and> sample_keys w = Some []"
  by (simp add: serve_def chain_foldr chain_simps panicking_def recover_logger_def error_writer_or_default_def
      default_error_writer_def recover_failure_def http_error_def status_text_def step_simps net_finish_def
      sample_keys_def http_meter_def in_flight_add_def new_request_meter_def)

end
