(* ===== verification/Spec2Isabelle.thy ===== *)
theory Spec2Isabelle imports ClientIP BindCodec Scrape Compression Csrf Problem GraphQL_Props Life_Restart Examples begin

text \<open>
  A verification development for the HTTP module of the Caerus framework (package \<open>cf_http\<close> with its
  subpackages \<open>problem\<close> and \<open>graphql\<close>).

  \<^bold>\<open>The program.\<close>  A \<open>Server\<close> is a framework component: it is built from options, configured from a source,
  initialised, given a handler, and run; a reload of its configuration may mark it for a restart.  Around it
  are the middlewares an application chains in front of its router: request ids, request logs, recovery from
  panics, body limits, metrics, CORS, security headers, compression and CSRF protection.  They share the
  failure value and the error writers, the meters of the server, and the helpers that decide which address a
  request came from.  The subpackage \<open>problem\<close> is an error writer, \<open>graphql\<close> a further recording middleware.

  \<^bold>\<open>How it is modelled.\<close>  Data are records and datatypes with the fields of the code.  A handler is a
  program, a tree of operations on its response writer, its body and its environment (\<open>Prog\<close>); a middleware is
  a function from handlers to handlers; a type that wraps a writer or a body is a layer, whose methods are
  programs over the operations below it; \<open>net/http\<close> is the machine at the bottom (\<open>GoHttp\<close>).  So a statement
  about every inner handler is one about every program, and it is proved as an invariant, a preorder or a
  simulation of one machine step: the locales \<open>machine_invariant\<close>, \<open>machine_order\<close> and \<open>machine_simulation\<close>
  carry it to programs and through layers.  The locale \<open>response_writer\<close> is the contract between error
  writers and response writers; it is interpreted on \<open>net/http\<close>'s writer and handed up by the recorder.
  The server is a record; each method is a function on it, the whole critical section at once; \<open>Run\<close>, its
  goroutines and everything that interleaves with them is an inductive step relation.

  \<^bold>\<open>The theories.\<close>
  \<^item> \<open>Prelude\<close>: type synonyms, collections of rules, generic lemmas.
  \<^item> \<open>GoStrings\<close>, \<open>GoNet\<close>, \<open>GoUrl\<close>, \<open>GoMime\<close>, \<open>GoForm\<close>, \<open>GoJson\<close>, \<open>Request\<close>, \<open>GoHttp\<close>: what the module uses of
    the standard library, executable: strings, addresses, URLs, media types, cookies and forms, JSON, header
    maps, the response writer.  \<open>json_roundtrip\<close> and \<open>read_all_complete\<close> are their main facts.
  \<^item> \<open>ClientIP\<close>: \<^verbatim>\<open>clientip.go\<close>.  Untrusted peers and forged hops decide nothing; a forwarded address survives
    the next hop.
  \<^item> \<open>Bind\<close>, \<open>BindCodec\<close>: \<^verbatim>\<open>bind.go\<close>.  Exactly the well-formed lists parse; listening leaks nothing; the JSON
    codec is a round trip.
  \<^item> \<open>Meter\<close>: the meters and recording functions of \<^verbatim>\<open>server.go\<close> and the rendering in \<^verbatim>\<open>metrics.go\<close>.
    A meter counts its samples modulo \<open>2^64\<close> and its three maps stay consistent.  \<open>Scrape\<close>: what is rendered is
    exactly what was recorded.
  \<^item> \<open>Prog\<close>, \<open>Failure\<close>, \<open>Recorder\<close>, \<open>Middleware\<close>, \<open>Handlers\<close>: \<^verbatim>\<open>errors.go\<close> and \<^verbatim>\<open>middleware.go\<close>; \<open>Handlers\<close> holds
    what the middlewares guarantee for every inner handler: the recorder's view, contained panics, the byte
    limit, and that a body within the limit passes as if \<open>MaxBodyBytes\<close> were not there.
  \<^item> \<open>Golden\<close>: the chain of middlewares that the documentation recommends, as a whole; the locale \<open>env_machine\<close>
    is what the middlewares of a chain rely on, and every stack of the module's layers is an instance.  Every panic
    is contained; the sample, the log line and the response agree; one request id correlates them.
  \<^item> \<open>Cors\<close>, \<open>Compression\<close>, \<open>Csrf\<close>: \<^verbatim>\<open>security.go\<close>.  CORS sets exactly the configured headers; compression is
    invisible up to the encoding, the status included for a handler that sets it once and first; a state-changing request without an acceptable origin never reaches the
    inner handler, and a minted token is accepted.
  \<^item> \<open>Problem\<close>: \<^verbatim>\<open>problem/problem.go\<close> and \<^verbatim>\<open>problem/writer.go\<close>; extensions are references into a store, as
    the maps are in the code.
  \<^item> \<open>GraphQL\<close>, \<open>GraphQL_Props\<close>: \<^verbatim>\<open>graphql/metrics.go\<close>; bounded labels, the name a client sent, the restored body.
  \<^item> \<open>Seconds\<close>, \<open>Server\<close>, \<open>Config\<close>: construction, \<open>Init\<close>, \<open>Health\<close>, \<open>Shutdown\<close> and the metrics of the server, and
    \<^verbatim>\<open>config.go\<close>: options, validation (with the floating-point seconds), change detection, reloads.
  \<^item> \<open>Health\<close>: \<open>waitForHealthProviders\<close>, a loop without a bound of its own, and that it returns.
  \<^item> \<open>Lifecycle\<close>, \<open>Life_Invariant\<close>, \<open>Life_Props\<close>, \<open>Life_Restart\<close>: \<open>Run\<close> and its invariant; readiness, cleanliness
    between runs, the refinement of a four-phase specification, that a run can always finish, and what becomes
    of a restart that a reload asked for.

  \<^item> \<open>Examples\<close>: the two programs under \<^verbatim>\<open>examples\<close>, from \<open>Init\<close> of the component to the answer a client gets.

  \<^bold>\<open>Bounds and fuel.\<close>  Counters, durations and clock values are 64-bit words and wrap.  A floating-point number of
  seconds is a 53-bit significand and an exponent; a conversion the language leaves open is the parameter
  \<open>cv\<close>, and \<open>validated_seconds\<close> shows where it plays no part.  Reading a body to its end may never end: it has
  fuel, a parameter of the handlers that do so; one read per byte and per chunk and one more are enough
  (\<open>read_all_complete\<close>, \<open>read_all_limited\<close>).  The JSON reader has twice the length of the text plus one
  (\<open>read_fuel\<close>).  The parameter loop of media types has the length of the text.  The wait for health is a
  partial function; \<open>wait_returns\<close> is its termination.

  \<^bold>\<open>Parameters.\<close>  Code outside this repository is an argument of the definitions that use it: the address formatter
  of the logs component (\<open>logs_api\<close>), registration of a configuration source, the framework's
  component list (\<open>framework\<close>), \<open>yaml.v3\<close>'s decoding of a sequence, the Echo router of
  the second example (\<open>echo_api\<close>), the order in which a map is iterated, the clock, the random
  source and the network (functions in \<open>world\<close>, \<open>netst\<close> and \<open>wait_env\<close>).

  \<^bold>\<open>Not modelled.\<close>  The framework's \<open>New\<close> and \<open>RunWithSignals\<close>, which the example programs end in; the package comment
  \<^verbatim>\<open>doc.go\<close>; the text of the server's own log lines; the bytes a \<open>gzip.Writer\<close> produces (its calls are kept as
  frames); TLS and HTTP/2 (the writer's \<open>Push\<close> is there, the client of a push is not); data races inside one
  handler: a handler is a sequential program, and the mutexes of the writers guard nothing here.  Case folding
  maps ASCII letters only (\<open>strings.EqualFold\<close> folds all of Unicode).  \<open>waitForHealthProviders\<close> reads the
  framework reference once, as one atomic read (the code reads it twice, without the lock), and every provider
  check returns.  A problem status of more than 53 bits and the re-encoding of such a number are outside
  the model of \<open>MarshalJSON\<close>.
\<close>

end
